theory Spec2Isabelle
  imports Complex_Main
begin

section \<open>Netlist objects\<close>

text \<open>
  Objects of the netlist data base are referred to by pointer in the comparer. A pointer
  is an address (a natural number, compared the way \<open>std::map\<close> compares pointer keys);
  a pointer that may be null is an \<open>addr option\<close>.
\<close>

type_synonym addr = nat

text \<open>
  A \<open>double\<close>, as far as the comparer looks at one: it only compares them. The finite
  values are reals; a comparison with a NaN is false.
\<close>

datatype dbl = NaN | MInf | Fin real | PInf

fun dbl_less :: "dbl \<Rightarrow> dbl \<Rightarrow> bool" where
  "dbl_less NaN _ = False"
| "dbl_less _ NaN = False"
| "dbl_less MInf MInf = False"
| "dbl_less MInf _ = True"
| "dbl_less (Fin x) (Fin y) = (x < y)"
| "dbl_less (Fin x) PInf = True"
| "dbl_less (Fin x) MInf = False"
| "dbl_less PInf _ = False"

text \<open>
  Modelled from the spec: the netlist data base (\<open>db::Netlist\<close>, \<open>db::Circuit\<close>, \<open>db::Net\<close>,
  \<open>db::Pin\<close>, \<open>db::Device\<close>, \<open>db::DeviceClass\<close>, \<open>db::SubCircuit\<close>), which is not part of
  the sources at hand; section 3 of the spec describes it, and the fields below are the
  accessors the comparer calls. \<open>dc_kind\<close> is what the two \<open>dynamic_cast\<close>s of the device
  filter find out: whether the class is (derived from) the standard resistor class, the
  standard capacitor class, or neither.
\<close>

record Pin =
  p_id :: nat
  p_name :: string

datatype class_kind = ResistorClass | CapacitorClass | OtherClass

record DeviceClass =
  dc_name :: string
  dc_kind :: class_kind
  dc_terminal_definitions :: "nat list"
  dc_normalize_terminal_id :: "nat \<Rightarrow> nat"

record Device =
  dev_device_class :: "addr option"
  dev_parameter_value :: "nat \<Rightarrow> dbl"
  dev_net_for_terminal :: "nat \<Rightarrow> addr option"

record SubCircuit =
  sc_circuit_ref :: "addr option"
  sc_net_for_pin :: "nat \<Rightarrow> addr option"

record Net =
  net_pins :: "Pin list"
  net_terminals :: "(addr \<times> nat) list"
  net_subcircuit_pins :: "(addr \<times> nat) list"
  net_is_floating :: bool
  net_circuit :: "addr option"

record Circuit =
  c_name :: string
  c_pins :: "Pin list"
  c_nets :: "addr list"
  c_devices :: "addr list"
  c_subcircuits :: "addr list"
  c_net_for_pin :: "nat \<Rightarrow> addr option"

text \<open>
  The objects behind the pointers. \<open>h_device_less\<close> and \<open>h_device_equal\<close> are the static
  \<open>db::DeviceClass::less\<close> and \<open>db::DeviceClass::equal\<close> on two devices.
\<close>

record heap =
  h_circuit :: "addr \<Rightarrow> Circuit"
  h_net :: "addr \<Rightarrow> Net"
  h_device :: "addr \<Rightarrow> Device"
  h_subcircuit :: "addr \<Rightarrow> SubCircuit"
  h_device_class :: "addr \<Rightarrow> DeviceClass"
  h_device_less :: "addr \<Rightarrow> addr \<Rightarrow> bool"
  h_device_equal :: "addr \<Rightarrow> addr \<Rightarrow> bool"

record Netlist =
  nl_circuits :: "addr list"
  nl_device_classes :: "addr list"
  nl_bottom_up :: "addr list"

text \<open>
  Modelled from the spec: the parameter ids \<open>db::DeviceClassResistor::param_id_R\<close> and
  \<open>db::DeviceClassCapacitor::param_id_C\<close> (section 4.3: known constants of the standard
  device classes).
\<close>

definition param_id_R :: nat where
  "param_id_R = 0"

definition param_id_C :: nat where
  "param_id_C = 0"

text \<open>
  What ends a run abnormally: a failed \<open>tl_assert\<close>, and the two undefined operations the
  code can reach on an ill-formed netlist, following a null pointer and a remainder by
  zero. \<open>OutOfFuel\<close> is no error of the code: the one loop without a bound, the
  \<open>while (true)\<close> of a pass in \<open>compare_circuits\<close>, is given a number of rounds, and this
  is the outcome when they are used up.
\<close>

datatype error = AssertionFailed | NullPointer | DivisionByZero | OutOfFuel

definition bind_err :: "error + 'a \<Rightarrow> ('a \<Rightarrow> error + 'b) \<Rightarrow> error + 'b" where
  "bind_err r f = (case r of Inl e \<Rightarrow> Inl e | Inr x \<Rightarrow> f x)"

fun fold_err :: "('a \<Rightarrow> 's \<Rightarrow> error + 's) \<Rightarrow> 'a list \<Rightarrow> 's \<Rightarrow> error + 's" where
  "fold_err f [] s = Inr s"
| "fold_err f (x # xs) s = (case f x s of Inl e \<Rightarrow> Inl e | Inr s' \<Rightarrow> fold_err f xs s')"

text \<open>\<open>std::numeric_limits<size_t>::max ()\<close>, for a \<open>size_t\<close> of 64 bits.\<close>

definition size_max :: nat where
  "size_max = 2 ^ 64 - 1"


section \<open>Ordered maps\<close>

text \<open>
  \<open>std::map\<close> as an association list in ascending key order, which is the order
  an iterator walks it in. \<open>map_of\<close> is \<open>find\<close>.
\<close>

type_synonym ('k, 'v) std_map = "('k \<times> 'v) list"

text \<open>\<open>std::map::insert\<close>: an entry that exists already is kept as it is.\<close>

fun map_insert :: "'k::linorder \<Rightarrow> 'v \<Rightarrow> ('k, 'v) std_map \<Rightarrow> ('k, 'v) std_map" where
  "map_insert k v [] = [(k, v)]"
| "map_insert k v ((k', v') # m) =
     (if k = k' then (k', v') # m
      else if k < k' then (k, v) # (k', v') # m
      else (k', v') # map_insert k v m)"

text \<open>Assignment through an iterator or through \<open>operator[]\<close>: the value is replaced.\<close>

fun map_assign :: "'k::linorder \<Rightarrow> 'v \<Rightarrow> ('k, 'v) std_map \<Rightarrow> ('k, 'v) std_map" where
  "map_assign k v [] = [(k, v)]"
| "map_assign k v ((k', v') # m) =
     (if k = k' then (k', v) # m
      else if k < k' then (k, v) # (k', v') # m
      else (k', v') # map_assign k v m)"

text \<open>
  A \<open>std::map\<close> that is only looked up and inserted into is a partial function; this is
  its \<open>insert\<close>.
\<close>

definition pmap_insert :: "'k \<Rightarrow> 'v \<Rightarrow> ('k \<rightharpoonup> 'v) \<Rightarrow> ('k \<rightharpoonup> 'v)" where
  "pmap_insert k v m = (if m k = None then m(k \<mapsto> v) else m)"

section \<open>Sorting\<close>

text \<open>
  \<open>std::sort\<close> and \<open>std::stable_sort\<close> with a "less" predicate: sorting by insertion, an
  element going in front of the first one that is not less than it, which keeps the order
  of elements that compare as equivalent. \<open>lex_less\<close> is \<open>operator<\<close> on two vectors.
\<close>

fun insert_by :: "('a \<Rightarrow> 'a \<Rightarrow> bool) \<Rightarrow> 'a \<Rightarrow> 'a list \<Rightarrow> 'a list" where
  "insert_by lt x [] = [x]"
| "insert_by lt x (y # ys) = (if lt y x then y # insert_by lt x ys else x # y # ys)"

definition sort_by :: "('a \<Rightarrow> 'a \<Rightarrow> bool) \<Rightarrow> 'a list \<Rightarrow> 'a list" where
  "sort_by lt xs = foldr (insert_by lt) xs []"

fun lex_less :: "('a \<Rightarrow> 'a \<Rightarrow> bool) \<Rightarrow> 'a list \<Rightarrow> 'a list \<Rightarrow> bool" where
  "lex_less lt [] [] = False"
| "lex_less lt [] (y # ys) = True"
| "lex_less lt (x # xs) [] = False"
| "lex_less lt (x # xs) (y # ys) =
     (if lt x y then True else if lt y x then False else lex_less lt xs ys)"

section \<open>Categorizers\<close>

text \<open>
  Modelled from the spec: \<open>tl::to_upper_case\<close> (not part of the sources at hand), the
  upper-casing behind the case-insensitive names of section 4.1.
\<close>

definition to_upper_char :: "char \<Rightarrow> char" where
  "to_upper_char c =
     (let n = (of_char c :: nat) in if 97 \<le> n \<and> n \<le> 122 then char_of (n - 32) else c)"

definition to_upper_case :: "string \<Rightarrow> string" where
  "to_upper_case s = map to_upper_char s"

text \<open>
  \<open>DeviceCategorizer\<close> and \<open>CircuitCategorizer\<close> have the same three members. The
  counter is a \<open>size_t\<close> that is only ever incremented; it is a \<open>nat\<close> here.
\<close>

record categorizer =
  m_cat_by_ptr :: "(addr, nat) std_map"
  m_cat_by_name :: "string \<rightharpoonup> nat"
  m_next_cat :: nat

definition new_categorizer :: categorizer where
  "new_categorizer = \<lparr> m_cat_by_ptr = [], m_cat_by_name = Map.empty, m_next_cat = 0 \<rparr>"

text \<open>
  One round of the loop that joins two categories in \<open>DeviceCategorizer::same_class\<close>:
  \<open>if (cp->second == cpb->second) cp->second = cpa->second\<close>. \<open>cpa\<close> and \<open>cpb\<close> are
  iterators into the map that is being rewritten, so both are read from the map as it is
  in this round.
\<close>

definition join_step :: "addr \<Rightarrow> addr \<Rightarrow> addr \<Rightarrow> (addr, nat) std_map \<Rightarrow> (addr, nat) std_map" where
  "join_step ca cb cp m =
     (case map_of m ca of
        None \<Rightarrow> m
      | Some a \<Rightarrow> if map_of m cp = map_of m cb then map_assign cp a m else m)"

definition same_class :: "addr \<Rightarrow> addr \<Rightarrow> categorizer \<Rightarrow> categorizer" where
  "same_class ca cb s =
     (let m = m_cat_by_ptr s in
      case (map_of m ca, map_of m cb) of
        (Some a, Some b) \<Rightarrow>
          if a \<noteq> b then s\<lparr> m_cat_by_ptr := fold (join_step ca cb) (map fst m) m \<rparr> else s
      | (None, Some b) \<Rightarrow> s\<lparr> m_cat_by_ptr := map_insert ca b m \<rparr>
      | (Some a, None) \<Rightarrow> s\<lparr> m_cat_by_ptr := map_insert cb a m \<rparr>
      | (None, None) \<Rightarrow>
          (let n = m_next_cat s + 1 in
           s\<lparr> m_next_cat := n, m_cat_by_ptr := map_insert cb n (map_insert ca n m) \<rparr>))"

text \<open>
  \<open>cat_for_device_class\<close> and \<open>cat_for_circuit\<close> are the same code on the two kinds of
  object: \<open>cat_for_named\<close>, with the pointer and the name of the object. The result is the
  category and the categorizer after the call.
\<close>

definition cat_for_named :: "addr \<Rightarrow> string \<Rightarrow> categorizer \<Rightarrow> nat \<times> categorizer" where
  "cat_for_named p name s =
     (case map_of (m_cat_by_ptr s) p of
        Some c \<Rightarrow> (c, s)
      | None \<Rightarrow>
          (let nm = to_upper_case name in
           case m_cat_by_name s nm of
             Some c \<Rightarrow> (c, s\<lparr> m_cat_by_ptr := map_insert p c (m_cat_by_ptr s) \<rparr>)
           | None \<Rightarrow>
               (let n = m_next_cat s + 1 in
                (n, s\<lparr> m_next_cat := n,
                        m_cat_by_name := (m_cat_by_name s)(nm \<mapsto> n),
                        m_cat_by_ptr := map_insert p n (m_cat_by_ptr s) \<rparr>))))"

definition cat_for_device_class :: "heap \<Rightarrow> addr \<Rightarrow> categorizer \<Rightarrow> nat \<times> categorizer" where
  "cat_for_device_class h cls s = cat_for_named cls (dc_name (h_device_class h cls)) s"

definition cat_for_device :: "heap \<Rightarrow> addr \<Rightarrow> categorizer \<Rightarrow> nat \<times> categorizer" where
  "cat_for_device h device s =
     (case dev_device_class (h_device h device) of
        None \<Rightarrow> (0, s)
      | Some cls \<Rightarrow> cat_for_device_class h cls s)"

definition has_cat_for_device_class :: "addr \<Rightarrow> categorizer \<Rightarrow> bool" where
  "has_cat_for_device_class cls s = (map_of (m_cat_by_ptr s) cls \<noteq> None)"

definition cat_for_circuit :: "heap \<Rightarrow> addr \<Rightarrow> categorizer \<Rightarrow> nat \<times> categorizer" where
  "cat_for_circuit h cr s = cat_for_named cr (c_name (h_circuit h cr)) s"

definition cat_for_subcircuit :: "heap \<Rightarrow> addr \<Rightarrow> categorizer \<Rightarrow> nat \<times> categorizer" where
  "cat_for_subcircuit h subcircuit s =
     (case sc_circuit_ref (h_subcircuit h subcircuit) of
        None \<Rightarrow> (0, s)
      | Some cr \<Rightarrow> cat_for_circuit h cr s)"

definition same_circuit :: "addr \<Rightarrow> addr \<Rightarrow> categorizer \<Rightarrow> categorizer" where
  "same_circuit ca cb s =
     (let n = m_next_cat s + 1 in
      s\<lparr> m_next_cat := n, m_cat_by_ptr := map_insert cb n (map_insert ca n (m_cat_by_ptr s)) \<rparr>)"

section \<open>Equivalence clusters and the pin mapper\<close>

text \<open>
  Modelled from the spec: \<open>tl::equivalence_clusters\<close> (\<open>tlEquivalenceClusters.h\<close> is not part
  of the sources at hand). Section 3 of the spec: a union-find over pin ids, where the
  representative of a cluster is its smallest member and a pin in no cluster stands for
  itself. A value is the list of its clusters, the cluster with id \<open>i + 1\<close> at position \<open>i\<close>
  (id 0 says "in no cluster"); a cluster is the ascending list of its members, and a
  cluster joined into another one stays behind empty.
\<close>

type_synonym 'a equivalence_clusters = "'a list list"

fun cluster_id_from :: "nat \<Rightarrow> 'a \<Rightarrow> 'a equivalence_clusters \<Rightarrow> nat" where
  "cluster_id_from i a [] = 0"
| "cluster_id_from i a (c # cs) = (if a \<in> set c then i else cluster_id_from (Suc i) a cs)"

definition cluster_id :: "'a \<Rightarrow> 'a equivalence_clusters \<Rightarrow> nat" where
  "cluster_id a cl = cluster_id_from 1 a cl"

definition has_attribute :: "'a \<Rightarrow> 'a equivalence_clusters \<Rightarrow> bool" where
  "has_attribute a cl = (cluster_id a cl \<noteq> 0)"

definition begin_cluster :: "nat \<Rightarrow> 'a equivalence_clusters \<Rightarrow> 'a list" where
  "begin_cluster cid cl = (if 0 < cid \<and> cid \<le> length cl then cl ! (cid - 1) else [])"

definition same :: "'a::linorder \<Rightarrow> 'a \<Rightarrow> 'a equivalence_clusters \<Rightarrow> 'a equivalence_clusters" where
  "same a b cl =
     (let ia = cluster_id a cl; ib = cluster_id b cl in
      if ia = 0 \<and> ib = 0 then cl @ [insort_insert b [a]]
      else if ia \<noteq> 0 \<and> ib \<noteq> 0 then
        (if ia = ib then cl
         else (cl[ia - 1 := fold insort_insert (cl ! (ib - 1)) (cl ! (ia - 1))])[ib - 1 := []])
      else if ia \<noteq> 0 then cl[ia - 1 := insort_insert b (cl ! (ia - 1))]
      else cl[ib - 1 := insort_insert a (cl ! (ib - 1))])"

text \<open>
  \<open>CircuitPinMapper\<close>: its one member \<open>m_pin_map\<close>, from the circuit to the clusters of its
  swappable pins. The map is only ever looked up and stored into.
\<close>

type_synonym CircuitPinMapper = "addr \<rightharpoonup> nat equivalence_clusters"

definition new_CircuitPinMapper :: CircuitPinMapper where
  "new_CircuitPinMapper = Map.empty"

text \<open>\<open>m_pin_map [circuit]\<close>: the entry, created empty when there is none.\<close>

definition pin_map_entry :: "CircuitPinMapper \<Rightarrow> addr \<Rightarrow> nat equivalence_clusters" where
  "pin_map_entry pm circuit = (case pm circuit of None \<Rightarrow> [] | Some cl \<Rightarrow> cl)"

definition map_pins2 :: "addr \<Rightarrow> nat \<Rightarrow> nat \<Rightarrow> CircuitPinMapper \<Rightarrow> CircuitPinMapper" where
  "map_pins2 circuit pin1_id pin2_id pm =
     pm(circuit \<mapsto> same pin1_id pin2_id (pin_map_entry pm circuit))"

definition map_pins :: "addr \<Rightarrow> nat list \<Rightarrow> CircuitPinMapper \<Rightarrow> CircuitPinMapper" where
  "map_pins circuit pin_ids pm =
     (if length pin_ids < 2 then pm
      else pm(circuit \<mapsto>
             fold (\<lambda>i cl. same (pin_ids ! 0) (pin_ids ! i) cl) [1 ..< length pin_ids]
               (pin_map_entry pm circuit)))"

definition is_mapped :: "CircuitPinMapper \<Rightarrow> addr \<Rightarrow> nat \<Rightarrow> bool" where
  "is_mapped pm circuit pin_id =
     (case pm circuit of Some cl \<Rightarrow> has_attribute pin_id cl | None \<Rightarrow> False)"

definition normalize_pin_id :: "CircuitPinMapper \<Rightarrow> addr \<Rightarrow> nat \<Rightarrow> nat" where
  "normalize_pin_id pm circuit pin_id =
     (case pm circuit of
        Some cl \<Rightarrow>
          (let cid = cluster_id pin_id cl in
           if cid > 0 then (case begin_cluster cid cl of p # _ \<Rightarrow> p | [] \<Rightarrow> pin_id) else pin_id)
      | None \<Rightarrow> pin_id)"

section \<open>Device filter\<close>

record DeviceFilter =
  df_cap_threshold :: dbl
  df_res_threshold :: dbl

text \<open>\<open>DeviceFilter::filter\<close>; \<open>res\<close> and \<open>cap\<close> are the results of the two casts.\<close>

definition filter_device :: "heap \<Rightarrow> DeviceFilter \<Rightarrow> addr \<Rightarrow> bool" where
  "filter_device h f device =
     (let d = h_device h device;
          res = (case dev_device_class d of
                   None \<Rightarrow> False | Some c \<Rightarrow> dc_kind (h_device_class h c) = ResistorClass);
          cap = (case dev_device_class d of
                   None \<Rightarrow> False | Some c \<Rightarrow> dc_kind (h_device_class h c) = CapacitorClass)
      in if res then
           (if dbl_less (Fin 0) (df_res_threshold f) \<and>
               dbl_less (df_res_threshold f) (dev_parameter_value d param_id_R)
            then False else True)
         else if cap then
           (if dbl_less (Fin 0) (df_cap_threshold f) \<and>
               dbl_less (dev_parameter_value d param_id_C) (df_cap_threshold f)
            then False else True)
         else True)"

section \<open>Comparer configuration\<close>

text \<open>
  \<open>NetlistComparer\<close>: whether a logger is attached (the events themselves are returned by the
  functions that emit them), the persistent categorizers and pin mapper, the thresholds
  and the limits of the search, and the net pairs declared the same, by circuit pair.
\<close>

record NetlistComparer =
  mp_logger :: bool
  mp_device_categorizer :: categorizer
  mp_circuit_categorizer :: categorizer
  mp_circuit_pin_mapper :: CircuitPinMapper
  m_cap_threshold :: dbl
  m_res_threshold :: dbl
  m_max_depth :: nat
  m_max_n_branch :: nat
  m_same_nets :: "addr option \<times> addr option \<rightharpoonup> (addr \<times> addr) list"

definition new_NetlistComparer :: "bool \<Rightarrow> NetlistComparer" where
  "new_NetlistComparer logger =
     \<lparr> mp_logger = logger,
       mp_device_categorizer = new_categorizer,
       mp_circuit_categorizer = new_categorizer,
       mp_circuit_pin_mapper = new_CircuitPinMapper,
       m_cap_threshold = Fin (- 1),
       m_res_threshold = Fin (- 1),
       m_max_depth = 8,
       m_max_n_branch = 100,
       m_same_nets = Map.empty \<rparr>"

definition exclude_caps :: "dbl \<Rightarrow> NetlistComparer \<Rightarrow> NetlistComparer" where
  "exclude_caps threshold nc = nc\<lparr> m_cap_threshold := threshold \<rparr>"

definition exclude_resistors :: "dbl \<Rightarrow> NetlistComparer \<Rightarrow> NetlistComparer" where
  "exclude_resistors threshold nc = nc\<lparr> m_res_threshold := threshold \<rparr>"

definition equivalent_pins2 :: "addr \<Rightarrow> nat \<Rightarrow> nat \<Rightarrow> NetlistComparer \<Rightarrow> NetlistComparer" where
  "equivalent_pins2 cb pin1_id pin2_id nc =
     nc\<lparr> mp_circuit_pin_mapper := map_pins2 cb pin1_id pin2_id (mp_circuit_pin_mapper nc) \<rparr>"

definition equivalent_pins :: "addr \<Rightarrow> nat list \<Rightarrow> NetlistComparer \<Rightarrow> NetlistComparer" where
  "equivalent_pins cb pin_ids nc =
     nc\<lparr> mp_circuit_pin_mapper := map_pins cb pin_ids (mp_circuit_pin_mapper nc) \<rparr>"

definition same_nets :: "heap \<Rightarrow> addr \<Rightarrow> addr \<Rightarrow> NetlistComparer \<Rightarrow> NetlistComparer" where
  "same_nets h na nb nc =
     (let key = (net_circuit (h_net h na), net_circuit (h_net h nb)) in
      nc\<lparr> m_same_nets := (m_same_nets nc)
             (key \<mapsto> (case m_same_nets nc key of None \<Rightarrow> [] | Some v \<Rightarrow> v) @ [(na, nb)]) \<rparr>)"

text \<open>The two declarations assert that neither pointer is null.\<close>

definition same_device_classes ::
  "addr option \<Rightarrow> addr option \<Rightarrow> NetlistComparer \<Rightarrow> error + NetlistComparer" where
  "same_device_classes ca cb nc =
     (case (ca, cb) of
        (Some a, Some b) \<Rightarrow>
          Inr (nc\<lparr> mp_device_categorizer := same_class a b (mp_device_categorizer nc) \<rparr>)
      | _ \<Rightarrow> Inl AssertionFailed)"

definition same_circuits ::
  "addr option \<Rightarrow> addr option \<Rightarrow> NetlistComparer \<Rightarrow> error + NetlistComparer" where
  "same_circuits ca cb nc =
     (case (ca, cb) of
        (Some a, Some b) \<Rightarrow>
          Inr (nc\<lparr> mp_circuit_categorizer := same_circuit a b (mp_circuit_categorizer nc) \<rparr>)
      | _ \<Rightarrow> Inl AssertionFailed)"

text \<open>The filter \<open>compare_circuits\<close> builds from the thresholds of the comparer.\<close>

definition device_filter_of :: "NetlistComparer \<Rightarrow> DeviceFilter" where
  "device_filter_of nc =
     \<lparr> df_cap_threshold = m_cap_threshold nc, df_res_threshold = m_res_threshold nc \<rparr>"

text \<open>
  A resistor of 100 Ohm (device 1, class 10) and a capacitor of 1 F (device 2, class 11),
  and a filter with a resistance threshold of 50 and no capacitance threshold.
\<close>

definition filter_example_heap :: heap where
  "filter_example_heap =
     \<lparr> h_circuit = (\<lambda>_. \<lparr> c_name = [], c_pins = [], c_nets = [], c_devices = [],
                            c_subcircuits = [], c_net_for_pin = (\<lambda>_. None) \<rparr>),
       h_net = (\<lambda>_. \<lparr> net_pins = [], net_terminals = [], net_subcircuit_pins = [],
                        net_is_floating = True, net_circuit = None \<rparr>),
       h_device = (\<lambda>d. \<lparr> dev_device_class = (if d = 1 then Some 10 else Some 11),
                           dev_parameter_value = (\<lambda>_. if d = 1 then Fin 100 else Fin 1),
                           dev_net_for_terminal = (\<lambda>_. None) \<rparr>),
       h_subcircuit = (\<lambda>_. \<lparr> sc_circuit_ref = None, sc_net_for_pin = (\<lambda>_. None) \<rparr>),
       h_device_class = (\<lambda>c. \<lparr> dc_name = (if c = 10 then ''RES'' else ''CAP''),
                                 dc_kind = (if c = 10 then ResistorClass else CapacitorClass),
                                 dc_terminal_definitions = [0, 1],
                                 dc_normalize_terminal_id = (\<lambda>_. 0) \<rparr>),
       h_device_less = (\<lambda>_ _. False),
       h_device_equal = (\<lambda>_ _. True) \<rparr>"

definition filter_example :: DeviceFilter where
  "filter_example = \<lparr> df_cap_threshold = Fin (- 1), df_res_threshold = Fin 50 \<rparr>"

section \<open>Circuit mapper\<close>

record CircuitMapper =
  mp_other :: "addr option"
  m_pin_map :: "nat \<rightharpoonup> nat"
  m_rev_pin_map :: "nat \<rightharpoonup> nat"

definition new_CircuitMapper :: CircuitMapper where
  "new_CircuitMapper = \<lparr> mp_other = None, m_pin_map = Map.empty, m_rev_pin_map = Map.empty \<rparr>"

definition set_other :: "addr \<Rightarrow> CircuitMapper \<Rightarrow> CircuitMapper" where
  "set_other other cm = cm\<lparr> mp_other := Some other \<rparr>"

definition map_pin :: "nat \<Rightarrow> nat \<Rightarrow> CircuitMapper \<Rightarrow> CircuitMapper" where
  "map_pin this_pin other_pin cm =
     cm\<lparr> m_pin_map := pmap_insert this_pin other_pin (m_pin_map cm),
         m_rev_pin_map := pmap_insert other_pin this_pin (m_rev_pin_map cm) \<rparr>"

definition has_other_pin_for_this_pin :: "CircuitMapper \<Rightarrow> nat \<Rightarrow> bool" where
  "has_other_pin_for_this_pin cm this_pin = (m_pin_map cm this_pin \<noteq> None)"

definition has_this_pin_for_other_pin :: "CircuitMapper \<Rightarrow> nat \<Rightarrow> bool" where
  "has_this_pin_for_other_pin cm other_pin = (m_rev_pin_map cm other_pin \<noteq> None)"

definition other_pin_from_this_pin :: "CircuitMapper \<Rightarrow> nat \<Rightarrow> error + nat" where
  "other_pin_from_this_pin cm this_pin =
     (case m_pin_map cm this_pin of None \<Rightarrow> Inl AssertionFailed | Some p \<Rightarrow> Inr p)"

definition this_pin_from_other_pin :: "CircuitMapper \<Rightarrow> nat \<Rightarrow> error + nat" where
  "this_pin_from_other_pin cm other_pin =
     (case m_rev_pin_map cm other_pin of None \<Rightarrow> Inl AssertionFailed | Some p \<Rightarrow> Inr p)"

section \<open>Transitions\<close>

text \<open>
  A transition keeps a pointer with a category in \<open>m_ref\<close> (read as a device pair or as a
  subcircuit pair) and the two ids. A subcircuit transition stores \<open>max - pin1_id\<close> as its
  first id, and a transition is taken for a subcircuit one when its first id is above half
  of the maximum.
\<close>

record Transition =
  m_ref :: "addr option \<times> nat"
  m_id1 :: nat
  m_id2 :: nat

definition device_Transition :: "addr \<Rightarrow> nat \<Rightarrow> nat \<Rightarrow> nat \<Rightarrow> Transition" where
  "device_Transition device device_category terminal1_id terminal2_id =
     \<lparr> m_ref = (Some device, device_category), m_id1 = terminal1_id, m_id2 = terminal2_id \<rparr>"

definition subcircuit_Transition :: "addr \<Rightarrow> nat \<Rightarrow> nat \<Rightarrow> nat \<Rightarrow> Transition" where
  "subcircuit_Transition subcircuit subcircuit_category pin1_id pin2_id =
     \<lparr> m_ref = (Some subcircuit, subcircuit_category),
       m_id1 = size_max - pin1_id, m_id2 = pin2_id \<rparr>"

definition is_for_subcircuit :: "Transition \<Rightarrow> bool" where
  "is_for_subcircuit t = (m_id1 t > size_max div 2)"

text \<open>\<open>DeviceCompare\<close> and \<open>SubCircuitCompare\<close>, on the pairs of pointer and category.\<close>

definition dc_less :: "heap \<Rightarrow> addr option \<times> nat \<Rightarrow> addr option \<times> nat \<Rightarrow> bool" where
  "dc_less h d1 d2 =
     (if snd d1 \<noteq> snd d2 then snd d1 < snd d2
      else case (fst d1, fst d2) of
             (Some x, Some y) \<Rightarrow> h_device_less h x y
           | _ \<Rightarrow> False)"

definition dc_equals :: "heap \<Rightarrow> addr option \<times> nat \<Rightarrow> addr option \<times> nat \<Rightarrow> bool" where
  "dc_equals h d1 d2 =
     (if snd d1 \<noteq> snd d2 then False
      else case (fst d1, fst d2) of
             (Some x, Some y) \<Rightarrow> h_device_equal h x y
           | _ \<Rightarrow> False)"

definition scc_less :: "addr option \<times> nat \<Rightarrow> addr option \<times> nat \<Rightarrow> bool" where
  "scc_less sc1 sc2 = (snd sc1 < snd sc2)"

definition scc_equals :: "addr option \<times> nat \<Rightarrow> addr option \<times> nat \<Rightarrow> bool" where
  "scc_equals sc1 sc2 = (snd sc1 = snd sc2)"

text \<open>\<open>Transition::operator<\<close> and \<open>Transition::operator==\<close>.\<close>

definition transition_less :: "heap \<Rightarrow> Transition \<Rightarrow> Transition \<Rightarrow> bool" where
  "transition_less h t other =
     (if is_for_subcircuit t \<noteq> is_for_subcircuit other
      then is_for_subcircuit t < is_for_subcircuit other
      else if is_for_subcircuit t then
        (if (fst (m_ref t) \<noteq> None) \<noteq> (fst (m_ref other) \<noteq> None)
         then (fst (m_ref t) \<noteq> None) < (fst (m_ref other) \<noteq> None)
         else if fst (m_ref t) \<noteq> None \<and> \<not> scc_equals (m_ref t) (m_ref other)
         then scc_less (m_ref t) (m_ref other)
         else if m_id1 t \<noteq> m_id1 other then m_id1 t < m_id1 other
         else m_id2 t < m_id2 other)
      else
        (if (fst (m_ref t) \<noteq> None) \<noteq> (fst (m_ref other) \<noteq> None)
         then (fst (m_ref t) \<noteq> None) < (fst (m_ref other) \<noteq> None)
         else if fst (m_ref t) \<noteq> None \<and> \<not> dc_equals h (m_ref t) (m_ref other)
         then dc_less h (m_ref t) (m_ref other)
         else if m_id1 t \<noteq> m_id1 other then m_id1 t < m_id1 other
         else m_id2 t < m_id2 other))"

definition transition_equal :: "heap \<Rightarrow> Transition \<Rightarrow> Transition \<Rightarrow> bool" where
  "transition_equal h t other =
     (if is_for_subcircuit t \<noteq> is_for_subcircuit other then False
      else if is_for_subcircuit t then
        (if (fst (m_ref t) \<noteq> None) \<noteq> (fst (m_ref other) \<noteq> None) then False
         else if fst (m_ref t) \<noteq> None \<and> \<not> scc_equals (m_ref t) (m_ref other) then False
         else m_id1 t = m_id1 other \<and> m_id2 t = m_id2 other)
      else
        (if (fst (m_ref t) \<noteq> None) \<noteq> (fst (m_ref other) \<noteq> None) then False
         else if fst (m_ref t) \<noteq> None \<and> \<not> dc_equals h (m_ref t) (m_ref other) then False
         else m_id1 t = m_id1 other \<and> m_id2 t = m_id2 other))"

text \<open>\<open>operator<\<close> and \<open>operator==\<close> on two vectors of transitions.\<close>

definition transitions_less :: "heap \<Rightarrow> Transition list \<Rightarrow> Transition list \<Rightarrow> bool" where
  "transitions_less h a b = lex_less (transition_less h) a b"

definition transitions_equal :: "heap \<Rightarrow> Transition list \<Rightarrow> Transition list \<Rightarrow> bool" where
  "transitions_equal h a b = list_all2 (transition_equal h) a b"

section \<open>Net graph nodes\<close>

text \<open>
  An edge is the vector of its transitions with the index and the net of the node at the
  far end. \<open>m_other_net_index\<close> is \<open>size_max\<close> while the node has no partner.
\<close>

type_synonym edge = "Transition list \<times> (nat \<times> addr option)"

record NetGraphNode =
  mp_net :: "addr option"
  m_other_net_index :: nat
  m_edges :: "edge list"

text \<open>
  The constructor collects the edges in \<open>m_edges\<close>, with \<open>n2entry\<close> telling the position of
  the edge to a far net. \<open>add_transition\<close> is the step it repeats three times: find or create
  the edge to \<open>net2\<close>, and append the transition to it.
\<close>

type_synonym edge_acc = "(addr option \<rightharpoonup> nat) \<times> edge list"

definition add_transition :: "addr option \<Rightarrow> Transition \<Rightarrow> edge_acc \<Rightarrow> edge_acc" where
  "add_transition net2 ed acc =
     (let n2entry = fst acc; edges = snd acc in
      case n2entry net2 of
        Some i \<Rightarrow> (n2entry, edges[i := (fst (edges ! i) @ [ed], snd (edges ! i))])
      | None \<Rightarrow> (n2entry(net2 \<mapsto> length edges), edges @ [([ed], (0, net2))]))"

text \<open>
  The loop that picks up to five further pins of the callee: \<open>n\<close> counts the rounds and
  \<open>take_additional_pins\<close> grows with every pin that is skipped. Both are \<open>size_t\<close>; the loop
  is cut off where \<open>n\<close> would leave that range.
\<close>

function collect_pids ::
  "CircuitMapper \<Rightarrow> CircuitPinMapper \<Rightarrow> addr \<Rightarrow> nat \<Rightarrow> nat \<Rightarrow> nat \<Rightarrow> nat \<Rightarrow> nat list \<Rightarrow> nat list" where
  "collect_pids cm pin_map cr pin_id pin_count n take_additional_pins pids =
     (if n < take_additional_pins \<and> n < size_max then
        (let add_pin_id = (pin_id + n + 1) mod pin_count in
         if add_pin_id = pin_id then pids
         else if (case m_rev_pin_map cm add_pin_id of
                    None \<Rightarrow> False
                  | Some this_pin \<Rightarrow> normalize_pin_id pin_map cr this_pin \<noteq> pin_id)
         then collect_pids cm pin_map cr pin_id pin_count (n + 1) take_additional_pins
                (pids @ [add_pin_id])
         else collect_pids cm pin_map cr pin_id pin_count (n + 1) (take_additional_pins + 1) pids)
      else pids)"
  by pat_completeness auto
termination
  by (relation "measure (\<lambda>(cm, pin_map, cr, pin_id, pin_count, n, t, pids). size_max - n)") auto

text \<open>The transitions one entry of \<open>pids\<close> contributes.\<close>

definition pid_edge ::
  "heap \<Rightarrow> CircuitMapper \<Rightarrow> CircuitPinMapper \<Rightarrow> addr \<Rightarrow> addr \<Rightarrow> nat \<Rightarrow> nat \<Rightarrow> nat \<Rightarrow>
   categorizer \<times> edge_acc \<Rightarrow> error + (categorizer \<times> edge_acc)" where
  "pid_edge h cm pin_map sc cr this_pin_id pin_id pin2_id st =
     bind_err (this_pin_from_other_pin cm pin2_id) (\<lambda>this_pin2_id.
       if this_pin2_id = this_pin_id then Inr st
       else
         (let (cat, ccat) = cat_for_subcircuit h sc (fst st);
              ed = subcircuit_Transition sc cat pin_id (normalize_pin_id pin_map cr pin2_id);
              net2 = sc_net_for_pin (h_subcircuit h sc) this_pin2_id
          in Inr (ccat, add_transition net2 ed (snd st))))"

text \<open>One round of the loop over the subcircuit pins attached to the net.\<close>

definition subcircuit_pin_edges ::
  "heap \<Rightarrow> (addr \<rightharpoonup> CircuitMapper) \<Rightarrow> CircuitPinMapper \<Rightarrow> addr \<times> nat \<Rightarrow>
   categorizer \<times> edge_acc \<Rightarrow> error + (categorizer \<times> edge_acc)" where
  "subcircuit_pin_edges h circuit_map pin_map i st =
     (let sc = fst i; pin_id = snd i in
      case sc_circuit_ref (h_subcircuit h sc) of
        None \<Rightarrow> Inl NullPointer
      | Some cr \<Rightarrow>
          (let this_pin_id = pin_id in
           if c_net_for_pin (h_circuit h cr) pin_id = None then
             (let (cat, ccat) = cat_for_subcircuit h sc (fst st);
                  ed = subcircuit_Transition sc cat pin_id pin_id
              in Inr (ccat, add_transition None ed (snd st)))
           else
             (case circuit_map cr of
                None \<Rightarrow> Inr st
              | Some cm \<Rightarrow>
                  if \<not> has_other_pin_for_this_pin cm pin_id then Inr st
                  else
                    (case mp_other cm of
                       None \<Rightarrow> Inl NullPointer
                     | Some cr' \<Rightarrow>
                         bind_err (other_pin_from_this_pin cm pin_id) (\<lambda>other_pin.
                           (let pin_id' = normalize_pin_id pin_map cr' other_pin;
                                pin_count = length (c_pins (h_circuit h cr'))
                            in if pin_count = 0 then Inl DivisionByZero
                               else
                                 fold_err
                                   (pid_edge h cm pin_map sc cr' this_pin_id pin_id')
                                   (collect_pids cm pin_map cr' pin_id' pin_count 0 5 [pin_id'])
                                   st))))))"

definition translate_terminal_id :: "heap \<Rightarrow> nat \<Rightarrow> addr \<Rightarrow> nat" where
  "translate_terminal_id h tid device =
     (case dev_device_class (h_device h device) of
        Some c \<Rightarrow> dc_normalize_terminal_id (h_device_class h c) tid
      | None \<Rightarrow> tid)"

text \<open>One round of the loop over the device terminals attached to the net.\<close>

definition terminal_edges ::
  "heap \<Rightarrow> DeviceFilter \<Rightarrow> addr \<times> nat \<Rightarrow> categorizer \<times> edge_acc \<Rightarrow>
   error + (categorizer \<times> edge_acc)" where
  "terminal_edges h device_filter i st =
     (let d = fst i; tid = snd i in
      if \<not> filter_device h device_filter d then Inr st
      else
        (let (device_cat, dcat) = cat_for_device h d (fst st);
             terminal1_id = translate_terminal_id h tid d
         in case dev_device_class (h_device h d) of
              None \<Rightarrow> Inl NullPointer
            | Some c \<Rightarrow>
                Inr (dcat,
                  fold (\<lambda>it acc.
                          if it \<noteq> tid then
                            add_transition (dev_net_for_terminal (h_device h d) it)
                              (device_Transition d device_cat terminal1_id
                                 (translate_terminal_id h it d)) acc
                          else acc)
                    (dc_terminal_definitions (h_device_class h c)) (snd st))))"

text \<open>
  The constructor: the node of a net (none for the dummy node), with the two categorizers
  before and after, as it asks both for categories.
\<close>

definition new_NetGraphNode ::
  "heap \<Rightarrow> addr option \<Rightarrow> categorizer \<Rightarrow> categorizer \<Rightarrow> DeviceFilter \<Rightarrow>
   (addr \<rightharpoonup> CircuitMapper) \<Rightarrow> CircuitPinMapper \<Rightarrow>
   error + (NetGraphNode \<times> categorizer \<times> categorizer)" where
  "new_NetGraphNode h net device_categorizer circuit_categorizer device_filter circuit_map pin_map =
     (case net of
        None \<Rightarrow>
          Inr (\<lparr> mp_net = None, m_other_net_index = size_max, m_edges = [] \<rparr>,
               device_categorizer, circuit_categorizer)
      | Some n \<Rightarrow>
          bind_err
            (fold_err (subcircuit_pin_edges h circuit_map pin_map)
               (net_subcircuit_pins (h_net h n)) (circuit_categorizer, (Map.empty, [])))
            (\<lambda>(ccat, acc).
               bind_err
                 (fold_err (terminal_edges h device_filter)
                    (net_terminals (h_net h n)) (device_categorizer, acc))
                 (\<lambda>(dcat, acc').
                    Inr (\<lparr> mp_net = Some n, m_other_net_index = size_max, m_edges = snd acc' \<rparr>,
                         dcat, ccat))))"

text \<open>
  Two subcircuits for the node constructor: subcircuit 1 calls circuit 10, which has the
  one pin 0, attached to its net 100; subcircuit 2 calls circuit 11, an abstract with the
  two pins 0 and 1 and no nets.
\<close>

definition callee_example_heap :: heap where
  "callee_example_heap =
     \<lparr> h_circuit = (\<lambda>c. if c = 10
                         then \<lparr> c_name = ''VIA'', c_pins = [\<lparr> p_id = 0, p_name = ''A'' \<rparr>],
                                c_nets = [100], c_devices = [], c_subcircuits = [],
                                c_net_for_pin = (\<lambda>p. if p = 0 then Some 100 else None) \<rparr>
                         else \<lparr> c_name = ''ABSTRACT'',
                                c_pins = [\<lparr> p_id = 0, p_name = ''A'' \<rparr>, \<lparr> p_id = 1, p_name = ''B'' \<rparr>],
                                c_nets = [], c_devices = [], c_subcircuits = [],
                                c_net_for_pin = (\<lambda>_. None) \<rparr>),
       h_net = (\<lambda>_. \<lparr> net_pins = [], net_terminals = [], net_subcircuit_pins = [],
                        net_is_floating = True, net_circuit = None \<rparr>),
       h_device = (\<lambda>_. \<lparr> dev_device_class = None, dev_parameter_value = (\<lambda>_. Fin 0),
                           dev_net_for_terminal = (\<lambda>_. None) \<rparr>),
       h_subcircuit = (\<lambda>s. \<lparr> sc_circuit_ref = (if s = 1 then Some 10 else Some 11),
                               sc_net_for_pin = (\<lambda>_. None) \<rparr>),
       h_device_class = (\<lambda>_. \<lparr> dc_name = [], dc_kind = OtherClass,
                                 dc_terminal_definitions = [],
                                 dc_normalize_terminal_id = (\<lambda>t. t) \<rparr>),
       h_device_less = (\<lambda>_ _. False),
       h_device_equal = (\<lambda>_ _. True) \<rparr>"

text \<open>The members of a node the comparison uses.\<close>

definition has_other :: "NetGraphNode \<Rightarrow> bool" where
  "has_other n = (m_other_net_index n \<noteq> size_max)"

definition set_other_net :: "nat \<Rightarrow> NetGraphNode \<Rightarrow> NetGraphNode" where
  "set_other_net index n = n\<lparr> m_other_net_index := index \<rparr>"

definition unset_other_net :: "NetGraphNode \<Rightarrow> NetGraphNode" where
  "unset_other_net n = n\<lparr> m_other_net_index := size_max \<rparr>"

definition node_empty :: "NetGraphNode \<Rightarrow> bool" where
  "node_empty n = (m_edges n = [])"

text \<open>\<open>operator<\<close> on two strings and on two pointers (the null pointer first).\<close>

definition string_less :: "string \<Rightarrow> string \<Rightarrow> bool" where
  "string_less a b = lex_less (\<lambda>x y. (of_char x :: nat) < of_char y) a b"

definition ptr_less :: "addr option \<Rightarrow> addr option \<Rightarrow> bool" where
  "ptr_less a b =
     (case (a, b) of
        (None, Some _) \<Rightarrow> True
      | (Some x, Some y) \<Rightarrow> x < y
      | _ \<Rightarrow> False)"

text \<open>\<open>edge_less\<close> and \<open>edge_equal\<close>: two nets by the number of their pins and the name of the first one.\<close>

definition edge_less :: "heap \<Rightarrow> addr option \<Rightarrow> addr option \<Rightarrow> bool" where
  "edge_less h a b =
     (if (a \<noteq> None) \<noteq> (b \<noteq> None) then (a \<noteq> None) < (b \<noteq> None)
      else case (a, b) of
        (Some x, Some y) \<Rightarrow>
          (let pa = net_pins (h_net h x); pb = net_pins (h_net h y) in
           if length pa \<noteq> length pb then length pa < length pb
           else case (pa, pb) of
                  (p # _, q # _) \<Rightarrow>
                    if p_name p \<noteq> [] \<and> p_name q \<noteq> [] then string_less (p_name p) (p_name q)
                    else False
                | _ \<Rightarrow> False)
      | _ \<Rightarrow> False)"

definition edge_equal :: "heap \<Rightarrow> addr option \<Rightarrow> addr option \<Rightarrow> bool" where
  "edge_equal h a b =
     (if (a \<noteq> None) \<noteq> (b \<noteq> None) then False
      else case (a, b) of
        (Some x, Some y) \<Rightarrow>
          (let pa = net_pins (h_net h x); pb = net_pins (h_net h y) in
           if length pa \<noteq> length pb then False
           else case (pa, pb) of
                  (p # _, q # _) \<Rightarrow>
                    if p_name p \<noteq> [] \<and> p_name q \<noteq> [] then p_name p = p_name q
                    else True
                | _ \<Rightarrow> True)
      | _ \<Rightarrow> True)"

text \<open>
  The loop both node comparisons start with: the first position where the transitions of
  the two nodes differ decides; \<open>None\<close> when there is no such position.
\<close>

fun first_difference :: "heap \<Rightarrow> edge list \<Rightarrow> edge list \<Rightarrow> (Transition list \<times> Transition list) option" where
  "first_difference h (a # as) (b # bs) =
     (if \<not> transitions_equal h (fst a) (fst b) then Some (fst a, fst b)
      else first_difference h as bs)"
| "first_difference h _ _ = None"

definition node_less :: "heap \<Rightarrow> NetGraphNode \<Rightarrow> NetGraphNode \<Rightarrow> bool" where
  "node_less h n node =
     (if length (m_edges n) \<noteq> length (m_edges node) then length (m_edges n) < length (m_edges node)
      else case first_difference h (m_edges n) (m_edges node) of
             Some (a, b) \<Rightarrow> transitions_less h a b
           | None \<Rightarrow> if m_edges n = [] then edge_less h (mp_net n) (mp_net node) else False)"

definition node_equal :: "heap \<Rightarrow> NetGraphNode \<Rightarrow> NetGraphNode \<Rightarrow> bool" where
  "node_equal h n node =
     (if length (m_edges n) \<noteq> length (m_edges node) then False
      else case first_difference h (m_edges n) (m_edges node) of
             Some (a, b) \<Rightarrow> False
           | None \<Rightarrow> if m_edges n = [] then edge_equal h (mp_net n) (mp_net node) else True)"

text \<open>\<open>operator<\<close> on two edges: the pairs of the standard library, component by component.\<close>

definition far_less :: "nat \<times> addr option \<Rightarrow> nat \<times> addr option \<Rightarrow> bool" where
  "far_less a b = (fst a < fst b \<or> (\<not> fst b < fst a \<and> ptr_less (snd a) (snd b)))"

definition edge_pair_less :: "heap \<Rightarrow> edge \<Rightarrow> edge \<Rightarrow> bool" where
  "edge_pair_less h a b =
     (transitions_less h (fst a) (fst b) \<or>
      (\<not> transitions_less h (fst b) (fst a) \<and> far_less (snd a) (snd b)))"

text \<open>
  \<open>apply_net_index\<close>: every edge gets the index of its far net (which must have one), the
  transitions of every edge are sorted, and then the edges.
\<close>

definition apply_net_index :: "heap \<Rightarrow> (addr option \<rightharpoonup> nat) \<Rightarrow> NetGraphNode \<Rightarrow> error + NetGraphNode" where
  "apply_net_index h ni n =
     bind_err
       (fold_err (\<lambda>e es. case ni (snd (snd e)) of
                            None \<Rightarrow> Inl AssertionFailed
                          | Some j \<Rightarrow> Inr (es @ [(fst e, (j, snd (snd e)))]))
          (m_edges n) [])
       (\<lambda>es. Inr (n\<lparr> m_edges :=
                       sort_by (edge_pair_less h)
                         (map (\<lambda>e. (sort_by (transition_less h) (fst e), snd e)) es) \<rparr>))"

text \<open>
  \<open>find_edge\<close>: \<open>std::lower_bound\<close> gives the first edge whose transitions are not less than
  the ones looked for; the result is the position of that edge if its transitions are the
  ones looked for, and \<open>None\<close> for \<open>end ()\<close>.
\<close>

fun lower_bound :: "heap \<Rightarrow> edge list \<Rightarrow> Transition list \<Rightarrow> nat \<Rightarrow> nat" where
  "lower_bound h [] edge i = i"
| "lower_bound h (e # es) edge i =
     (if transitions_less h (fst e) edge then lower_bound h es edge (Suc i) else i)"

definition find_edge :: "heap \<Rightarrow> NetGraphNode \<Rightarrow> Transition list \<Rightarrow> nat option" where
  "find_edge h n edge =
     (let res = lower_bound h (m_edges n) edge 0 in
      if res = length (m_edges n) \<or> \<not> transitions_equal h (fst (m_edges n ! res)) edge
      then None else Some res)"

section \<open>Net graph\<close>

record NetGraph =
  m_nodes :: "NetGraphNode list"
  m_net_index :: "addr option \<rightharpoonup> nat"
  mp_circuit :: "addr option"

definition new_NetGraph :: NetGraph where
  "new_NetGraph = \<lparr> m_nodes = [], m_net_index = Map.empty, mp_circuit = None \<rparr>"

definition node_index_for_net :: "NetGraph \<Rightarrow> addr option \<Rightarrow> error + nat" where
  "node_index_for_net g net =
     (case m_net_index g net of None \<Rightarrow> Inl AssertionFailed | Some j \<Rightarrow> Inr j)"

definition node :: "NetGraph \<Rightarrow> nat \<Rightarrow> NetGraphNode" where
  "node g net_index = m_nodes g ! net_index"

definition identify :: "nat \<Rightarrow> nat \<Rightarrow> NetGraph \<Rightarrow> NetGraph" where
  "identify net_index other_net_index g =
     g\<lparr> m_nodes := (m_nodes g)[net_index := set_other_net other_net_index (m_nodes g ! net_index)] \<rparr>"

definition unidentify :: "nat \<Rightarrow> NetGraph \<Rightarrow> NetGraph" where
  "unidentify net_index g =
     g\<lparr> m_nodes := (m_nodes g)[net_index := unset_other_net (m_nodes g ! net_index)] \<rparr>"

text \<open>
  The loop of \<open>build\<close> over the nets of the circuit: the node of a net is kept if it has an
  edge or the net has a pin.
\<close>

definition build_node ::
  "heap \<Rightarrow> DeviceFilter \<Rightarrow> (addr \<rightharpoonup> CircuitMapper) \<Rightarrow> CircuitPinMapper \<Rightarrow> addr \<Rightarrow>
   NetGraphNode list \<times> categorizer \<times> categorizer \<Rightarrow>
   error + (NetGraphNode list \<times> categorizer \<times> categorizer)" where
  "build_node h device_filter circuit_map pin_map n st =
     (case st of (nodes, dcat, ccat) \<Rightarrow>
        bind_err (new_NetGraphNode h (Some n) dcat ccat device_filter circuit_map pin_map)
          (\<lambda>(nd, dcat', ccat').
             Inr (if \<not> node_empty nd \<or> length (net_pins (h_net h n)) > 0 then nodes @ [nd] else nodes,
                  dcat', ccat')))"

text \<open>The net index: every node's net with the position of the node, first entry kept.\<close>

fun index_nets :: "NetGraphNode list \<Rightarrow> nat \<Rightarrow> (addr option \<rightharpoonup> nat) \<Rightarrow> (addr option \<rightharpoonup> nat)" where
  "index_nets [] i m = m"
| "index_nets (n # ns) i m = index_nets ns (Suc i) (pmap_insert (mp_net n) i m)"

definition build ::
  "heap \<Rightarrow> addr \<Rightarrow> categorizer \<Rightarrow> categorizer \<Rightarrow> DeviceFilter \<Rightarrow>
   (addr \<rightharpoonup> CircuitMapper) \<Rightarrow> CircuitPinMapper \<Rightarrow>
   error + (NetGraph \<times> categorizer \<times> categorizer)" where
  "build h c device_categorizer circuit_categorizer device_filter circuit_and_pin_mapping
     circuit_pin_mapper =
     bind_err
       (new_NetGraphNode h None device_categorizer circuit_categorizer device_filter
          circuit_and_pin_mapping circuit_pin_mapper)
       (\<lambda>(dummy, dcat0, ccat0).
          bind_err
            (fold_err (build_node h device_filter circuit_and_pin_mapping circuit_pin_mapper)
               (c_nets (h_circuit h c)) ([dummy], dcat0, ccat0))
            (\<lambda>(nodes, dcat, ccat).
               (let sorted = sort_by (node_less h) nodes;
                    net_index = index_nets sorted 0 Map.empty
                in bind_err
                     (fold_err (\<lambda>n ns. bind_err (apply_net_index h net_index n)
                                          (\<lambda>n'. Inr (ns @ [n'])))
                        sorted [])
                     (\<lambda>nodes'. Inr (\<lparr> m_nodes = nodes', m_net_index = net_index,
                                        mp_circuit = Some c \<rparr>, dcat, ccat)))))"

section \<open>Events\<close>

text \<open>
  The calls the comparer makes on its logger, in the order it makes them. Nets, devices,
  subcircuits, circuits and device classes are given by pointer, pins as the pin objects.
\<close>

datatype event =
    BeginNetlist
  | EndNetlist
  | DeviceClassMismatch "addr option" "addr option"
  | CircuitMismatch "addr option" "addr option"
  | BeginCircuit addr addr
  | EndCircuit addr addr bool
  | CircuitSkipped addr addr
  | MatchNets "addr option" "addr option"
  | MatchAmbiguousNets "addr option" "addr option"
  | NetMismatch "addr option" "addr option"
  | MatchPins "Pin option" "Pin option"
  | PinMismatch "Pin option" "Pin option"
  | MatchDevices "addr option" "addr option"
  | MatchDevicesWithDifferentParameters "addr option" "addr option"
  | MatchDevicesWithDifferentDeviceClasses "addr option" "addr option"
  | DeviceMismatch "addr option" "addr option"
  | MatchSubcircuits "addr option" "addr option"
  | SubcircuitMismatch "addr option" "addr option"

section \<open>The backtracking engine\<close>

text \<open>
  The engine works on the two graphs (\<open>this\<close> and \<open>other\<close>) and writes to the logger. Its
  node vectors hold pointers to nodes, through which it reads the partner of a node as it
  is at that moment; here a pointer to a node is the position of the node in its graph.
\<close>

record engine_state =
  st_this :: NetGraph
  st_other :: NetGraph
  st_log :: "event list"

text \<open>\<open>size_t\<close> arithmetic.\<close>

definition size_add :: "nat \<Rightarrow> nat \<Rightarrow> nat" where
  "size_add a b = (a + b) mod 2 ^ 64"

definition size_mul :: "nat \<Rightarrow> nat \<Rightarrow> nat" where
  "size_mul a b = (a * b) mod 2 ^ 64"

text \<open>
  \<open>TentativeNodeMapping\<close>: the list \<open>m_to_undo\<close>; its two graphs are the ones of the state. A
  null \<open>tentative\<close> pointer is \<open>None\<close>. \<open>undo\<close> is the destructor.
\<close>

type_synonym TentativeNodeMapping = "(nat \<times> nat) list"

definition keep :: "nat \<Rightarrow> nat \<Rightarrow> TentativeNodeMapping \<Rightarrow> TentativeNodeMapping" where
  "keep n1 n2 tn = tn @ [(n1, n2)]"

definition map_pair ::
  "TentativeNodeMapping option \<Rightarrow> nat \<Rightarrow> nat \<Rightarrow> engine_state \<Rightarrow>
   TentativeNodeMapping option \<times> engine_state" where
  "map_pair nm n1 n2 st =
     (map_option (keep n1 n2) nm,
      st\<lparr> st_this := identify n1 n2 (st_this st), st_other := identify n2 n1 (st_other st) \<rparr>)"

definition undo :: "TentativeNodeMapping \<Rightarrow> engine_state \<Rightarrow> engine_state" where
  "undo tn st =
     fold (\<lambda>i s. s\<lparr> st_this := unidentify (fst i) (st_this s),
                    st_other := unidentify (snd i) (st_other s) \<rparr>) tn st"

text \<open>
  What a call of the engine gives back: the number of new pairs (\<open>size_max\<close> when no decision
  was made) or the error that ended it, with the audit object and the state it leaves.
\<close>

type_synonym engine_result = "(error + nat) \<times> TentativeNodeMapping option \<times> engine_state"

type_synonym derive_fn =
  "nat \<Rightarrow> nat \<Rightarrow> TentativeNodeMapping option \<Rightarrow> bool \<Rightarrow> engine_state \<Rightarrow> engine_result"

type_synonym from_set_fn =
  "nat list \<Rightarrow> nat list \<Rightarrow> nat \<Rightarrow> TentativeNodeMapping option \<Rightarrow> bool \<Rightarrow> engine_state \<Rightarrow>
   engine_result"

subsection \<open>Deriving from a pair of nodes\<close>

text \<open>
  The edges of a node in runs: an edge with the edges behind it whose transitions equal
  its own (\<open>ee->first == e->first\<close>).
\<close>

function edge_runs :: "heap \<Rightarrow> edge list \<Rightarrow> edge list list" where
  "edge_runs h [] = []"
| "edge_runs h (e # es) =
     (e # takeWhile (\<lambda>ee. transitions_equal h (fst ee) (fst e)) es) #
     edge_runs h (dropWhile (\<lambda>ee. transitions_equal h (fst ee) (fst e)) es)"
  by pat_completeness auto
termination
  by (relation "measure (\<lambda>(h, es). length es)") (auto simp: length_dropWhile_le le_imp_less_Suc)

text \<open>
  The far nodes on the other side for the run that starts with \<open>e\<close>: the run of \<open>nother\<close>
  found for the transitions of \<open>e\<close>. The loop that collects them tests \<open>count_other < 2\<close>, and
  \<open>count_other\<close> is 0 throughout.
\<close>

fun collect_while_count :: "edge list \<Rightarrow> nat \<Rightarrow> nat list" where
  "collect_while_count [] count_other = []"
| "collect_while_count (i # is) count_other =
     (if count_other < 2 then fst (snd i) # collect_while_count is count_other else [])"

definition collect_other_nodes :: "heap \<Rightarrow> NetGraphNode \<Rightarrow> edge \<Rightarrow> nat list" where
  "collect_other_nodes h nother e =
     (case find_edge h nother (fst e) of
        None \<Rightarrow> []
      | Some k \<Rightarrow>
          (let e_other = m_edges nother ! k;
               run = e_other # takeWhile (\<lambda>ee. transitions_equal h (fst ee) (fst e_other))
                                 (drop (Suc k) (m_edges nother))
           in collect_while_count run 0))"

text \<open>Sorting a node vector with \<open>CompareNodePtr\<close>.\<close>

definition sort_nodes :: "heap \<Rightarrow> NetGraph \<Rightarrow> nat list \<Rightarrow> nat list" where
  "sort_nodes h g ns = sort_by (\<lambda>a b. node_less h (node g a) (node g b)) ns"

text \<open>
  In tentative mode the two node sets must match exactly: the same size and, unless it is
  one node against one, equal nodes position by position.
\<close>

definition exact_match :: "heap \<Rightarrow> engine_state \<Rightarrow> nat list \<Rightarrow> nat list \<Rightarrow> bool" where
  "exact_match h st nodes other_nodes =
     (length nodes = length other_nodes \<and>
      (if length nodes > 1 \<or> length other_nodes > 1
       then list_all2 (\<lambda>a b. node_equal h (node (st_this st) a) (node (st_other st) b))
              nodes other_nodes
       else True))"

text \<open>
  The loop of \<open>derive_node_identities\<close> over the runs of the node \<open>n\<close>, with \<open>nother\<close> the
  node it was paired with when the call began; \<open>from_set\<close> stands for
  \<open>derive_node_identities_from_node_set\<close> at the same depth.
\<close>

fun derive_runs ::
  "from_set_fn \<Rightarrow> heap \<Rightarrow> NetGraphNode \<Rightarrow> nat \<Rightarrow> bool \<Rightarrow> edge list list \<Rightarrow> nat \<Rightarrow>
   TentativeNodeMapping option \<Rightarrow> engine_state \<Rightarrow> engine_result" where
  "derive_runs from_set h nother n_branch with_ambiguous [] new_nodes tentative st =
     (Inr new_nodes, tentative, st)"
| "derive_runs from_set h nother n_branch with_ambiguous (r # rs) new_nodes tentative st =
     (let nodes = sort_nodes h (st_this st) (map (\<lambda>i. fst (snd i)) r);
          other_nodes = sort_nodes h (st_other st) (collect_other_nodes h nother (hd r))
      in if tentative \<noteq> None \<and> \<not> exact_match h st nodes other_nodes
         then (Inr size_max, tentative, st)
         else
           (case from_set nodes other_nodes n_branch tentative with_ambiguous st of
              (Inl e, tentative', st') \<Rightarrow> (Inl e, tentative', st')
            | (Inr bt_count, tentative', st') \<Rightarrow>
                if bt_count = size_max then
                  (if tentative \<noteq> None then (Inr bt_count, tentative', st')
                   else derive_runs from_set h nother n_branch with_ambiguous rs
                          new_nodes tentative' st')
                else derive_runs from_set h nother n_branch with_ambiguous rs
                       (size_add new_nodes bt_count) tentative' st'))"

definition derive_body ::
  "from_set_fn \<Rightarrow> heap \<Rightarrow> nat \<Rightarrow> nat \<Rightarrow> TentativeNodeMapping option \<Rightarrow> bool \<Rightarrow>
   engine_state \<Rightarrow> engine_result" where
  "derive_body from_set h net_index n_branch tentative with_ambiguous st =
     (let n = node (st_this st) net_index;
          nother = node (st_other st) (m_other_net_index n)
      in derive_runs from_set h nother n_branch with_ambiguous (edge_runs h (m_edges n)) 0
           tentative st)"

subsection \<open>Deriving from two node sets\<close>

text \<open>
  What the two places that pair a single candidate share: the indexes of the two nodes by
  their nets, the pairing, the event when not in tentative mode, and the descent from the
  new pair. \<open>derive\<close> stands for \<open>derive_node_identities\<close> one level deeper.
\<close>

definition pair_and_derive ::
  "derive_fn \<Rightarrow> heap \<Rightarrow> bool \<Rightarrow> nat \<Rightarrow> bool \<Rightarrow> nat \<Rightarrow> nat \<Rightarrow>
   TentativeNodeMapping option \<Rightarrow> engine_state \<Rightarrow> engine_result" where
  "pair_and_derive derive h logger n_branch with_ambiguous n1 n2 tentative st =
     (case node_index_for_net (st_this st) (mp_net (node (st_this st) n1)) of
        Inl e \<Rightarrow> (Inl e, tentative, st)
      | Inr ni \<Rightarrow>
          (case node_index_for_net (st_other st) (mp_net (node (st_other st) n2)) of
             Inl e \<Rightarrow> (Inl e, tentative, st)
           | Inr other_ni \<Rightarrow>
               (let (tentative1, st1) = map_pair tentative ni other_ni st;
                    st2 = (if logger \<and> tentative = None then
                             st1\<lparr> st_log := st_log st1 @
                                   [if \<not> node_equal h (node (st_this st1) ni)
                                            (node (st_other st1) other_ni)
                                    then NetMismatch (mp_net (node (st_this st) n1))
                                           (mp_net (node (st_other st) n2))
                                    else MatchNets (mp_net (node (st_this st) n1))
                                           (mp_net (node (st_other st) n2))] \<rparr>
                           else st1)
                in derive ni n_branch tentative1 with_ambiguous st2)))"

text \<open>
  A range of nodes with the same identity on both sides: the number of candidate pairs and
  the two intervals of the node vectors.
\<close>

type_synonym NodeRange = "nat \<times> nat list \<times> nat list"

text \<open>
  The inner loop that extends a range from its first pair \<open>(a, b)\<close>: nodes with a partner
  are stepped over; the range ends at the first pair that does not equal the first one.
  The result is the count, the two intervals and what is left of the two vectors.
\<close>

fun extend_range ::
  "heap \<Rightarrow> engine_state \<Rightarrow> nat \<Rightarrow> nat \<Rightarrow> nat list \<Rightarrow> nat list \<Rightarrow> nat \<Rightarrow> nat list \<Rightarrow> nat list \<Rightarrow>
   nat \<times> nat list \<times> nat list \<times> nat list \<times> nat list" where
  "extend_range h st a b [] ys num r1 r2 = (num, r1, [], r2, ys)"
| "extend_range h st a b (x # xs) [] num r1 r2 = (num, r1, x # xs, r2, [])"
| "extend_range h st a b (x # xs) (y # ys) num r1 r2 =
     (if has_other (node (st_this st) x) then extend_range h st a b xs (y # ys) num (r1 @ [x]) r2
      else if has_other (node (st_other st) y) then
        extend_range h st a b (x # xs) ys num r1 (r2 @ [y])
      else if \<not> node_equal h (node (st_this st) x) (node (st_this st) a) \<or>
              \<not> node_equal h (node (st_other st) y) (node (st_other st) b)
      then (num, r1, x # xs, r2, y # ys)
      else extend_range h st a b xs ys (size_add num 1) (r1 @ [x]) (r2 @ [y]))"

lemma extend_range_rest:
  "extend_range h st a b xs ys num r1 r2 = (num', r1', xs', r2', ys') \<Longrightarrow>
   length xs' \<le> length xs \<and> length ys' \<le> length ys"
  by (induction h st a b xs ys num r1 r2 rule: extend_range.induct)
    (auto split: if_splits)

text \<open>
  The loop that determines the ranges. \<open>None\<close> is the early return of \<open>size_max\<close>: in
  tentative mode an ambiguous range makes no match unless ambiguous matches are allowed.
\<close>

function collect_ranges ::
  "heap \<Rightarrow> engine_state \<Rightarrow> bool \<Rightarrow> bool \<Rightarrow> nat list \<Rightarrow> nat list \<Rightarrow> NodeRange list option" where
  "collect_ranges h st tentative with_ambiguous [] ys = Some []"
| "collect_ranges h st tentative with_ambiguous (x # xs) [] = Some []"
| "collect_ranges h st tentative with_ambiguous (x # xs) (y # ys) =
     (if has_other (node (st_this st) x) then
        collect_ranges h st tentative with_ambiguous xs (y # ys)
      else if has_other (node (st_other st) y) then
        collect_ranges h st tentative with_ambiguous (x # xs) ys
      else if node_less h (node (st_this st) x) (node (st_other st) y) then
        collect_ranges h st tentative with_ambiguous xs (y # ys)
      else if node_less h (node (st_other st) y) (node (st_this st) x) then
        collect_ranges h st tentative with_ambiguous (x # xs) ys
      else
        (case extend_range h st x y xs ys 1 [x] [y] of
           (num, r1, xs', r2, ys') \<Rightarrow>
             if num > 1 \<and> tentative \<and> \<not> with_ambiguous then None
             else
               (case collect_ranges h st tentative with_ambiguous xs' ys' of
                  None \<Rightarrow> None
                | Some nrs \<Rightarrow>
                    Some ((if num = 1 \<or> with_ambiguous then [(num, r1, r2)] else []) @ nrs))))"
  by pat_completeness auto
termination
  apply (relation "measure (\<lambda>(h, st, t, w, xs, ys). length xs + length ys)")
    apply simp_all
  apply (auto dest!: extend_range_rest [OF sym])
  done

text \<open>
  The two loops a range goes through before it is used, as the partners of its nodes may
  have changed: stepping over the leading nodes that have a partner, and counting the
  candidate pairs that are left.
\<close>

fun skip_leading :: "engine_state \<Rightarrow> nat list \<Rightarrow> nat list \<Rightarrow> nat list \<times> nat list" where
  "skip_leading st (x # xs) (y # ys) =
     (if has_other (node (st_this st) x) then skip_leading st xs (y # ys)
      else if has_other (node (st_other st) y) then skip_leading st (x # xs) ys
      else (x # xs, y # ys))"
| "skip_leading st xs ys = (xs, ys)"

fun count_pairs :: "engine_state \<Rightarrow> nat list \<Rightarrow> nat list \<Rightarrow> nat \<Rightarrow> nat" where
  "count_pairs st (x # xs) (y # ys) num =
     (if has_other (node (st_this st) x) then count_pairs st xs (y # ys) num
      else if has_other (node (st_other st) y) then count_pairs st (x # xs) ys num
      else count_pairs st xs ys (size_add num 1))"
| "count_pairs st xs ys num = num"

text \<open>
  What the analysis of an ambiguity group keeps: whether the current node found a
  partner, \<open>new_nodes\<close>, the pairs found, the other-side nodes marked as equivalent, and the
  other-side nodes that are taken.
\<close>

type_synonym group_acc =
  "bool \<times> nat \<times> (nat \<times> nat) list \<times> nat equivalence_clusters \<times> nat list"

text \<open>
  One candidate pair tried in tentative mode: the scope of the audit object \<open>tn\<close>. The pair
  is made and recorded in \<open>tn\<close>, the search goes on from it with \<open>tn\<close> as the audit object,
  and at the end of the scope \<open>tn\<close> is destroyed, whatever the search came back with.
\<close>

definition try_pair ::
  "derive_fn \<Rightarrow> nat \<Rightarrow> bool \<Rightarrow> nat \<Rightarrow> nat \<Rightarrow> engine_state \<Rightarrow> (error + nat) \<times> engine_state" where
  "try_pair derive n_branch with_ambiguous ni other_ni st =
     (let (tn1, st1) = map_pair (Some []) ni other_ni st in
      case derive ni n_branch tn1 with_ambiguous st1 of
        (r, tn2, st2) \<Rightarrow> (r, undo (case tn2 of Some tn \<Rightarrow> tn | None \<Rightarrow> []) st2))"

text \<open>
  The inner loop of the analysis: the node \<open>i1\<close> against every candidate \<open>i2\<close> of the range
  that has no partner and is not taken.
\<close>

fun try_candidates ::
  "derive_fn \<Rightarrow> nat \<Rightarrow> bool \<Rightarrow> nat \<Rightarrow> nat list \<Rightarrow> group_acc \<Rightarrow> engine_state \<Rightarrow>
   (error + group_acc) \<times> engine_state" where
  "try_candidates derive n_branch with_ambiguous i1 [] acc st = (Inr acc, st)"
| "try_candidates derive n_branch with_ambiguous i1 (i2 # rest) acc st =
     (case acc of (any, new_nodes, pairs, equivalent_other_nodes, seen) \<Rightarrow>
        if has_other (node (st_other st) i2) then
          try_candidates derive n_branch with_ambiguous i1 rest acc st
        else if i2 \<in> set seen then
          try_candidates derive n_branch with_ambiguous i1 rest acc st
        else
          (case node_index_for_net (st_this st) (mp_net (node (st_this st) i1)) of
             Inl e \<Rightarrow> (Inl e, st)
           | Inr ni \<Rightarrow>
               (case node_index_for_net (st_other st) (mp_net (node (st_other st) i2)) of
                  Inl e \<Rightarrow> (Inl e, st)
                | Inr other_ni \<Rightarrow>
                    (case try_pair derive n_branch with_ambiguous ni other_ni st of
                       (Inl e, st3) \<Rightarrow> (Inl e, st3)
                     | (Inr bt_count, st3) \<Rightarrow>
                         if bt_count \<noteq> size_max then
                           (if any then
                              try_candidates derive n_branch with_ambiguous i1 rest
                                (any, new_nodes, pairs,
                                 same i2 (snd (last pairs)) equivalent_other_nodes, seen) st3
                            else
                              try_candidates derive n_branch with_ambiguous i1 rest
                                (True, size_add new_nodes (size_add bt_count 1),
                                 pairs @ [(i1, i2)], equivalent_other_nodes, i2 # seen) st3)
                         else try_candidates derive n_branch with_ambiguous i1 rest acc st3))))"

text \<open>
  The outer loop of the analysis, over the nodes \<open>i1\<close> of the range. \<open>None\<close> is the early
  return of \<open>size_max\<close>: in tentative mode a node without any partner is a mismatch.
\<close>

fun scan_group ::
  "derive_fn \<Rightarrow> nat \<Rightarrow> bool \<Rightarrow> bool \<Rightarrow> nat list \<Rightarrow> nat list \<Rightarrow> group_acc \<Rightarrow> engine_state \<Rightarrow>
   (error + group_acc option) \<times> engine_state" where
  "scan_group derive n_branch with_ambiguous tentative [] r2 acc st = (Inr (Some acc), st)"
| "scan_group derive n_branch with_ambiguous tentative (i1 # rest) r2 acc st =
     (if has_other (node (st_this st) i1) then
        scan_group derive n_branch with_ambiguous tentative rest r2 acc st
      else
        (case acc of (any0, new_nodes, pairs, equivalent_other_nodes, seen) \<Rightarrow>
           case try_candidates derive n_branch with_ambiguous i1 r2
                  (False, new_nodes, pairs, equivalent_other_nodes, seen) st of
             (Inl e, st') \<Rightarrow> (Inl e, st')
           | (Inr acc', st') \<Rightarrow>
               if \<not> fst acc' \<and> tentative then (Inr None, st')
               else scan_group derive n_branch with_ambiguous tentative rest r2 acc' st'))"

text \<open>
  After the analysis the pairs are made. Not in tentative mode they are issued to the
  logger, each as an ambiguous match if its other-side node was marked, and the search
  goes on from each of them, where it must not come back without a decision. In tentative
  mode they are recorded in the audit object.
\<close>

fun issue_pairs ::
  "bool \<Rightarrow> nat equivalence_clusters \<Rightarrow> (nat \<times> nat) list \<Rightarrow> engine_state \<Rightarrow>
   (error + unit) \<times> engine_state" where
  "issue_pairs logger equivalent_other_nodes [] st = (Inr (), st)"
| "issue_pairs logger equivalent_other_nodes (p # ps) st =
     (case node_index_for_net (st_this st) (mp_net (node (st_this st) (fst p))) of
        Inl e \<Rightarrow> (Inl e, st)
      | Inr ni \<Rightarrow>
          (case node_index_for_net (st_other st) (mp_net (node (st_other st) (snd p))) of
             Inl e \<Rightarrow> (Inl e, st)
           | Inr other_ni \<Rightarrow>
               (let st1 = snd (map_pair None ni other_ni st);
                    st2 = (if logger then
                             st1\<lparr> st_log := st_log st1 @
                                   [if has_attribute (snd p) equivalent_other_nodes
                                    then MatchAmbiguousNets (mp_net (node (st_this st) (fst p)))
                                           (mp_net (node (st_other st) (snd p)))
                                    else MatchNets (mp_net (node (st_this st) (fst p)))
                                           (mp_net (node (st_other st) (snd p)))] \<rparr>
                           else st1)
                in issue_pairs logger equivalent_other_nodes ps st2)))"

fun seek_from_pairs ::
  "derive_fn \<Rightarrow> nat \<Rightarrow> bool \<Rightarrow> (nat \<times> nat) list \<Rightarrow> engine_state \<Rightarrow>
   (error + unit) \<times> engine_state" where
  "seek_from_pairs derive n_branch with_ambiguous [] st = (Inr (), st)"
| "seek_from_pairs derive n_branch with_ambiguous (p # ps) st =
     (case node_index_for_net (st_this st) (mp_net (node (st_this st) (fst p))) of
        Inl e \<Rightarrow> (Inl e, st)
      | Inr ni \<Rightarrow>
          (case derive ni n_branch None with_ambiguous st of
             (Inl e, tn', st') \<Rightarrow> (Inl e, st')
           | (Inr bt_count, tn', st') \<Rightarrow>
               if bt_count = size_max then (Inl AssertionFailed, st')
               else seek_from_pairs derive n_branch with_ambiguous ps st'))"

fun record_pairs ::
  "(nat \<times> nat) list \<Rightarrow> TentativeNodeMapping option \<Rightarrow> engine_state \<Rightarrow>
   (error + unit) \<times> TentativeNodeMapping option \<times> engine_state" where
  "record_pairs [] tentative st = (Inr (), tentative, st)"
| "record_pairs (p # ps) tentative st =
     (case node_index_for_net (st_this st) (mp_net (node (st_this st) (fst p))) of
        Inl e \<Rightarrow> (Inl e, tentative, st)
      | Inr ni \<Rightarrow>
          (case node_index_for_net (st_other st) (mp_net (node (st_other st) (snd p))) of
             Inl e \<Rightarrow> (Inl e, tentative, st)
           | Inr other_ni \<Rightarrow>
               (let (tentative', st') = map_pair tentative ni other_ni st
                in record_pairs ps tentative' st')))"

text \<open>
  The analysis of an ambiguity group and what follows it. The result is \<open>new_nodes\<close> after
  the group, or \<open>None\<close> for the early return of \<open>size_max\<close>.
\<close>

definition ambiguity_group ::
  "derive_fn \<Rightarrow> bool \<Rightarrow> nat \<Rightarrow> bool \<Rightarrow> nat list \<Rightarrow> nat list \<Rightarrow> nat \<Rightarrow>
   TentativeNodeMapping option \<Rightarrow> engine_state \<Rightarrow>
   (error + nat option) \<times> TentativeNodeMapping option \<times> engine_state" where
  "ambiguity_group derive logger n_branch with_ambiguous r1 r2 new_nodes tentative st =
     (case scan_group derive n_branch with_ambiguous (tentative \<noteq> None) r1 r2
             (False, new_nodes, [], [], []) st of
        (Inl e, st') \<Rightarrow> (Inl e, tentative, st')
      | (Inr None, st') \<Rightarrow> (Inr None, tentative, st')
      | (Inr (Some (any, new_nodes', pairs, equivalent_other_nodes, seen)), st') \<Rightarrow>
          if tentative = None then
            (case issue_pairs logger equivalent_other_nodes pairs st' of
               (Inl e, st'') \<Rightarrow> (Inl e, tentative, st'')
             | (Inr u, st'') \<Rightarrow>
                 (case seek_from_pairs derive n_branch with_ambiguous pairs st'' of
                    (Inl e, st3) \<Rightarrow> (Inl e, tentative, st3)
                  | (Inr u', st3) \<Rightarrow> (Inr (Some new_nodes'), tentative, st3)))
          else
            (case record_pairs pairs tentative st' of
               (Inl e, tentative', st'') \<Rightarrow> (Inl e, tentative', st'')
             | (Inr u, tentative', st'') \<Rightarrow> (Inr (Some new_nodes'), tentative', st'')))"

text \<open>The loop of \<open>derive_node_identities_from_node_set\<close> over the ranges.\<close>

fun ranges_loop ::
  "derive_fn \<Rightarrow> heap \<Rightarrow> bool \<Rightarrow> nat \<Rightarrow> nat \<Rightarrow> bool \<Rightarrow> NodeRange list \<Rightarrow> nat \<Rightarrow>
   TentativeNodeMapping option \<Rightarrow> engine_state \<Rightarrow> engine_result" where
  "ranges_loop derive h logger max_n_branch n_branch with_ambiguous [] new_nodes tentative st =
     (Inr new_nodes, tentative, st)"
| "ranges_loop derive h logger max_n_branch n_branch with_ambiguous (nr # nrs) new_nodes tentative st =
     (case skip_leading st (fst (snd nr)) (snd (snd nr)) of
        (r1, r2) \<Rightarrow>
          (let num = count_pairs st r1 r2 0 in
           if num < 1 then
             ranges_loop derive h logger max_n_branch n_branch with_ambiguous nrs new_nodes
               tentative st
           else if num = 1 then
             (case (r1, r2) of
                (a # _, b # _) \<Rightarrow>
                  if \<not> has_other (node (st_this st) a) \<and> \<not> has_other (node (st_other st) b) then
                    (case pair_and_derive derive h logger n_branch with_ambiguous a b tentative st of
                       (Inl e, tentative', st') \<Rightarrow> (Inl e, tentative', st')
                     | (Inr bt_count, tentative', st') \<Rightarrow>
                         if bt_count \<noteq> size_max then
                           ranges_loop derive h logger max_n_branch n_branch with_ambiguous nrs
                             (size_add (size_add new_nodes bt_count) 1) tentative' st'
                         else if tentative \<noteq> None then
                           ranges_loop derive h logger max_n_branch n_branch with_ambiguous nrs
                             bt_count tentative' st'
                         else
                           ranges_loop derive h logger max_n_branch n_branch with_ambiguous nrs
                             new_nodes tentative' st')
                  else if has_other (node (st_this st) a) then
                    (case node_index_for_net (st_other st) (mp_net (node (st_other st) b)) of
                       Inl e \<Rightarrow> (Inl e, tentative, st)
                     | Inr j \<Rightarrow>
                         if j \<noteq> m_other_net_index (node (st_this st) a)
                         then (Inr size_max, tentative, st)
                         else ranges_loop derive h logger max_n_branch n_branch with_ambiguous
                                nrs new_nodes tentative st)
                  else (Inr size_max, tentative, st)
              | _ \<Rightarrow>
                  ranges_loop derive h logger max_n_branch n_branch with_ambiguous nrs new_nodes
                    tentative st)
           else if size_mul num n_branch > max_n_branch then (Inr size_max, tentative, st)
           else
             (case ambiguity_group derive logger (size_mul num n_branch) with_ambiguous r1 r2
                     new_nodes tentative st of
                (Inl e, tentative', st') \<Rightarrow> (Inl e, tentative', st')
              | (Inr None, tentative', st') \<Rightarrow> (Inr size_max, tentative', st')
              | (Inr (Some new_nodes'), tentative', st') \<Rightarrow>
                  ranges_loop derive h logger max_n_branch n_branch with_ambiguous nrs new_nodes'
                    tentative' st')))"

text \<open>
  \<open>derive_node_identities_from_node_set\<close> behind its depth check; \<open>derive\<close> stands for
  \<open>derive_node_identities\<close> one level deeper.
\<close>

definition from_set_body ::
  "derive_fn \<Rightarrow> heap \<Rightarrow> bool \<Rightarrow> nat \<Rightarrow> nat list \<Rightarrow> nat list \<Rightarrow> nat \<Rightarrow>
   TentativeNodeMapping option \<Rightarrow> bool \<Rightarrow> engine_state \<Rightarrow> engine_result" where
  "from_set_body derive h logger max_n_branch nodes other_nodes n_branch tentative with_ambiguous st =
     (if length nodes = 1 \<and> length other_nodes = 1 then
        (let a = hd nodes; b = hd other_nodes in
         if \<not> has_other (node (st_this st) a) \<and> \<not> has_other (node (st_other st) b) then
           (case pair_and_derive derive h logger n_branch with_ambiguous a b tentative st of
              (Inl e, tentative', st') \<Rightarrow> (Inl e, tentative', st')
            | (Inr bt_count, tentative', st') \<Rightarrow>
                if bt_count \<noteq> size_max then (Inr (size_add (size_add 0 bt_count) 1), tentative', st')
                else if tentative \<noteq> None then (Inr bt_count, tentative', st')
                else (Inr (size_add 0 1), tentative', st'))
         else if has_other (node (st_this st) a) then
           (case node_index_for_net (st_other st) (mp_net (node (st_other st) b)) of
              Inl e \<Rightarrow> (Inl e, tentative, st)
            | Inr j \<Rightarrow>
                if j \<noteq> m_other_net_index (node (st_this st) a) then (Inr size_max, tentative, st)
                else (Inr 0, tentative, st))
         else (Inr size_max, tentative, st))
      else
        (case collect_ranges h st (tentative \<noteq> None) with_ambiguous nodes other_nodes of
           None \<Rightarrow> (Inr size_max, tentative, st)
         | Some node_ranges \<Rightarrow>
             ranges_loop derive h logger max_n_branch n_branch with_ambiguous
               (if with_ambiguous then sort_by (\<lambda>a b. fst a < fst b) node_ranges else node_ranges)
               0 tentative st))"

subsection \<open>The recursion\<close>

text \<open>
  \<open>derive_node_identities_from_node_set\<close> at depth \<open>d\<close> returns \<open>size_max\<close> at once when
  \<open>d > max_depth\<close>, and otherwise calls \<open>derive_node_identities\<close> at depth \<open>d + 1\<close>, which calls
  it back at that depth. \<open>from_set_at k\<close> is the function with \<open>k = max_depth + 1 - d\<close> levels
  left.
\<close>

primrec from_set_at :: "heap \<Rightarrow> bool \<Rightarrow> nat \<Rightarrow> nat \<Rightarrow> from_set_fn" where
  "from_set_at h logger max_n_branch 0 =
     (\<lambda>nodes other_nodes n_branch tentative with_ambiguous st. (Inr size_max, tentative, st))"
| "from_set_at h logger max_n_branch (Suc k) =
     from_set_body (derive_body (from_set_at h logger max_n_branch k) h) h logger max_n_branch"

definition derive_node_identities_from_node_set ::
  "heap \<Rightarrow> bool \<Rightarrow> nat list \<Rightarrow> nat list \<Rightarrow> nat \<Rightarrow> nat \<Rightarrow> nat \<Rightarrow> nat \<Rightarrow>
   TentativeNodeMapping option \<Rightarrow> bool \<Rightarrow> engine_state \<Rightarrow> engine_result" where
  "derive_node_identities_from_node_set h logger nodes other_nodes depth max_depth n_branch
     max_n_branch tentative with_ambiguous st =
     from_set_at h logger max_n_branch (Suc max_depth - depth) nodes other_nodes n_branch
       tentative with_ambiguous st"

definition derive_node_identities ::
  "heap \<Rightarrow> bool \<Rightarrow> nat \<Rightarrow> nat \<Rightarrow> nat \<Rightarrow> nat \<Rightarrow> nat \<Rightarrow>
   TentativeNodeMapping option \<Rightarrow> bool \<Rightarrow> engine_state \<Rightarrow> engine_result" where
  "derive_node_identities h logger net_index depth max_depth n_branch max_n_branch tentative
     with_ambiguous st =
     derive_body (from_set_at h logger max_n_branch (Suc max_depth - depth)) h net_index n_branch
       tentative with_ambiguous st"

text \<open>
  A node with three edges of the same transition: three devices of one category that
  compare as equal (the devices 1, 2 and 3 of the filter example), each from this net to
  another net (the nodes 1, 2 and 3).
\<close>

definition three_equal_edges :: NetGraphNode where
  "three_equal_edges =
     \<lparr> mp_net = Some 100, m_other_net_index = 4,
       m_edges = [([device_Transition 1 1 0 0], (1, Some 101)),
                  ([device_Transition 2 1 0 0], (2, Some 102)),
                  ([device_Transition 3 1 0 0], (3, Some 103))] \<rparr>"

section \<open>Comparing two circuits\<close>

subsection \<open>Pairing the nodes\<close>

definition emit :: "bool \<Rightarrow> event \<Rightarrow> engine_state \<Rightarrow> engine_state" where
  "emit logger ev st = (if logger then st\<lparr> st_log := st_log st @ [ev] \<rparr> else st)"

text \<open>The nets the user declared the same are paired first.\<close>

fun seed_net_identity :: "(addr \<times> addr) list \<Rightarrow> engine_state \<Rightarrow> (error + unit) \<times> engine_state" where
  "seed_net_identity [] st = (Inr (), st)"
| "seed_net_identity (p # ps) st =
     (case node_index_for_net (st_this st) (Some (fst p)) of
        Inl e \<Rightarrow> (Inl e, st)
      | Inr ni1 \<Rightarrow>
          (case node_index_for_net (st_other st) (Some (snd p)) of
             Inl e \<Rightarrow> (Inl e, st)
           | Inr ni2 \<Rightarrow>
               seed_net_identity ps
                 (st\<lparr> st_this := identify ni1 ni2 (st_this st),
                      st_other := identify ni2 ni1 (st_other st) \<rparr>)))"

text \<open>
  The first half of a round: from every node of the first graph that has a partner and a
  net, in the order of the graph.
\<close>

fun deduce_from_present ::
  "heap \<Rightarrow> bool \<Rightarrow> nat \<Rightarrow> nat \<Rightarrow> bool \<Rightarrow> nat list \<Rightarrow> nat \<Rightarrow> engine_state \<Rightarrow>
   (error + nat) \<times> engine_state" where
  "deduce_from_present h logger max_depth max_n_branch with_ambiguous [] new_identities st =
     (Inr new_identities, st)"
| "deduce_from_present h logger max_depth max_n_branch with_ambiguous (i1 # rest) new_identities st =
     (if has_other (node (st_this st) i1) \<and> mp_net (node (st_this st) i1) \<noteq> None then
        (case derive_node_identities h logger i1 0 max_depth 1 max_n_branch None with_ambiguous st of
           (Inl e, tn, st') \<Rightarrow> (Inl e, st')
         | (Inr ni, tn, st') \<Rightarrow>
             deduce_from_present h logger max_depth max_n_branch with_ambiguous rest
               (if ni > 0 \<and> ni \<noteq> size_max then size_add new_identities ni else new_identities) st')
      else deduce_from_present h logger max_depth max_n_branch with_ambiguous rest new_identities st)"

text \<open>The nodes of a graph that have a net and no partner.\<close>

definition unpaired_nodes :: "NetGraph \<Rightarrow> nat list" where
  "unpaired_nodes g =
     filter (\<lambda>i. \<not> has_other (node g i) \<and> mp_net (node g i) \<noteq> None) [0 ..< length (m_nodes g)]"

text \<open>
  One pass: the rounds of the \<open>while (true)\<close> loop, at most \<open>fuel\<close> of them. The result
  is \<open>good\<close> as the pass leaves it.
\<close>

fun pass_loop ::
  "nat \<Rightarrow> heap \<Rightarrow> bool \<Rightarrow> nat \<Rightarrow> nat \<Rightarrow> bool \<Rightarrow> engine_state \<Rightarrow> (error + bool) \<times> engine_state" where
  "pass_loop 0 h logger max_depth max_n_branch with_ambiguous st = (Inl OutOfFuel, st)"
| "pass_loop (Suc fuel) h logger max_depth max_n_branch with_ambiguous st =
     (case deduce_from_present h logger max_depth max_n_branch with_ambiguous
             [0 ..< length (m_nodes (st_this st))] 0 st of
        (Inl e, st1) \<Rightarrow> (Inl e, st1)
      | (Inr new_identities, st1) \<Rightarrow>
          (let nodes = unpaired_nodes (st_this st1);
               other_nodes = unpaired_nodes (st_other st1)
           in if nodes = [] \<or> other_nodes = [] then
                (Inr (\<not> (nodes \<noteq> [] \<or> other_nodes \<noteq> [])), st1)
              else
                (case derive_node_identities_from_node_set h logger
                        (sort_nodes h (st_this st1) nodes) (sort_nodes h (st_other st1) other_nodes)
                        0 max_depth 1 max_n_branch None with_ambiguous st1 of
                   (Inl e, tn, st2) \<Rightarrow> (Inl e, st2)
                 | (Inr ni, tn, st2) \<Rightarrow>
                     (let new_identities' =
                            (if ni > 0 \<and> ni \<noteq> size_max then size_add new_identities ni
                             else new_identities)
                      in if new_identities' = 0 then (Inr False, st2)
                         else pass_loop fuel h logger max_depth max_n_branch with_ambiguous st2))))"

text \<open>
  The first part of \<open>compare_circuits\<close>: the two graphs are built, the two dummy nodes
  and the nets declared the same are paired, and the two passes run, the first one without
  ambiguous matches. The result is \<open>good\<close> after the second pass, with the categorizers after
  the build and the two graphs and the log in the state.
\<close>

definition pair_nodes ::
  "heap \<Rightarrow> nat \<Rightarrow> NetlistComparer \<Rightarrow> addr \<Rightarrow> addr \<Rightarrow> categorizer \<Rightarrow> categorizer \<Rightarrow>
   CircuitPinMapper \<Rightarrow> (addr \<times> addr) list \<Rightarrow> (addr \<rightharpoonup> CircuitMapper) \<Rightarrow>
   (addr \<rightharpoonup> CircuitMapper) \<Rightarrow> event list \<Rightarrow>
   error + (bool \<times> categorizer \<times> categorizer \<times> engine_state)" where
  "pair_nodes h fuel nc c1 c2 device_categorizer circuit_categorizer circuit_pin_mapper
     net_identity c12_circuit_and_pin_mapping c22_circuit_and_pin_mapping events =
     bind_err
       (build h c1 device_categorizer circuit_categorizer (device_filter_of nc)
          c12_circuit_and_pin_mapping circuit_pin_mapper)
       (\<lambda>(g1, dcat1, ccat1).
          bind_err
            (build h c2 dcat1 ccat1 (device_filter_of nc) c22_circuit_and_pin_mapping
               circuit_pin_mapper)
            (\<lambda>(g2, dcat2, ccat2).
               (let st0 = \<lparr> st_this = identify 0 0 g1, st_other = identify 0 0 g2, st_log = events \<rparr>
                in case seed_net_identity net_identity st0 of
                     (Inl e, st1) \<Rightarrow> Inl e
                   | (Inr u, st1) \<Rightarrow>
                       (case pass_loop fuel h (mp_logger nc) (m_max_depth nc) (m_max_n_branch nc)
                               False st1 of
                          (Inl e, st2) \<Rightarrow> Inl e
                        | (Inr good0, st2) \<Rightarrow>
                            (case pass_loop fuel h (mp_logger nc) (m_max_depth nc)
                                    (m_max_n_branch nc) True st2 of
                               (Inl e, st3) \<Rightarrow> Inl e
                             | (Inr good, st3) \<Rightarrow> Inr (good, dcat2, ccat2, st3))))))"

section \<open>Well-formed graphs\<close>

text \<open>
  What \<open>build\<close> establishes and the engine relies on: a graph has no more nodes than a
  \<open>size_t\<close> counts, the net index leads from the net of every node to that node, and the
  edges of every node lead to nodes of the graph.
\<close>

definition graph_consistent :: "NetGraph \<Rightarrow> bool" where
  "graph_consistent g =
     (length (m_nodes g) \<le> size_max \<and>
      list_all (\<lambda>k. m_net_index g (mp_net (node g k)) = Some k \<and>
                     list_all (\<lambda>e. fst (snd e) < length (m_nodes g)) (m_edges (node g k)))
        [0 ..< length (m_nodes g)])"

definition graphs_consistent :: "engine_state \<Rightarrow> bool" where
  "graphs_consistent st = (graph_consistent (st_this st) \<and> graph_consistent (st_other st))"

text \<open>A pair of nodes of the two graphs that have no partner.\<close>

definition free_pair :: "engine_state \<Rightarrow> nat \<times> nat \<Rightarrow> bool" where
  "free_pair st p =
     (fst p < length (m_nodes (st_this st)) \<and> \<not> has_other (node (st_this st) (fst p)) \<and>
      snd p < length (m_nodes (st_other st)) \<and> \<not> has_other (node (st_other st) (snd p)))"

text \<open>
  What a call in tentative mode leaves behind, seen from the state \<open>st\<close> and the audit
  object \<open>tn\<close> it began with: the audit object has grown by some pairs, and undoing these
  gives \<open>st\<close> back. \<open>derive_rolls_back\<close> and \<open>from_set_rolls_back\<close> say so of every call of a
  function that stands for \<open>derive_node_identities\<close> or
  \<open>derive_node_identities_from_node_set\<close>.
\<close>

definition rolled_back ::
  "TentativeNodeMapping option \<times> engine_state \<Rightarrow> TentativeNodeMapping \<Rightarrow> engine_state \<Rightarrow> bool" where
  "rolled_back r tn st = (\<exists>added. fst r = Some (tn @ added) \<and> undo added (snd r) = st)"

definition derive_rolls_back :: "derive_fn \<Rightarrow> bool" where
  "derive_rolls_back derive =
     (\<forall>ni nb tn wa st.
        graphs_consistent st \<longrightarrow> ni < length (m_nodes (st_this st)) \<longrightarrow>
        m_other_net_index (node (st_this st) ni) < length (m_nodes (st_other st)) \<longrightarrow>
        rolled_back (snd (derive ni nb (Some tn) wa st)) tn st)"

definition from_set_rolls_back :: "from_set_fn \<Rightarrow> bool" where
  "from_set_rolls_back from_set =
     (\<forall>nodes others nb tn wa st.
        graphs_consistent st \<longrightarrow> set nodes \<subseteq> {..< length (m_nodes (st_this st))} \<longrightarrow>
        set others \<subseteq> {..< length (m_nodes (st_other st))} \<longrightarrow>
        rolled_back (snd (from_set nodes others nb (Some tn) wa st)) tn st)"

text \<open>
  An example: the graph of a circuit with two nets (101 and 102) and one device (1, of
  category 1) between them, after the dummy node was paired; and the state with this graph
  on both sides.
\<close>

definition rollback_example_graph :: NetGraph where
  "rollback_example_graph =
     \<lparr> m_nodes =
         [\<lparr> mp_net = None, m_other_net_index = 0, m_edges = [] \<rparr>,
          \<lparr> mp_net = Some 101, m_other_net_index = size_max,
            m_edges = [([device_Transition 1 1 0 1], (2, Some 102))] \<rparr>,
          \<lparr> mp_net = Some 102, m_other_net_index = size_max,
            m_edges = [([device_Transition 1 1 1 0], (1, Some 101))] \<rparr>],
       m_net_index = [None \<mapsto> 0, Some 101 \<mapsto> 1, Some 102 \<mapsto> 2],
       mp_circuit = Some 11 \<rparr>"

definition rollback_example :: engine_state where
  "rollback_example =
     \<lparr> st_this = rollback_example_graph, st_other = rollback_example_graph, st_log = [] \<rparr>"

subsection \<open>Multimaps\<close>

text \<open>
  \<open>std::multimap\<close> as an association list in ascending key order, entries of one key in the
  order they were inserted. \<open>mm_find\<close> is the position \<open>find\<close> returns, the first entry with
  the key (the standard allows any entry with the key; the common implementations give the
  first one).
\<close>

fun mm_insert :: "('k \<Rightarrow> 'k \<Rightarrow> bool) \<Rightarrow> 'k \<Rightarrow> 'v \<Rightarrow> ('k \<times> 'v) list \<Rightarrow> ('k \<times> 'v) list" where
  "mm_insert lt k v [] = [(k, v)]"
| "mm_insert lt k v (e # m) = (if lt k (fst e) then (k, v) # e # m else e # mm_insert lt k v m)"

fun mm_find_from :: "'k \<Rightarrow> ('k \<times> 'v) list \<Rightarrow> nat \<Rightarrow> nat option" where
  "mm_find_from k [] i = None"
| "mm_find_from k (e # m) i = (if fst e = k then Some i else mm_find_from k m (Suc i))"

definition mm_find :: "'k \<Rightarrow> ('k \<times> 'v) list \<Rightarrow> nat option" where
  "mm_find k m = mm_find_from k m 0"

definition mm_erase :: "nat \<Rightarrow> ('k \<times> 'v) list \<Rightarrow> ('k \<times> 'v) list" where
  "mm_erase i m = take i m @ drop (Suc i) m"

subsection \<open>Pins\<close>

text \<open>
  The state of \<open>compare_circuits\<close> behind the pairing of the nodes: the two graphs and the
  log, the two result flags, the pin mappings of the circuit pairs, and the categorizers.
\<close>

record cc_state =
  cc_st :: engine_state
  cc_good :: bool
  cc_pin_mismatch :: bool
  cc_c12 :: "addr \<rightharpoonup> CircuitMapper"
  cc_c22 :: "addr \<rightharpoonup> CircuitMapper"
  cc_dcat :: categorizer
  cc_ccat :: categorizer

definition cc_emit :: "bool \<Rightarrow> event \<Rightarrow> cc_state \<Rightarrow> cc_state" where
  "cc_emit logger ev s = s\<lparr> cc_st := emit logger ev (cc_st s) \<rparr>"

definition cc_pin_error :: "bool \<Rightarrow> event \<Rightarrow> cc_state \<Rightarrow> cc_state" where
  "cc_pin_error logger ev s = (cc_emit logger ev s)\<lparr> cc_pin_mismatch := True, cc_good := False \<rparr>"

text \<open>\<open>c12_circuit_and_pin_mapping [c]\<close>: the entry, created when there is none.\<close>

definition mapper_entry :: "(addr \<rightharpoonup> CircuitMapper) \<Rightarrow> addr \<Rightarrow> CircuitMapper" where
  "mapper_entry m c = (case m c of None \<Rightarrow> new_CircuitMapper | Some cm \<Rightarrow> cm)"

text \<open>
  The pins of the second circuit: the ones with a net by the node of the net, the others
  in the list of floating pins.
\<close>

fun sort_out_pins ::
  "heap \<Rightarrow> NetGraph \<Rightarrow> addr \<Rightarrow> Pin list \<Rightarrow> (nat \<times> Pin) list \<Rightarrow> Pin list \<Rightarrow>
   error + ((nat \<times> Pin) list \<times> Pin list)" where
  "sort_out_pins h g2 c2 [] net2pin floating_pins = Inr (net2pin, floating_pins)"
| "sort_out_pins h g2 c2 (p # ps) net2pin floating_pins =
     (case c_net_for_pin (h_circuit h c2) (p_id p) of
        Some net \<Rightarrow>
          bind_err (node_index_for_net g2 (Some net))
            (\<lambda>i. sort_out_pins h g2 c2 ps (mm_insert (<) i p net2pin) floating_pins)
      | None \<Rightarrow> sort_out_pins h g2 c2 ps net2pin (floating_pins @ [p]))"

text \<open>
  The loop over the pins of the net of a pin of the first circuit. \<open>np\<close> is the position in
  \<open>net2pin\<close> the search gave (\<open>None\<close> for \<open>end ()\<close>); an entry that is used is erased, which
  leaves \<open>np\<close> on the entry behind it.
\<close>

fun match_net_pins ::
  "bool \<Rightarrow> addr \<Rightarrow> addr \<Rightarrow> nat \<Rightarrow> Pin list \<Rightarrow> nat option \<Rightarrow> (nat \<times> Pin) list \<Rightarrow> cc_state \<Rightarrow>
   (nat \<times> Pin) list \<times> cc_state" where
  "match_net_pins logger c1 c2 other_net_index [] np net2pin s = (net2pin, s)"
| "match_net_pins logger c1 c2 other_net_index (pn # pns) np net2pin s =
     (case (case np of
              Some i \<Rightarrow> if i < length net2pin \<and> fst (net2pin ! i) = other_net_index
                        then Some i else None
            | None \<Rightarrow> None) of
        Some i \<Rightarrow>
          (let q = snd (net2pin ! i);
               s1 = cc_emit logger (MatchPins (Some pn) (Some q)) s;
               s2 = s1\<lparr> cc_c12 := (cc_c12 s1)(c1 \<mapsto> map_pin (p_id pn) (p_id q) (mapper_entry (cc_c12 s1) c1)),
                        cc_c22 := (cc_c22 s1)(c2 \<mapsto> map_pin (p_id q) (p_id q) (mapper_entry (cc_c22 s1) c2)) \<rparr>
           in match_net_pins logger c1 c2 other_net_index pns (Some i) (mm_erase i net2pin) s2)
      | None \<Rightarrow>
          match_net_pins logger c1 c2 other_net_index pns np net2pin
            (cc_pin_error logger (PinMismatch (Some pn) None) s))"

text \<open>The loop over the pins of the first circuit.\<close>

fun assign_pins ::
  "heap \<Rightarrow> bool \<Rightarrow> addr \<Rightarrow> addr \<Rightarrow> Pin list \<Rightarrow> (nat \<times> Pin) list \<Rightarrow> Pin list \<Rightarrow> cc_state \<Rightarrow>
   error + ((nat \<times> Pin) list \<times> Pin list \<times> cc_state)" where
  "assign_pins h logger c1 c2 [] net2pin next_float s = Inr (net2pin, next_float, s)"
| "assign_pins h logger c1 c2 (p # ps) net2pin next_float s =
     (case c_net_for_pin (h_circuit h c1) (p_id p) of
        None \<Rightarrow>
          (case next_float of
             f # fs \<Rightarrow>
               (let s1 = cc_emit logger (MatchPins (Some p) (Some f)) s;
                    s2 = s1\<lparr> cc_c12 := (cc_c12 s1)(c1 \<mapsto> map_pin (p_id p) (p_id f) (mapper_entry (cc_c12 s1) c1)),
                             cc_c22 := (cc_c22 s1)(c2 \<mapsto> map_pin (p_id f) (p_id p) (mapper_entry (cc_c22 s1) c2)) \<rparr>
                in assign_pins h logger c1 c2 ps net2pin fs s2)
           | [] \<Rightarrow>
               assign_pins h logger c1 c2 ps net2pin next_float
                 (cc_pin_error logger (PinMismatch (Some p) None) s))
      | Some net \<Rightarrow>
          bind_err (node_index_for_net (st_this (cc_st s)) (Some net))
            (\<lambda>ni.
               (let n = node (st_this (cc_st s)) ni in
                if \<not> has_other n then
                  assign_pins h logger c1 c2 ps net2pin next_float
                    (cc_pin_error logger (PinMismatch (Some p) None) s)
                else
                  (case match_net_pins logger c1 c2 (m_other_net_index n) (net_pins (h_net h net))
                          (mm_find (m_other_net_index n) net2pin) net2pin s of
                     (net2pin', s') \<Rightarrow> assign_pins h logger c1 c2 ps net2pin' next_float s'))))"

text \<open>
  The pin assignment. With pins on both sides the mappers of the two circuits are entered
  and filled; otherwise the pins are only listed, as matches, and a different number of
  pins sets \<open>pin_mismatch\<close>.
\<close>

definition report_pins :: "heap \<Rightarrow> bool \<Rightarrow> addr \<Rightarrow> addr \<Rightarrow> cc_state \<Rightarrow> error + cc_state" where
  "report_pins h logger c1 c2 s =
     (let pins1 = c_pins (h_circuit h c1); pins2 = c_pins (h_circuit h c2) in
      if length pins1 > 0 \<and> length pins2 > 0 then
        bind_err (sort_out_pins h (st_other (cc_st s)) c2 pins2 [] [])
          (\<lambda>(net2pin, floating_pins).
             (let s1 = s\<lparr> cc_c12 := (cc_c12 s)(c1 \<mapsto> set_other c2 (mapper_entry (cc_c12 s) c1)),
                         cc_c22 := (cc_c22 s)(c2 \<mapsto> set_other c2 (mapper_entry (cc_c22 s) c2)) \<rparr>
              in bind_err (assign_pins h logger c1 c2 pins1 net2pin floating_pins s1)
                   (\<lambda>(net2pin', next_float, s2).
                      Inr (fold (\<lambda>f. cc_pin_error logger (PinMismatch None (Some f))) next_float
                             (fold (\<lambda>np. cc_pin_error logger (PinMismatch None (Some (snd np))))
                                net2pin' s2)))))
      else
        (let s1 = fold (\<lambda>p. cc_emit logger (MatchPins (Some p) None)) pins1 s;
             s2 = fold (\<lambda>p. cc_emit logger (MatchPins None (Some p))) pins2 s1
         in Inr (if length pins1 \<noteq> length pins2 then s2\<lparr> cc_pin_mismatch := True \<rparr> else s2)))"

subsection \<open>Devices\<close>

text \<open>
  A key: the pairs of a terminal (or pin) id and a node index, sorted. The keys of a
  multimap compare as vectors of pairs do.
\<close>

type_synonym key = "(nat \<times> nat) list"

definition pair_less :: "nat \<times> nat \<Rightarrow> nat \<times> nat \<Rightarrow> bool" where
  "pair_less a b = (fst a < fst b \<or> (\<not> fst b < fst a \<and> snd a < snd b))"

definition key_less :: "key \<Rightarrow> key \<Rightarrow> bool" where
  "key_less a b = lex_less pair_less a b"

definition compute_device_key :: "heap \<Rightarrow> addr \<Rightarrow> NetGraph \<Rightarrow> error + key" where
  "compute_device_key h device g =
     (case dev_device_class (h_device h device) of
        None \<Rightarrow> Inl NullPointer
      | Some c \<Rightarrow>
          bind_err
            (fold_err (\<lambda>t k. bind_err (node_index_for_net g (dev_net_for_terminal (h_device h device) t))
                                (\<lambda>net_id. Inr (k @ [(translate_terminal_id h t device, net_id)])))
               (dc_terminal_definitions (h_device_class h c)) [])
            (\<lambda>k. Inr (sort_by pair_less k)))"

text \<open>
  Whether all nodes of a key of the first circuit have partners; and the same for a key of
  the second circuit, whose node indexes are replaced by the partners as far as there are
  partners. \<open>g\<close> is the graph the nodes are looked up in.
\<close>

definition key_mapped :: "NetGraph \<Rightarrow> key \<Rightarrow> bool" where
  "key_mapped g k = list_all (\<lambda>i. has_other (node g (snd i))) k"

definition translate_key :: "NetGraph \<Rightarrow> NetGraph \<Rightarrow> key \<Rightarrow> bool \<times> key" where
  "translate_key g_test g2 k =
     (list_all (\<lambda>i. has_other (node g_test (snd i))) k,
      map (\<lambda>i. if has_other (node g_test (snd i))
                then (fst i, m_other_net_index (node g2 (snd i))) else i) k)"

text \<open>The devices of the first circuit that pass the filter go into the device map.\<close>

fun map_devices ::
  "heap \<Rightarrow> bool \<Rightarrow> DeviceFilter \<Rightarrow> addr list \<Rightarrow> (key \<times> (addr \<times> nat)) list \<Rightarrow> cc_state \<Rightarrow>
   error + ((key \<times> (addr \<times> nat)) list \<times> cc_state)" where
  "map_devices h logger device_filter [] device_map s = Inr (device_map, s)"
| "map_devices h logger device_filter (d # ds) device_map s =
     (if \<not> filter_device h device_filter d then map_devices h logger device_filter ds device_map s
      else
        bind_err (compute_device_key h d (st_this (cc_st s)))
          (\<lambda>k. if \<not> key_mapped (st_this (cc_st s)) k then
                  map_devices h logger device_filter ds device_map
                    ((cc_emit logger (DeviceMismatch (Some d) None) s)\<lparr> cc_good := False \<rparr>)
                else
                  (let (cat, dcat) = cat_for_device h d (cc_dcat s) in
                   map_devices h logger device_filter ds
                     (mm_insert key_less k (d, cat) device_map) (s\<lparr> cc_dcat := dcat \<rparr>))))"

text \<open>The devices of the second circuit are looked up in the device map.\<close>

fun lookup_devices ::
  "heap \<Rightarrow> bool \<Rightarrow> DeviceFilter \<Rightarrow> addr list \<Rightarrow> (key \<times> (addr \<times> nat)) list \<Rightarrow> cc_state \<Rightarrow>
   error + ((key \<times> (addr \<times> nat)) list \<times> cc_state)" where
  "lookup_devices h logger device_filter [] device_map s = Inr (device_map, s)"
| "lookup_devices h logger device_filter (d # ds) device_map s =
     (if \<not> filter_device h device_filter d then lookup_devices h logger device_filter ds device_map s
      else
        bind_err (compute_device_key h d (st_other (cc_st s)))
          (\<lambda>k0.
             (let (mapped, k1) = translate_key (st_other (cc_st s)) (st_other (cc_st s)) k0;
                  k = sort_by pair_less k1
              in case (if mapped then mm_find k device_map else None) of
                   None \<Rightarrow>
                     lookup_devices h logger device_filter ds device_map
                       ((cc_emit logger (DeviceMismatch None (Some d)) s)\<lparr> cc_good := False \<rparr>)
                 | Some dm \<Rightarrow>
                     (let (device_cat, dcat) = cat_for_device h d (cc_dcat s);
                          s1 = s\<lparr> cc_dcat := dcat \<rparr>;
                          found = snd (device_map ! dm);
                          s2 = (if \<not> dc_equals h (Some (fst found), snd found) (Some d, device_cat) then
                                  (if snd found \<noteq> device_cat then
                                     (cc_emit logger
                                        (MatchDevicesWithDifferentDeviceClasses (Some (fst found)) (Some d))
                                        s1)\<lparr> cc_good := False \<rparr>
                                   else
                                     (cc_emit logger
                                        (MatchDevicesWithDifferentParameters (Some (fst found)) (Some d))
                                        s1)\<lparr> cc_good := False \<rparr>)
                                else cc_emit logger (MatchDevices (Some (fst found)) (Some d)) s1)
                      in lookup_devices h logger device_filter ds (mm_erase dm device_map) s2))))"

definition report_devices :: "heap \<Rightarrow> bool \<Rightarrow> DeviceFilter \<Rightarrow> addr \<Rightarrow> addr \<Rightarrow> cc_state \<Rightarrow> error + cc_state" where
  "report_devices h logger device_filter c1 c2 s =
     bind_err (map_devices h logger device_filter (c_devices (h_circuit h c1)) [] s)
       (\<lambda>(device_map, s1).
          bind_err (lookup_devices h logger device_filter (c_devices (h_circuit h c2)) device_map s1)
            (\<lambda>(device_map', s2).
               Inr (fold (\<lambda>dm s. (cc_emit logger (DeviceMismatch (Some (fst (snd dm))) None) s)
                                    \<lparr> cc_good := False \<rparr>)
                      device_map' s2)))"

subsection \<open>Subcircuits\<close>

definition compute_subcircuit_key ::
  "heap \<Rightarrow> addr \<Rightarrow> NetGraph \<Rightarrow> (addr \<rightharpoonup> CircuitMapper) \<Rightarrow> CircuitPinMapper \<Rightarrow> error + key" where
  "compute_subcircuit_key h subcircuit g circuit_map pin_map =
     (case (case sc_circuit_ref (h_subcircuit h subcircuit) of
              None \<Rightarrow> None | Some cr \<Rightarrow> circuit_map cr) of
        None \<Rightarrow> Inr []
      | Some cm \<Rightarrow>
          (case mp_other cm of
             None \<Rightarrow> Inl NullPointer
           | Some cr \<Rightarrow>
               bind_err
                 (fold_err
                    (\<lambda>p k. if has_this_pin_for_other_pin cm (p_id p) then
                              bind_err (this_pin_from_other_pin cm (p_id p))
                                (\<lambda>this_pin_id.
                                   bind_err
                                     (node_index_for_net g
                                        (sc_net_for_pin (h_subcircuit h subcircuit) this_pin_id))
                                     (\<lambda>net_id.
                                        Inr (k @ [(normalize_pin_id pin_map cr (p_id p), net_id)])))
                            else Inr k)
                    (c_pins (h_circuit h cr)) [])
                 (\<lambda>k. Inr (sort_by pair_less k))))"

text \<open>
  The subcircuits of the first circuit go into the subcircuit map, unless their key is
  empty.
\<close>

fun map_subcircuits ::
  "heap \<Rightarrow> bool \<Rightarrow> CircuitPinMapper \<Rightarrow> addr list \<Rightarrow> (key \<times> (addr \<times> nat)) list \<Rightarrow> cc_state \<Rightarrow>
   error + ((key \<times> (addr \<times> nat)) list \<times> cc_state)" where
  "map_subcircuits h logger pin_map [] subcircuit_map s = Inr (subcircuit_map, s)"
| "map_subcircuits h logger pin_map (sc # scs) subcircuit_map s =
     bind_err (compute_subcircuit_key h sc (st_this (cc_st s)) (cc_c12 s) pin_map)
       (\<lambda>k. if \<not> key_mapped (st_this (cc_st s)) k then
               map_subcircuits h logger pin_map scs subcircuit_map
                 ((cc_emit logger (SubcircuitMismatch (Some sc) None) s)\<lparr> cc_good := False \<rparr>)
             else if k \<noteq> [] then
               (let (cat, ccat) = cat_for_subcircuit h sc (cc_ccat s) in
                map_subcircuits h logger pin_map scs
                  (mm_insert key_less k (sc, cat) subcircuit_map) (s\<lparr> cc_ccat := ccat \<rparr>))
             else map_subcircuits h logger pin_map scs subcircuit_map s)"

text \<open>
  The subcircuits of the second circuit are looked up in the subcircuit map. Whether the
  nodes of a key have partners is asked of the first graph (\<open>g1.begin () [i->second]\<close>), the
  partners are taken from the second. The ones not found are collected in \<open>unmatched_b\<close>
  if there is a logger.
\<close>

fun lookup_subcircuits ::
  "heap \<Rightarrow> bool \<Rightarrow> CircuitPinMapper \<Rightarrow> addr list \<Rightarrow> (key \<times> (addr \<times> nat)) list \<Rightarrow>
   (key \<times> addr) list \<Rightarrow> cc_state \<Rightarrow>
   error + ((key \<times> (addr \<times> nat)) list \<times> (key \<times> addr) list \<times> cc_state)" where
  "lookup_subcircuits h logger pin_map [] subcircuit_map unmatched_b s =
     Inr (subcircuit_map, unmatched_b, s)"
| "lookup_subcircuits h logger pin_map (sc # scs) subcircuit_map unmatched_b s =
     bind_err (compute_subcircuit_key h sc (st_other (cc_st s)) (cc_c22 s) pin_map)
       (\<lambda>k0.
          (let (mapped, k1) = translate_key (st_this (cc_st s)) (st_other (cc_st s)) k0;
               k = sort_by pair_less k1
           in case (if mapped then mm_find k subcircuit_map else None) of
                None \<Rightarrow>
                  lookup_subcircuits h logger pin_map scs subcircuit_map
                    (if logger then unmatched_b @ [(k, sc)] else unmatched_b)
                    (s\<lparr> cc_good := False \<rparr>)
              | Some scm \<Rightarrow>
                  (let (sc_cat, ccat) = cat_for_subcircuit h sc (cc_ccat s);
                       s1 = s\<lparr> cc_ccat := ccat \<rparr>;
                       found = snd (subcircuit_map ! scm);
                       s2 = (if \<not> scc_equals (Some (fst found), snd found) (Some sc, sc_cat) then
                               (cc_emit logger (SubcircuitMismatch (Some (fst found)) (Some sc)) s1)
                                 \<lparr> cc_good := False \<rparr>
                             else cc_emit logger (MatchSubcircuits (Some (fst found)) (Some sc)) s1)
                   in lookup_subcircuits h logger pin_map scs (mm_erase scm subcircuit_map)
                        unmatched_b s2)))"

text \<open>
  The report of the subcircuits left unmatched, made only for a logger. Both lists are
  sorted by the length of the key. One round of the loop reports the leading subcircuits
  of the second list with shorter keys than the first of the first list, then the leading
  ones of the first list with shorter keys than the first of the second list, asserts that
  the two lists now start with keys of one length, and reports the subcircuits of that key
  length in pairs, the surplus against null. (\<open>align\<close>, which the code calls on each such
  group, permutes two vectors of its own and leaves its arguments as they are; it has no
  part here.) More than 1000 unmatched subcircuits are reported one by one.
\<close>

definition key_size_less :: "key \<times> addr \<Rightarrow> key \<times> addr \<Rightarrow> bool" where
  "key_size_less a b = (length (fst a) < length (fst b))"

definition shorter_than_first :: "(key \<times> addr) list \<Rightarrow> key \<times> addr \<Rightarrow> bool" where
  "shorter_than_first xs y = (case xs of [] \<Rightarrow> True | x # _ \<Rightarrow> length (fst y) < length (fst x))"

function pair_unmatched :: "(key \<times> addr) list \<Rightarrow> (key \<times> addr) list \<Rightarrow> error + event list" where
  "pair_unmatched a b =
     (let b1 = dropWhile (shorter_than_first a) b;
          a1 = dropWhile (shorter_than_first b1) a;
          small =
            map (\<lambda>j. SubcircuitMismatch None (Some (snd j))) (takeWhile (shorter_than_first a) b) @
            map (\<lambda>i. SubcircuitMismatch (Some (snd i)) None) (takeWhile (shorter_than_first b1) a)
      in case a1 of
           [] \<Rightarrow> (case b1 of [] \<Rightarrow> Inr small | j # js \<Rightarrow> Inl NullPointer)
         | i # is \<Rightarrow>
             (case b1 of
                [] \<Rightarrow> Inl NullPointer
              | j # js \<Rightarrow>
                  if length (fst i) \<noteq> length (fst j) then Inl AssertionFailed
                  else
                    (let n = length (fst i);
                         ga = i # takeWhile (\<lambda>x. length (fst x) = n) is;
                         gb = j # takeWhile (\<lambda>x. length (fst x) = n) js
                     in bind_err
                          (pair_unmatched (dropWhile (\<lambda>x. length (fst x) = n) is)
                             (dropWhile (\<lambda>x. length (fst x) = n) js))
                          (\<lambda>more.
                             Inr (small @
                                  map (\<lambda>(x, y). SubcircuitMismatch (Some (snd x)) (Some (snd y)))
                                    (zip ga gb) @
                                  map (\<lambda>y. SubcircuitMismatch None (Some (snd y)))
                                    (drop (length ga) gb) @
                                  map (\<lambda>x. SubcircuitMismatch (Some (snd x)) None)
                                    (drop (length gb) ga) @
                                  more)))))"
  by pat_completeness auto
termination
proof (relation "measure (\<lambda>(a, b). length a + length b)", goal_cases)
  case 1
  show ?case by simp
next
  case (2 a b b1 a1 small i "is" j js n ga gb)
  have "length (i # is) \<le> length a" "length (j # js) \<le> length b"
    using 2 length_dropWhile_le [of "shorter_than_first a" b]
      length_dropWhile_le [of "shorter_than_first b1" a] by metis+
  moreover have "length (dropWhile (\<lambda>x. length (fst x) = n) is) \<le> length is"
    "length (dropWhile (\<lambda>x. length (fst x) = n) js) \<le> length js"
    by (rule length_dropWhile_le)+
  ultimately show ?case by simp
qed

definition report_unmatched :: "(key \<times> addr) list \<Rightarrow> (key \<times> addr) list \<Rightarrow> error + event list" where
  "report_unmatched unmatched_a unmatched_b =
     (if length unmatched_a + length unmatched_b > 1000 then
        Inr (map (\<lambda>i. SubcircuitMismatch (Some (snd i)) None) unmatched_a @
             map (\<lambda>i. SubcircuitMismatch None (Some (snd i))) unmatched_b)
      else pair_unmatched (sort_by key_size_less unmatched_a) (sort_by key_size_less unmatched_b))"

definition report_subcircuits ::
  "heap \<Rightarrow> bool \<Rightarrow> CircuitPinMapper \<Rightarrow> addr \<Rightarrow> addr \<Rightarrow> cc_state \<Rightarrow> error + cc_state" where
  "report_subcircuits h logger pin_map c1 c2 s =
     bind_err (map_subcircuits h logger pin_map (c_subcircuits (h_circuit h c1)) [] s)
       (\<lambda>(subcircuit_map, s1).
          bind_err
            (lookup_subcircuits h logger pin_map (c_subcircuits (h_circuit h c2)) subcircuit_map [] s1)
            (\<lambda>(subcircuit_map', unmatched_b, s2).
               (let unmatched_a = (if logger then map (\<lambda>scm. (fst scm, fst (snd scm))) subcircuit_map'
                                   else []);
                    s3 = (if subcircuit_map' \<noteq> [] then s2\<lparr> cc_good := False \<rparr> else s2)
                in if logger then
                     bind_err (report_unmatched unmatched_a unmatched_b)
                       (\<lambda>evs. Inr (s3\<lparr> cc_st := (cc_st s3)\<lparr> st_log := st_log (cc_st s3) @ evs \<rparr> \<rparr>))
                   else Inr s3)))"

subsection \<open>The comparison of two circuits\<close>

text \<open>The nodes left without a partner are reported, first graph first.\<close>

definition report_missing_nets :: "bool \<Rightarrow> engine_state \<Rightarrow> engine_state" where
  "report_missing_nets logger st =
     (let st1 = fold (\<lambda>n s. if \<not> has_other n \<and> logger
                              then s\<lparr> st_log := st_log s @ [NetMismatch (mp_net n) None] \<rparr> else s)
                  (m_nodes (st_this st)) st
      in fold (\<lambda>n s. if \<not> has_other n \<and> logger
                       then s\<lparr> st_log := st_log s @ [NetMismatch None (mp_net n)] \<rparr> else s)
           (m_nodes (st_other st)) st1)"

text \<open>
  \<open>compare_circuits\<close>. It is given the categorizers, the pin mappings of the circuit pairs
  and the log, and returns them as it leaves them, with \<open>good\<close> and \<open>pin_mismatch\<close>.
\<close>

definition compare_circuits ::
  "heap \<Rightarrow> nat \<Rightarrow> NetlistComparer \<Rightarrow> addr \<Rightarrow> addr \<Rightarrow> categorizer \<Rightarrow> categorizer \<Rightarrow>
   CircuitPinMapper \<Rightarrow> (addr \<times> addr) list \<Rightarrow> (addr \<rightharpoonup> CircuitMapper) \<Rightarrow>
   (addr \<rightharpoonup> CircuitMapper) \<Rightarrow> event list \<Rightarrow> error + cc_state" where
  "compare_circuits h fuel nc c1 c2 device_categorizer circuit_categorizer circuit_pin_mapper
     net_identity c12_circuit_and_pin_mapping c22_circuit_and_pin_mapping events =
     bind_err
       (pair_nodes h fuel nc c1 c2 device_categorizer circuit_categorizer circuit_pin_mapper
          net_identity c12_circuit_and_pin_mapping c22_circuit_and_pin_mapping events)
       (\<lambda>(good, dcat, ccat, st).
          bind_err
            (report_pins h (mp_logger nc) c1 c2
               \<lparr> cc_st = report_missing_nets (mp_logger nc) st, cc_good = good,
                 cc_pin_mismatch = False, cc_c12 = c12_circuit_and_pin_mapping,
                 cc_c22 = c22_circuit_and_pin_mapping, cc_dcat = dcat, cc_ccat = ccat \<rparr>)
            (\<lambda>s1. bind_err (report_devices h (mp_logger nc) (device_filter_of nc) c1 c2 s1)
                     (\<lambda>s2. report_subcircuits h (mp_logger nc) circuit_pin_mapper c1 c2 s2)))"

section \<open>Comparing two netlists\<close>

text \<open>
  \<open>all_subcircuits_verified\<close>: every subcircuit calls a circuit that has one pin at most
  or is in the set of verified circuits.
\<close>

fun all_subcircuits_verified_loop :: "heap \<Rightarrow> addr list \<Rightarrow> addr list \<Rightarrow> error + bool" where
  "all_subcircuits_verified_loop h [] verified_circuits = Inr True"
| "all_subcircuits_verified_loop h (sc # scs) verified_circuits =
     (case sc_circuit_ref (h_subcircuit h sc) of
        None \<Rightarrow> Inl NullPointer
      | Some cr \<Rightarrow>
          if length (c_pins (h_circuit h cr)) > 1 \<and> cr \<notin> set verified_circuits then Inr False
          else all_subcircuits_verified_loop h scs verified_circuits)"

definition all_subcircuits_verified :: "heap \<Rightarrow> addr \<Rightarrow> addr list \<Rightarrow> error + bool" where
  "all_subcircuits_verified h c verified_circuits =
     all_subcircuits_verified_loop h (c_subcircuits (h_circuit h c)) verified_circuits"

definition collect_pins_with_empty_nets :: "heap \<Rightarrow> addr \<Rightarrow> CircuitPinMapper \<Rightarrow> nat list" where
  "collect_pins_with_empty_nets h c circuit_pin_mapper =
     map p_id
       (filter (\<lambda>p. (case c_net_for_pin (h_circuit h c) (p_id p) of
                       None \<Rightarrow> True | Some net \<Rightarrow> net_is_floating (h_net h net)) \<and>
                    \<not> is_mapped circuit_pin_mapper c (p_id p))
          (c_pins (h_circuit h c)))"

definition derive_pin_equivalence :: "heap \<Rightarrow> addr \<Rightarrow> addr \<Rightarrow> CircuitPinMapper \<Rightarrow> CircuitPinMapper" where
  "derive_pin_equivalence h ca cb circuit_pin_mapper =
     (let pa = collect_pins_with_empty_nets h ca circuit_pin_mapper;
          pb = collect_pins_with_empty_nets h cb circuit_pin_mapper
      in map_pins cb pb (map_pins ca pa circuit_pin_mapper))"

text \<open>
  The circuits and the device classes of the two netlists by category: the entry of a
  category holds the last circuit (device class) of either netlist that is in it.
\<close>

type_synonym cat_pairs = "(nat, addr option \<times> addr option) std_map"

definition cat_entry :: "cat_pairs \<Rightarrow> nat \<Rightarrow> addr option \<times> addr option" where
  "cat_entry m cat = (case map_of m cat of None \<Rightarrow> (None, None) | Some e \<Rightarrow> e)"

fun circuits_by_category ::
  "heap \<Rightarrow> bool \<Rightarrow> addr list \<Rightarrow> categorizer \<Rightarrow> cat_pairs \<Rightarrow> categorizer \<times> cat_pairs" where
  "circuits_by_category h second [] ccat m = (ccat, m)"
| "circuits_by_category h second (c # cs) ccat m =
     (let (cat, ccat') = cat_for_circuit h c ccat;
          e = cat_entry m cat
      in circuits_by_category h second cs ccat'
           (map_assign cat (if second then (fst e, Some c) else (Some c, snd e)) m))"

fun device_classes_by_category ::
  "heap \<Rightarrow> bool \<Rightarrow> addr list \<Rightarrow> categorizer \<Rightarrow> cat_pairs \<Rightarrow> categorizer \<times> cat_pairs" where
  "device_classes_by_category h second [] dcat m = (dcat, m)"
| "device_classes_by_category h second (dc # dcs) dcat m =
     (let (cat, dcat') = cat_for_device_class h dc dcat;
          e = cat_entry m cat
      in device_classes_by_category h second dcs dcat'
           (map_assign cat (if second then (fst e, Some dc) else (Some dc, snd e)) m))"

text \<open>The categories with nothing on one side, in the order of the map.\<close>

definition unpaired_entries :: "cat_pairs \<Rightarrow> (addr option \<times> addr option) list" where
  "unpaired_entries m = filter (\<lambda>e. fst e = None \<or> snd e = None) (map snd m)"

text \<open>What \<open>compare\<close> carries from circuit to circuit.\<close>

record compare_state =
  cs_good :: bool
  cs_events :: "event list"
  cs_circuit_categorizer :: categorizer
  cs_device_categorizer :: categorizer
  cs_circuit_pin_mapper :: CircuitPinMapper
  cs_verified_circuits_a :: "addr list"
  cs_verified_circuits_b :: "addr list"
  cs_c12_pin_mapping :: "addr \<rightharpoonup> CircuitMapper"
  cs_c22_pin_mapping :: "addr \<rightharpoonup> CircuitMapper"

text \<open>One round of the loop over the circuits of the first netlist, bottom-up.\<close>

definition compare_circuit_step ::
  "heap \<Rightarrow> nat \<Rightarrow> NetlistComparer \<Rightarrow> cat_pairs \<Rightarrow> addr \<Rightarrow> compare_state \<Rightarrow> error + compare_state" where
  "compare_circuit_step h fuel nc cat2circuits c s =
     (let (ccat, circuit_categorizer) = cat_for_circuit h c (cs_circuit_categorizer s);
          s0 = s\<lparr> cs_circuit_categorizer := circuit_categorizer \<rparr>
      in case map_of cat2circuits ccat of
           None \<Rightarrow> Inl AssertionFailed
         | Some (Some ca, Some cb) \<Rightarrow>
             (let net_identity = (case m_same_nets nc (Some ca, Some cb) of
                                    None \<Rightarrow> [] | Some v \<Rightarrow> v)
              in bind_err (all_subcircuits_verified h ca (cs_verified_circuits_a s0))
                   (\<lambda>va.
                      bind_err (if va then all_subcircuits_verified h cb (cs_verified_circuits_b s0)
                                else Inr False)
                        (\<lambda>vb.
                           if va \<and> vb then
                             bind_err
                               (compare_circuits h fuel nc ca cb (cs_device_categorizer s0)
                                  (cs_circuit_categorizer s0) (cs_circuit_pin_mapper s0) net_identity
                                  (cs_c12_pin_mapping s0) (cs_c22_pin_mapping s0)
                                  (if mp_logger nc then cs_events s0 @ [BeginCircuit ca cb]
                                   else cs_events s0))
                               (\<lambda>r.
                                  Inr (s0\<lparr> cs_good := cs_good s0 \<and> cc_good r,
                                           cs_events :=
                                             (if mp_logger nc
                                              then st_log (cc_st r) @ [EndCircuit ca cb (cc_good r)]
                                              else st_log (cc_st r)),
                                           cs_circuit_categorizer := cc_ccat r,
                                           cs_device_categorizer := cc_dcat r,
                                           cs_circuit_pin_mapper :=
                                             derive_pin_equivalence h ca cb (cs_circuit_pin_mapper s0),
                                           cs_verified_circuits_a :=
                                             (if \<not> cc_pin_mismatch r
                                              then cs_verified_circuits_a s0 @ [ca]
                                              else cs_verified_circuits_a s0),
                                           cs_verified_circuits_b :=
                                             (if \<not> cc_pin_mismatch r
                                              then cs_verified_circuits_b s0 @ [cb]
                                              else cs_verified_circuits_b s0),
                                           cs_c12_pin_mapping := cc_c12 r,
                                           cs_c22_pin_mapping := cc_c22 r \<rparr>))
                           else if mp_logger nc then
                             Inr (s0\<lparr> cs_events := cs_events s0 @ [CircuitSkipped ca cb],
                                      cs_good := False \<rparr>)
                           else Inr s0)))
         | Some _ \<Rightarrow> Inr s0)"

text \<open>
  \<open>compare\<close>, with the logger of the comparer: whether the netlists are equivalent, and
  the events.
\<close>

definition compare ::
  "heap \<Rightarrow> nat \<Rightarrow> NetlistComparer \<Rightarrow> Netlist \<Rightarrow> Netlist \<Rightarrow> error + (bool \<times> event list)" where
  "compare h fuel nc a b =
     (let (ccat1, m1) = circuits_by_category h False (nl_circuits a) (mp_circuit_categorizer nc) [];
          (ccat2, cat2circuits) = circuits_by_category h True (nl_circuits b) ccat1 m1;
          ev0 = (if mp_logger nc then [BeginNetlist] else []);
          (dcat1, d1) = device_classes_by_category h False (nl_device_classes a)
                          (mp_device_categorizer nc) [];
          (dcat2, cat2dc) = device_classes_by_category h True (nl_device_classes b) dcat1 d1;
          ev1 = ev0 @ (if mp_logger nc
                       then map (\<lambda>e. DeviceClassMismatch (fst e) (snd e)) (unpaired_entries cat2dc)
                       else []);
          ev2 = ev1 @ (if mp_logger nc
                       then map (\<lambda>e. CircuitMismatch (fst e) (snd e)) (unpaired_entries cat2circuits)
                       else []);
          good0 = (unpaired_entries cat2dc = [] \<and> unpaired_entries cat2circuits = [])
      in bind_err
           (fold_err (compare_circuit_step h fuel nc cat2circuits) (nl_bottom_up a)
              \<lparr> cs_good = good0, cs_events = ev2, cs_circuit_categorizer = ccat2,
                cs_device_categorizer = dcat2,
                cs_circuit_pin_mapper = mp_circuit_pin_mapper nc,
                cs_verified_circuits_a = [], cs_verified_circuits_b = [],
                cs_c12_pin_mapping = Map.empty, cs_c22_pin_mapping = Map.empty \<rparr>)
           (\<lambda>s. Inr (cs_good s,
                      if mp_logger nc then cs_events s @ [EndNetlist] else cs_events s)))"

text \<open>\<open>compare\<close> with a logger given for this call (none if \<open>logger\<close> is \<open>False\<close>).\<close>

definition compare_with_logger ::
  "heap \<Rightarrow> nat \<Rightarrow> NetlistComparer \<Rightarrow> Netlist \<Rightarrow> Netlist \<Rightarrow> bool \<Rightarrow> error + (bool \<times> event list)" where
  "compare_with_logger h fuel nc a b logger = compare h fuel (nc\<lparr> mp_logger := logger \<rparr>) a b"

text \<open>
  A netlist for the comparison: the circuits \<open>inv\<close> (circuit 11) and \<open>INV\<close> (circuit 12), each
  with the two pins 0 and 1 and nothing inside, and the circuit \<open>TOP\<close> (circuit 13) with one
  subcircuit (20) that calls \<open>inv\<close>.
\<close>

definition skip_example_heap :: heap where
  "skip_example_heap =
     \<lparr> h_circuit = (\<lambda>c. if c = 13
                         then \<lparr> c_name = ''TOP'', c_pins = [], c_nets = [], c_devices = [],
                                c_subcircuits = [20], c_net_for_pin = (\<lambda>_. None) \<rparr>
                         else \<lparr> c_name = (if c = 11 then ''inv'' else ''INV''),
                                c_pins = [\<lparr> p_id = 0, p_name = ''A'' \<rparr>, \<lparr> p_id = 1, p_name = ''B'' \<rparr>],
                                c_nets = [], c_devices = [], c_subcircuits = [],
                                c_net_for_pin = (\<lambda>_. None) \<rparr>),
       h_net = (\<lambda>_. \<lparr> net_pins = [], net_terminals = [], net_subcircuit_pins = [],
                        net_is_floating = True, net_circuit = None \<rparr>),
       h_device = (\<lambda>_. \<lparr> dev_device_class = None, dev_parameter_value = (\<lambda>_. Fin 0),
                           dev_net_for_terminal = (\<lambda>_. None) \<rparr>),
       h_subcircuit = (\<lambda>_. \<lparr> sc_circuit_ref = Some 11, sc_net_for_pin = (\<lambda>_. None) \<rparr>),
       h_device_class = (\<lambda>_. \<lparr> dc_name = [], dc_kind = OtherClass,
                                 dc_terminal_definitions = [],
                                 dc_normalize_terminal_id = (\<lambda>t. t) \<rparr>),
       h_device_less = (\<lambda>_ _. False),
       h_device_equal = (\<lambda>_ _. True) \<rparr>"

definition skip_example_netlist :: Netlist where
  "skip_example_netlist =
     \<lparr> nl_circuits = [11, 12, 13], nl_device_classes = [], nl_bottom_up = [11, 12, 13] \<rparr>"

text \<open>
  What the comparison of the example goes through: the graph of a circuit without nets
  (the dummy node alone), the state of the engine with the dummy nodes of two such graphs
  paired, the pin mapping the comparison of two circuits with the pins 0 and 1 leaves,
  the categories of the three circuits, and the two pins.
\<close>

definition dummy_graph :: "addr \<Rightarrow> NetGraph" where
  "dummy_graph c = \<lparr> m_nodes = [\<lparr> mp_net = None, m_other_net_index = size_max, m_edges = [] \<rparr>], m_net_index = [None \<mapsto> 0], mp_circuit = Some c \<rparr>"

definition dummy_state :: "addr \<Rightarrow> event list \<Rightarrow> engine_state" where
  "dummy_state c evs = \<lparr> st_this = identify 0 0 (dummy_graph c), st_other = identify 0 0 (dummy_graph c), st_log = evs \<rparr>"

definition fill_two_pins :: "addr \<Rightarrow> CircuitMapper \<Rightarrow> CircuitMapper" where
  "fill_two_pins c cm = map_pin 1 1 (map_pin 0 0 (set_other c cm))"

definition skip_example_categories :: categorizer where
  "skip_example_categories = \<lparr> m_cat_by_ptr = [(11, 1), (12, 1), (13, 2)], m_cat_by_name = [''INV'' \<mapsto> 1, ''TOP'' \<mapsto> 2], m_next_cat = 2 \<rparr>"

definition pin_A :: Pin where
  "pin_A = \<lparr> p_id = 0, p_name = ''A'' \<rparr>"

definition pin_B :: Pin where
  "pin_B = \<lparr> p_id = 1, p_name = ''B'' \<rparr>"

section \<open>Declared-same circuits\<close>

text \<open>
  C1. Circuits declared the same are meant to end in one category. \<open>same_circuit\<close> only
  inserts: a circuit that has a category keeps it. After \<open>same_circuit a b\<close> and
  \<open>same_circuit b c\<close> (the circuits at addresses 1, 2 and 3) the circuits \<open>b\<close> and \<open>c\<close>
  carry the categories 1 and 2.
\<close>

theorem same_circuit_keeps_old_category:
  "m_cat_by_ptr (same_circuit 2 3 (same_circuit 1 2 new_categorizer)) = [(1, 1), (2, 1), (3, 2)]"
  by (simp add: same_circuit_def new_categorizer_def)

section \<open>The far nodes collected on the other side\<close>

text \<open>
  C2. The set of far nodes taken from the other side is meant to be cut off at two nodes.
  The loop that collects it tests \<open>count_other < 2\<close> and never increments \<open>count_other\<close>, so
  it takes the whole run: for a node with three edges of the same transition, all three
  far nodes.
\<close>

theorem collect_other_nodes_takes_three:
  "collect_other_nodes filter_example_heap three_equal_edges
     ([device_Transition 9 1 0 0], (1, Some 201)) = [1, 2, 3]"
  by (simp add: collect_other_nodes_def find_edge_def three_equal_edges_def
      transitions_less_def transitions_equal_def transition_less_def transition_equal_def
      device_Transition_def is_for_subcircuit_def size_max_def dc_equals_def dc_less_def
      filter_example_heap_def)

section \<open>The device filter\<close>

lemma dbl_less_asym: "dbl_less a b \<Longrightarrow> \<not> dbl_less b a"
  by (cases a; cases b) auto

text \<open>
  C6. The filter skips a device (returns \<open>False\<close>) exactly when its class is a resistor
  class, the resistance threshold is positive and the resistance is above it, or its class
  is a capacitor class, the capacitance threshold is positive and the capacitance is below
  it. Every other device passes; a negative resistance threshold excludes no resistor and a
  negative capacitance threshold no capacitor; and the thresholds a new comparer starts
  with (\<open>-1\<close>) exclude nothing.
\<close>

theorem filter_device_skips_exactly:
  "(filter_device h f d =
     (\<not> ((\<exists>c. dev_device_class (h_device h d) = Some c \<and>
               dc_kind (h_device_class h c) = ResistorClass \<and>
               dbl_less (Fin 0) (df_res_threshold f) \<and>
               dbl_less (df_res_threshold f) (dev_parameter_value (h_device h d) param_id_R)) \<or>
          (\<exists>c. dev_device_class (h_device h d) = Some c \<and>
               dc_kind (h_device_class h c) = CapacitorClass \<and>
               dbl_less (Fin 0) (df_cap_threshold f) \<and>
               dbl_less (dev_parameter_value (h_device h d) param_id_C) (df_cap_threshold f))))) \<and>
   (dbl_less (df_res_threshold f) (Fin 0) \<and> dev_device_class (h_device h d) = Some c \<and>
      dc_kind (h_device_class h c) = ResistorClass \<longrightarrow> filter_device h f d) \<and>
   (dbl_less (df_cap_threshold f) (Fin 0) \<and> dev_device_class (h_device h d) = Some c \<and>
      dc_kind (h_device_class h c) = CapacitorClass \<longrightarrow> filter_device h f d) \<and>
   filter_device h (device_filter_of (new_NetlistComparer lg)) d"
  by (auto simp: filter_device_def device_filter_of_def new_NetlistComparer_def Let_def
      split: option.splits dest: dbl_less_asym)

text \<open>
  The filter of the example skips the resistor of 100 Ohm (threshold 50) and, its
  capacitance threshold being negative, lets the capacitor pass.
\<close>

theorem filter_device_skips_exactly_witness:
  "dbl_less (df_cap_threshold filter_example) (Fin 0) \<and>
   dev_device_class (h_device filter_example_heap 2) = Some 11 \<and>
   dc_kind (h_device_class filter_example_heap 11) = CapacitorClass \<and>
   filter_device filter_example_heap filter_example 2 \<and>
   \<not> filter_device filter_example_heap filter_example 1"
proof -
  have cap: "dbl_less (df_cap_threshold filter_example) (Fin 0) \<and>
      dev_device_class (h_device filter_example_heap 2) = Some 11 \<and>
      dc_kind (h_device_class filter_example_heap 11) = CapacitorClass"
    by (simp add: filter_example_def filter_example_heap_def)
  have pass: "filter_device filter_example_heap filter_example 2"
    using filter_device_skips_exactly [of filter_example_heap filter_example 2 11] cap by blast
  have skip: "\<not> filter_device filter_example_heap filter_example 1"
    by (simp add: filter_device_def filter_example_def filter_example_heap_def param_id_R_def)
  from cap pass skip show ?thesis by blast
qed

section \<open>Subcircuit pins of callees without a mapper\<close>

text \<open>
  C7, as stated, fails both ways. Circuit 10 has exactly one pin and no \<open>CircuitMapper\<close>
  entry; its pin is attached to a net inside, and the subcircuit pin is skipped: no edge is
  added. Circuit 11 has two pins and no entry either; its pin 0 has no net inside, and the
  subcircuit pin gets a transition to the null net.
\<close>

theorem single_pin_callee_without_mapper_is_skipped:
  "length (c_pins (h_circuit callee_example_heap 10)) = 1 \<and>
   (case subcircuit_pin_edges callee_example_heap Map.empty new_CircuitPinMapper (1, 0)
           (new_categorizer, (Map.empty, [])) of
      Inl e \<Rightarrow> None | Inr st \<Rightarrow> Some (snd (snd st))) = Some [] \<and>
   length (c_pins (h_circuit callee_example_heap 11)) = 2 \<and>
   (case subcircuit_pin_edges callee_example_heap Map.empty new_CircuitPinMapper (2, 0)
           (new_categorizer, (Map.empty, [])) of
      Inl e \<Rightarrow> None | Inr st \<Rightarrow> Some (snd (snd st)))
     = Some [([subcircuit_Transition 2 1 0 0], (0, None))]"
  by (simp add: callee_example_heap_def subcircuit_pin_edges_def cat_for_subcircuit_def
      cat_for_circuit_def cat_for_named_def new_categorizer_def add_transition_def)

text \<open>
  C7, amended. For a subcircuit pin whose callee has no \<open>CircuitMapper\<close> entry, what decides
  is whether the callee has a net on that pin. If it has one, the pin is skipped: the edges
  and the categorizer stay as they are. If it has none, the transition
  \<open>(sc, category of sc, pin, pin)\<close> is added to the edge that leads to the null net.
\<close>

theorem callee_without_mapper:
  "sc_circuit_ref (h_subcircuit h sc) = Some cr \<Longrightarrow> circuit_map cr = None \<Longrightarrow>
   subcircuit_pin_edges h circuit_map pin_map (sc, pin_id) (ccat, acc) =
     (if c_net_for_pin (h_circuit h cr) pin_id = None
      then Inr (snd (cat_for_subcircuit h sc ccat),
                add_transition None
                  (subcircuit_Transition sc (fst (cat_for_subcircuit h sc ccat)) pin_id pin_id) acc)
      else Inr (ccat, acc))"
  by (simp add: subcircuit_pin_edges_def split: prod.splits)

theorem callee_without_mapper_witness:
  "sc_circuit_ref (h_subcircuit callee_example_heap 2) = Some 11 \<and>
   (Map.empty :: addr \<rightharpoonup> CircuitMapper) 11 = None \<and>
   c_net_for_pin (h_circuit callee_example_heap 11) 0 = None \<and>
   subcircuit_pin_edges callee_example_heap Map.empty new_CircuitPinMapper (2, 0)
       (new_categorizer, (Map.empty, []))
     = Inr (snd (cat_for_subcircuit callee_example_heap 2 new_categorizer),
            add_transition None
              (subcircuit_Transition 2 (fst (cat_for_subcircuit callee_example_heap 2 new_categorizer))
                 0 0) (Map.empty, []))"
proof -
  have ref: "sc_circuit_ref (h_subcircuit callee_example_heap 2) = Some 11"
    by (simp add: callee_example_heap_def)
  have none: "(Map.empty :: addr \<rightharpoonup> CircuitMapper) 11 = None"
    by simp
  have float: "c_net_for_pin (h_circuit callee_example_heap 11) 0 = None"
    by (simp add: callee_example_heap_def)
  from callee_without_mapper [OF ref none, of new_CircuitPinMapper 0 new_categorizer "(Map.empty, [])"]
    ref float
  show ?thesis by simp
qed

section \<open>A skipped circuit pair\<close>

text \<open>
  The comparison of the example netlist with itself, step by step. The circuits \<open>inv\<close> and
  \<open>INV\<close> share a category, whose entry holds \<open>INV\<close> on both sides; \<open>INV\<close> is compared with itself
  twice, \<open>inv\<close> never, and \<open>TOP\<close>, which calls \<open>inv\<close>, is skipped.
\<close>

lemma skip_leaf_circuit:
  "c \<noteq> 13 \<Longrightarrow> c_pins (h_circuit skip_example_heap c) = [\<lparr> p_id = 0, p_name = ''A'' \<rparr>, \<lparr> p_id = 1, p_name = ''B'' \<rparr>]"
  "c \<noteq> 13 \<Longrightarrow> c_nets (h_circuit skip_example_heap c) = []"
  "c \<noteq> 13 \<Longrightarrow> c_devices (h_circuit skip_example_heap c) = []"
  "c \<noteq> 13 \<Longrightarrow> c_subcircuits (h_circuit skip_example_heap c) = []"
  "c \<noteq> 13 \<Longrightarrow> c_net_for_pin (h_circuit skip_example_heap c) p = None"
  by (simp_all add: skip_example_heap_def)

lemma skip_build_leaf: "c \<noteq> 13 \<Longrightarrow> build skip_example_heap c dcat ccat f cm pm = Inr (dummy_graph c, dcat, ccat)"
  by (simp add: dummy_graph_def build_def new_NetGraphNode_def bind_err_def skip_leaf_circuit sort_by_def apply_net_index_def pmap_insert_def)

lemma skip_size_max_pos: "0 \<noteq> size_max" by (simp add: size_max_def)

lemma skip_pair_leaf: "c \<noteq> 13 \<Longrightarrow> pair_nodes skip_example_heap (Suc fuel) nc c c dcat ccat pm [] c12 c22 evs
   = Inr (True, dcat, ccat, dummy_state c evs)"
  by (simp add: pair_nodes_def skip_build_leaf bind_err_def dummy_graph_def identify_def set_other_net_def
      has_other_def node_def unpaired_nodes_def skip_size_max_pos dummy_state_def)

lemma skip_missing_leaf: "report_missing_nets lg (dummy_state c evs) = dummy_state c evs"
  by (simp add: report_missing_nets_def dummy_state_def dummy_graph_def identify_def set_other_net_def has_other_def skip_size_max_pos)

lemma skip_pins_leaf:
  "c \<noteq> 13 \<Longrightarrow> report_pins skip_example_heap False c c s =
     Inr (s\<lparr> cc_c12 := (cc_c12 s)(c \<mapsto> fill_two_pins c (mapper_entry (cc_c12 s) c)),
             cc_c22 := (cc_c22 s)(c \<mapsto> fill_two_pins c (mapper_entry (cc_c22 s) c)) \<rparr>)"
  by (simp add: report_pins_def skip_leaf_circuit bind_err_def cc_emit_def emit_def mapper_entry_def fill_two_pins_def)

lemma skip_devices_leaf: "c \<noteq> 13 \<Longrightarrow> report_devices skip_example_heap lg f c c s = Inr s"
  by (simp add: report_devices_def skip_leaf_circuit bind_err_def)

lemma skip_subcircuits_leaf: "c \<noteq> 13 \<Longrightarrow> report_subcircuits skip_example_heap False pm c c s = Inr s"
  by (simp add: report_subcircuits_def skip_leaf_circuit bind_err_def)

lemma skip_cc_leaf:
  "c \<noteq> 13 \<Longrightarrow> \<not> mp_logger nc \<Longrightarrow>
   compare_circuits skip_example_heap (Suc fuel) nc c c dcat ccat pm [] c12 c22 evs
   = Inr \<lparr> cc_st = dummy_state c evs,
           cc_good = True, cc_pin_mismatch = False,
           cc_c12 = c12(c \<mapsto> fill_two_pins c (mapper_entry c12 c)), cc_c22 = c22(c \<mapsto> fill_two_pins c (mapper_entry c22 c)),
           cc_dcat = dcat, cc_ccat = ccat \<rparr>"
  by (simp add: compare_circuits_def skip_pair_leaf bind_err_def skip_missing_leaf skip_pins_leaf skip_devices_leaf skip_subcircuits_leaf)

lemma skip_upper: "to_upper_case ''inv'' = ''INV''" "to_upper_case ''INV'' = ''INV''" "to_upper_case ''TOP'' = ''TOP''"
  by code_simp+

lemma skip_names: "c_name (h_circuit skip_example_heap 11) = ''inv''" "c_name (h_circuit skip_example_heap 12) = ''INV''"
  "c_name (h_circuit skip_example_heap 13) = ''TOP''"
  by (simp_all add: skip_example_heap_def)

lemma skip_cats_a: "circuits_by_category skip_example_heap False [11, 12, 13] new_categorizer [] =
   (skip_example_categories, [(1, (Some 12, None)), (2, (Some 13, None))])"
  by (simp add: cat_for_circuit_def cat_for_named_def skip_names skip_upper new_categorizer_def cat_entry_def skip_example_categories_def numeral_2_eq_2)

lemma skip_cat_final: "cat_for_circuit skip_example_heap 11 skip_example_categories = (1, skip_example_categories)"
  "cat_for_circuit skip_example_heap 12 skip_example_categories = (1, skip_example_categories)"
  "cat_for_circuit skip_example_heap 13 skip_example_categories = (2, skip_example_categories)"
  by (simp_all add: cat_for_circuit_def cat_for_named_def skip_example_categories_def)

lemma skip_cats_b: "circuits_by_category skip_example_heap True [11, 12, 13] skip_example_categories [(1, (Some 12, None)), (2, (Some 13, None))] =
   (skip_example_categories, [(1, (Some 12, Some 12)), (2, (Some 13, Some 13))])"
  by (simp add: skip_cat_final cat_entry_def)

lemma skip_verified_top: "13 \<notin> set v \<Longrightarrow> 11 \<notin> set v \<Longrightarrow> all_subcircuits_verified skip_example_heap 13 v = Inr False"
  by (simp add: all_subcircuits_verified_def skip_example_heap_def)

lemma skip_verified_leaf: "c \<noteq> 13 \<Longrightarrow> all_subcircuits_verified skip_example_heap c v = Inr True"
  by (simp add: all_subcircuits_verified_def skip_leaf_circuit)

lemma skip_step_leaf:
  "c = 11 \<or> c = 12 \<Longrightarrow> cs_circuit_categorizer s = skip_example_categories \<Longrightarrow> \<not> mp_logger nc \<Longrightarrow> m_same_nets nc = Map.empty \<Longrightarrow>
   compare_circuit_step skip_example_heap (Suc fuel) nc [(1, (Some 12, Some 12)), (2, (Some 13, Some 13))] c s
   = Inr (s\<lparr> cs_circuit_pin_mapper := derive_pin_equivalence skip_example_heap 12 12 (cs_circuit_pin_mapper s),
             cs_verified_circuits_a := cs_verified_circuits_a s @ [12],
             cs_verified_circuits_b := cs_verified_circuits_b s @ [12],
             cs_c12_pin_mapping := (cs_c12_pin_mapping s)(12 \<mapsto> fill_two_pins 12 (mapper_entry (cs_c12_pin_mapping s) 12)),
             cs_c22_pin_mapping := (cs_c22_pin_mapping s)(12 \<mapsto> fill_two_pins 12 (mapper_entry (cs_c22_pin_mapping s) 12)) \<rparr>)"
  apply (erule disjE)
   apply (simp_all add: compare_circuit_step_def skip_cat_final skip_verified_leaf bind_err_def skip_cc_leaf dummy_state_def)
  done

lemma skip_step_top:
  "cs_circuit_categorizer s = skip_example_categories \<Longrightarrow> 11 \<notin> set (cs_verified_circuits_a s) \<Longrightarrow> 13 \<notin> set (cs_verified_circuits_a s) \<Longrightarrow>
   \<not> mp_logger nc \<Longrightarrow>
   compare_circuit_step skip_example_heap fuel nc [(1, (Some 12, Some 12)), (2, (Some 13, Some 13))] 13 s
   = Inr s"
  by (simp add: compare_circuit_step_def skip_cat_final skip_verified_top bind_err_def)

lemma skip_compare_skip: "compare skip_example_heap (Suc fuel) (new_NetlistComparer False) skip_example_netlist skip_example_netlist = Inr (True, [])"
proof -
  have nc: "\<not> mp_logger (new_NetlistComparer False)" "m_same_nets (new_NetlistComparer False) = Map.empty"
    "mp_circuit_categorizer (new_NetlistComparer False) = new_categorizer"
    by (simp_all add: new_NetlistComparer_def)
  show ?thesis
    by (simp add: compare_def skip_example_netlist_def nc skip_cats_a skip_cats_b unpaired_entries_def
        skip_step_leaf skip_step_top bind_err_def del: circuits_by_category.simps One_nat_def)
qed

lemma skip_pins_leaf_log:
  "c \<noteq> 13 \<Longrightarrow> report_pins skip_example_heap True c c s =
     Inr (s\<lparr> cc_st := (cc_st s)\<lparr> st_log := st_log (cc_st s) @ [MatchPins (Some pin_A) (Some pin_A), MatchPins (Some pin_B) (Some pin_B)] \<rparr>,
             cc_c12 := (cc_c12 s)(c \<mapsto> fill_two_pins c (mapper_entry (cc_c12 s) c)),
             cc_c22 := (cc_c22 s)(c \<mapsto> fill_two_pins c (mapper_entry (cc_c22 s) c)) \<rparr>)"
  by (simp add: report_pins_def skip_leaf_circuit bind_err_def cc_emit_def emit_def mapper_entry_def fill_two_pins_def pin_A_def pin_B_def)

lemma skip_subcircuits_leaf_log: "c \<noteq> 13 \<Longrightarrow> report_subcircuits skip_example_heap True pm c c s = Inr s"
  by (simp add: report_subcircuits_def skip_leaf_circuit bind_err_def report_unmatched_def sort_by_def)

lemma skip_dummy_state_log: "(dummy_state c evs)\<lparr> st_log := x \<rparr> = dummy_state c x" "st_log (dummy_state c evs) = evs"
  by (simp_all add: dummy_state_def)

lemma skip_cc_leaf_log:
  "c \<noteq> 13 \<Longrightarrow> mp_logger nc \<Longrightarrow>
   compare_circuits skip_example_heap (Suc fuel) nc c c dcat ccat pm [] c12 c22 evs
   = Inr \<lparr> cc_st = dummy_state c (evs @ [MatchPins (Some pin_A) (Some pin_A), MatchPins (Some pin_B) (Some pin_B)]),
           cc_good = True, cc_pin_mismatch = False,
           cc_c12 = c12(c \<mapsto> fill_two_pins c (mapper_entry c12 c)), cc_c22 = c22(c \<mapsto> fill_two_pins c (mapper_entry c22 c)),
           cc_dcat = dcat, cc_ccat = ccat \<rparr>"
  by (simp add: compare_circuits_def skip_pair_leaf bind_err_def skip_missing_leaf skip_pins_leaf_log skip_devices_leaf skip_subcircuits_leaf_log skip_dummy_state_log)

lemma skip_step_leaf_log:
  "c = 11 \<or> c = 12 \<Longrightarrow> cs_circuit_categorizer s = skip_example_categories \<Longrightarrow> mp_logger nc \<Longrightarrow> m_same_nets nc = Map.empty \<Longrightarrow>
   compare_circuit_step skip_example_heap (Suc fuel) nc [(1, (Some 12, Some 12)), (2, (Some 13, Some 13))] c s
   = Inr (s\<lparr> cs_events := cs_events s @ [BeginCircuit 12 12, MatchPins (Some pin_A) (Some pin_A), MatchPins (Some pin_B) (Some pin_B), EndCircuit 12 12 True],
             cs_circuit_pin_mapper := derive_pin_equivalence skip_example_heap 12 12 (cs_circuit_pin_mapper s),
             cs_verified_circuits_a := cs_verified_circuits_a s @ [12],
             cs_verified_circuits_b := cs_verified_circuits_b s @ [12],
             cs_c12_pin_mapping := (cs_c12_pin_mapping s)(12 \<mapsto> fill_two_pins 12 (mapper_entry (cs_c12_pin_mapping s) 12)),
             cs_c22_pin_mapping := (cs_c22_pin_mapping s)(12 \<mapsto> fill_two_pins 12 (mapper_entry (cs_c22_pin_mapping s) 12)) \<rparr>)"
  apply (erule disjE)
   apply (simp_all add: compare_circuit_step_def skip_cat_final skip_verified_leaf bind_err_def skip_cc_leaf_log skip_dummy_state_log)
  done

lemma skip_step_top_log:
  "cs_circuit_categorizer s = skip_example_categories \<Longrightarrow> 11 \<notin> set (cs_verified_circuits_a s) \<Longrightarrow> 13 \<notin> set (cs_verified_circuits_a s) \<Longrightarrow>
   mp_logger nc \<Longrightarrow>
   compare_circuit_step skip_example_heap fuel nc [(1, (Some 12, Some 12)), (2, (Some 13, Some 13))] 13 s
   = Inr (s\<lparr> cs_events := cs_events s @ [CircuitSkipped 13 13], cs_good := False \<rparr>)"
  by (simp add: compare_circuit_step_def skip_cat_final skip_verified_top bind_err_def)

lemma skip_compare_skip_log: "compare skip_example_heap (Suc fuel) (new_NetlistComparer True) skip_example_netlist skip_example_netlist
   = Inr (False, [BeginNetlist,
       BeginCircuit 12 12, MatchPins (Some pin_A) (Some pin_A), MatchPins (Some pin_B) (Some pin_B), EndCircuit 12 12 True,
       BeginCircuit 12 12, MatchPins (Some pin_A) (Some pin_A), MatchPins (Some pin_B) (Some pin_B), EndCircuit 12 12 True,
       CircuitSkipped 13 13, EndNetlist])"
proof -
  have nc: "mp_logger (new_NetlistComparer True)" "m_same_nets (new_NetlistComparer True) = Map.empty"
    "mp_circuit_categorizer (new_NetlistComparer True) = new_categorizer"
    by (simp_all add: new_NetlistComparer_def)
  show ?thesis
    by (simp add: compare_def skip_example_netlist_def nc skip_cats_a skip_cats_b unpaired_entries_def
        skip_step_leaf_log skip_step_top_log bind_err_def del: circuits_by_category.simps One_nat_def)
qed

text \<open>
  C8. A circuit pair that is skipped is meant to make \<open>compare\<close> return false. The code
  sets \<open>good = false\<close> for a skipped pair inside \<open>if (mp_logger)\<close>. For the example netlist
  compared with itself the pair of the \<open>TOP\<close> circuits is skipped: with a logger the result
  is false and the log has \<open>circuit_skipped\<close>, with no logger the result is true.
\<close>

theorem compare_without_logger_ignores_skip:
  "compare_with_logger skip_example_heap (Suc fuel) (new_NetlistComparer False)
     skip_example_netlist skip_example_netlist False = Inr (True, []) \<and>
   compare_with_logger skip_example_heap (Suc fuel) (new_NetlistComparer False)
     skip_example_netlist skip_example_netlist True =
     Inr (False, [BeginNetlist,
       BeginCircuit 12 12, MatchPins (Some pin_A) (Some pin_A), MatchPins (Some pin_B) (Some pin_B),
       EndCircuit 12 12 True,
       BeginCircuit 12 12, MatchPins (Some pin_A) (Some pin_A), MatchPins (Some pin_B) (Some pin_B),
       EndCircuit 12 12 True,
       CircuitSkipped 13 13, EndNetlist])"
proof -
  have "(new_NetlistComparer False)\<lparr> mp_logger := False \<rparr> = new_NetlistComparer False"
    "(new_NetlistComparer False)\<lparr> mp_logger := True \<rparr> = new_NetlistComparer True"
    by (simp_all add: new_NetlistComparer_def)
  then show ?thesis
    by (simp add: compare_with_logger_def skip_compare_skip skip_compare_skip_log)
qed

section \<open>Declared-same device classes\<close>

text \<open>
  C9. The joining loop of \<open>same_class\<close> reads the category to replace through the
  iterator of \<open>cb\<close>, an entry the loop itself rewrites; the entries behind \<open>cb\<close> in the map
  are compared with the new category and stay as they are. With the classes \<open>a\<close>, \<open>b\<close>, \<open>c\<close>
  at the addresses 1, 2, 3: \<open>a\<close> gets its category by name, \<open>same_class b c\<close>, then
  \<open>same_class a b\<close> leave \<open>c\<close> in category 2 while \<open>a\<close> and \<open>b\<close> are in category 1.
\<close>

theorem same_class_join_stops_at_cb:
  "m_cat_by_ptr
     (same_class 1 2 (same_class 2 3 (snd (cat_for_device_class h 1 new_categorizer))))
   = [(1, 1), (2, 1), (3, 2)]"
  by (simp add: same_class_def cat_for_device_class_def cat_for_named_def new_categorizer_def
      join_step_def)

section \<open>Short pin lists\<close>

text \<open>
  C10. \<open>equivalent_pins\<close> with fewer than two pin ids leaves the pin mapper as it was: the
  mapper of the comparer is the same value afterwards, so \<open>normalize_pin_id\<close> and \<open>is_mapped\<close>
  answer as before for every circuit and every pin.
\<close>

theorem equivalent_pins_short_list_unchanged:
  "length pin_ids < 2 \<Longrightarrow>
     mp_circuit_pin_mapper (equivalent_pins cb pin_ids nc) = mp_circuit_pin_mapper nc \<and>
     (\<forall>c p. normalize_pin_id (mp_circuit_pin_mapper (equivalent_pins cb pin_ids nc)) c p
              = normalize_pin_id (mp_circuit_pin_mapper nc) c p \<and>
            is_mapped (mp_circuit_pin_mapper (equivalent_pins cb pin_ids nc)) c p
              = is_mapped (mp_circuit_pin_mapper nc) c p)"
  by (simp add: equivalent_pins_def map_pins_def)

text \<open>
  On a comparer where the pins 3 and 5 of circuit 1 are equivalent, a list with the one pin
  5 changes nothing: pin 5 still stands for pin 3, in circuit 1 as before.
\<close>

theorem equivalent_pins_short_list_unchanged_witness:
  "length [5::nat] < 2 \<and>
   normalize_pin_id
     (mp_circuit_pin_mapper
        (equivalent_pins 1 [5] (equivalent_pins 1 [3, 5] (new_NetlistComparer False)))) 1 5 = 3 \<and>
   mp_circuit_pin_mapper
     (equivalent_pins 1 [5] (equivalent_pins 1 [3, 5] (new_NetlistComparer False)))
   = mp_circuit_pin_mapper (equivalent_pins 1 [3, 5] (new_NetlistComparer False))"
proof -
  have short: "length [5::nat] < 2" by simp
  have before: "normalize_pin_id
      (mp_circuit_pin_mapper (equivalent_pins 1 [3, 5] (new_NetlistComparer False))) 1 5 = 3"
    by (simp add: equivalent_pins_def map_pins_def new_NetlistComparer_def
        new_CircuitPinMapper_def pin_map_entry_def same_def cluster_id_def
        normalize_pin_id_def begin_cluster_def insort_insert_key_def)
  from equivalent_pins_short_list_unchanged [OF short, of 1 "equivalent_pins 1 [3, 5] (new_NetlistComparer False)"]
    before short
  show ?thesis by simp
qed

section \<open>The tentative mode of the engine\<close>

subsection \<open>Pairing and unpairing a node\<close>

lemma length_identify [simp]: "length (m_nodes (identify a b g)) = length (m_nodes g)"
  by (simp add: identify_def)

lemma length_unidentify [simp]: "length (m_nodes (unidentify a g)) = length (m_nodes g)"
  by (simp add: unidentify_def)

lemma net_index_identify [simp]: "m_net_index (identify a b g) = m_net_index g"
  by (simp add: identify_def)

lemma net_index_unidentify [simp]: "m_net_index (unidentify a g) = m_net_index g"
  by (simp add: unidentify_def)

lemma node_identify:
  "k < length (m_nodes g) \<Longrightarrow>
   node (identify a b g) k = (if k = a then set_other_net b (node g k) else node g k)"
  by (simp add: identify_def node_def)

lemma node_unidentify:
  "k < length (m_nodes g) \<Longrightarrow>
   node (unidentify a g) k = (if k = a then unset_other_net (node g k) else node g k)"
  by (simp add: unidentify_def node_def)

lemma set_other_net_simps [simp]:
  "mp_net (set_other_net b n) = mp_net n"
  "m_edges (set_other_net b n) = m_edges n"
  "m_other_net_index (set_other_net b n) = b"
  by (simp_all add: set_other_net_def)

lemma unset_other_net_simps [simp]:
  "mp_net (unset_other_net n) = mp_net n"
  "m_edges (unset_other_net n) = m_edges n"
  "m_other_net_index (unset_other_net n) = size_max"
  "unset_other_net (set_other_net b n) = unset_other_net n"
  "unset_other_net (unset_other_net n) = unset_other_net n"
  by (simp_all add: unset_other_net_def set_other_net_def)

lemma unset_other_net_id: "\<not> has_other n \<Longrightarrow> unset_other_net n = n"
  by (simp add: unset_other_net_def has_other_def)

lemma unidentify_identify: "unidentify a (identify a b g) = unidentify a g"
  by (cases "a < length (m_nodes g)") (simp_all add: unidentify_def identify_def not_less list_update_beyond)

lemma unidentify_id:
  "a < length (m_nodes g) \<longrightarrow> \<not> has_other (node g a) \<Longrightarrow> unidentify a g = g"
  by (cases "a < length (m_nodes g)")
    (simp_all add: unidentify_def node_def unset_other_net_id not_less list_update_beyond)

lemma unidentify_commute: "unidentify a (unidentify b g) = unidentify b (unidentify a g)"
  by (cases "a = b") (simp_all add: unidentify_def list_update_swap)

lemma unidentify_idem: "unidentify a (unidentify a g) = unidentify a g"
  by (cases "a < length (m_nodes g)") (simp_all add: unidentify_def not_less list_update_beyond)

lemma graph_consistent_iff:
  "graph_consistent g \<longleftrightarrow>
     length (m_nodes g) \<le> size_max \<and>
     (\<forall>k < length (m_nodes g).
        m_net_index g (mp_net (node g k)) = Some k \<and>
        (\<forall>e \<in> set (m_edges (node g k)). fst (snd e) < length (m_nodes g)))"
  by (auto simp: graph_consistent_def list_all_iff)

lemma graph_consistent_identify [simp]:
  "graph_consistent (identify a b g) = graph_consistent g"
  by (auto simp: graph_consistent_iff node_identify)

lemma graph_consistent_unidentify [simp]:
  "graph_consistent (unidentify a g) = graph_consistent g"
  by (auto simp: graph_consistent_iff node_unidentify)

lemma node_index_consistent:
  "graph_consistent g \<Longrightarrow> k < length (m_nodes g) \<Longrightarrow>
   node_index_for_net g (mp_net (node g k)) = Inr k"
  by (simp add: graph_consistent_iff node_index_for_net_def)

lemma edge_index_consistent:
  "graph_consistent g \<Longrightarrow> k < length (m_nodes g) \<Longrightarrow> e \<in> set (m_edges (node g k)) \<Longrightarrow>
   fst (snd e) < length (m_nodes g)"
  by (simp add: graph_consistent_iff)

subsection \<open>The destructor\<close>

lemma undo_Nil [simp]: "undo [] st = st"
  by (simp add: undo_def)

lemma undo_Cons:
  "undo (p # tn) st =
     undo tn (st\<lparr> st_this := unidentify (fst p) (st_this st),
                  st_other := unidentify (snd p) (st_other st) \<rparr>)"
  by (simp add: undo_def)

lemma undo_append: "undo (xs @ ys) st = undo ys (undo xs st)"
  by (simp add: undo_def)

lemma undo_parts:
  "st_this (undo tn st) = fold unidentify (map fst tn) (st_this st) \<and>
   st_other (undo tn st) = fold unidentify (map snd tn) (st_other st) \<and>
   st_log (undo tn st) = st_log st"
  by (induction tn arbitrary: st) (simp_all add: undo_Cons)

lemma fold_unidentify_commute:
  "fold unidentify xs (unidentify a g) = unidentify a (fold unidentify xs g)"
proof (induction xs arbitrary: g)
  case Nil
  show ?case by simp
next
  case (Cons x xs)
  have "unidentify x (unidentify a g) = unidentify a (unidentify x g)"
    by (rule unidentify_commute)
  then show ?case
    by (simp add: Cons.IH)
qed

lemma undo_single_commute: "undo [p] (undo tn st) = undo tn (undo [p] st)"
  by (rule engine_state.equality) (simp_all add: undo_parts fold_unidentify_commute)

lemma undo_commute: "undo xs (undo ys st) = undo ys (undo xs st)"
proof (induction xs arbitrary: st)
  case Nil
  show ?case by simp
next
  case (Cons p xs)
  have "undo (p # xs) (undo ys st) = undo xs (undo [p] (undo ys st))"
    by (simp add: undo_Cons)
  also have "\<dots> = undo xs (undo ys (undo [p] st))"
    by (simp only: undo_single_commute)
  also have "\<dots> = undo ys (undo xs (undo [p] st))"
    by (rule Cons.IH)
  finally show ?case by (simp add: undo_Cons)
qed

lemma undo_append_rev: "undo (xs @ ys) st = undo xs (undo ys st)"
  by (simp add: undo_append undo_commute)

lemma length_undo [simp]:
  "length (m_nodes (st_this (undo tn st))) = length (m_nodes (st_this st))"
  "length (m_nodes (st_other (undo tn st))) = length (m_nodes (st_other st))"
  by (induction tn arbitrary: st) (simp_all add: undo_Cons)

lemma graphs_consistent_undo [simp]: "graphs_consistent (undo tn st) = graphs_consistent st"
  by (induction tn arbitrary: st) (simp_all add: undo_Cons graphs_consistent_def)

lemma map_pair_state:
  "snd (map_pair nm a b st) =
     st\<lparr> st_this := identify a b (st_this st), st_other := identify b a (st_other st) \<rparr>"
  "fst (map_pair (Some tn) a b st) = Some (tn @ [(a, b)])"
  "fst (map_pair None a b st) = None"
  by (simp_all add: map_pair_def keep_def)

lemma undo_map_pair:
  assumes "a < length (m_nodes (st_this st)) \<longrightarrow> \<not> has_other (node (st_this st) a)"
    and "b < length (m_nodes (st_other st)) \<longrightarrow> \<not> has_other (node (st_other st) b)"
  shows "undo [(a, b)] (snd (map_pair nm a b st)) = st"
  using assms
  by (simp add: undo_Cons map_pair_state unidentify_identify unidentify_id)

lemma rolled_back_refl: "rolled_back (Some tn, st) tn st"
  by (simp add: rolled_back_def)

lemma rolled_back_trans:
  assumes "rolled_back r1 tn st" and "fst r1 = Some tn1" and "rolled_back r2 tn1 (snd r1)"
  shows "rolled_back r2 tn st"
proof -
  from assms(1,2) obtain a1 where a1: "tn1 = tn @ a1" "undo a1 (snd r1) = st"
    by (auto simp: rolled_back_def)
  from assms(3) obtain a2 where a2: "fst r2 = Some (tn1 @ a2)" "undo a2 (snd r2) = snd r1"
    by (auto simp: rolled_back_def)
  have "undo (a1 @ a2) (snd r2) = st"
    using a1 a2 by (simp add: undo_append_rev)
  with a1 a2 show ?thesis
    by (auto simp: rolled_back_def intro!: exI [of _ "a1 @ a2"])
qed

lemma rolled_back_consistent:
  "rolled_back r tn st \<Longrightarrow>
   graphs_consistent (snd r) = graphs_consistent st \<and>
   length (m_nodes (st_this (snd r))) = length (m_nodes (st_this st)) \<and>
   length (m_nodes (st_other (snd r))) = length (m_nodes (st_other st))"
  by (auto simp: rolled_back_def)

subsection \<open>Where the node vectors come from\<close>

lemma set_insert_by [simp]: "set (insert_by lt x xs) = insert x (set xs)"
  by (induction xs) auto

lemma set_sort_by [simp]: "set (sort_by lt xs) = set xs"
  by (induction xs) (simp_all add: sort_by_def)

lemma length_insert_by [simp]: "length (insert_by lt x xs) = Suc (length xs)"
  by (induction xs) auto

lemma length_sort_by [simp]: "length (sort_by lt xs) = length xs"
  by (induction xs) (simp_all add: sort_by_def)

lemma set_sort_nodes [simp]: "set (sort_nodes h g ns) = set ns"
  by (simp add: sort_nodes_def)

lemma edge_runs_subset:
  "r \<in> set (edge_runs h es) \<Longrightarrow> r \<noteq> [] \<and> set r \<subseteq> set es"
proof (induction h es rule: edge_runs.induct)
  case (1 h)
  then show ?case by simp
next
  case (2 h e es)
  show ?case
  proof (cases "r = e # takeWhile (\<lambda>ee. transitions_equal h (fst ee) (fst e)) es")
    case True
    then show ?thesis
      by (auto dest: set_takeWhileD)
  next
    case False
    with 2 have "r \<noteq> [] \<and> set r \<subseteq> set (dropWhile (\<lambda>ee. transitions_equal h (fst ee) (fst e)) es)"
      by simp
    then show ?thesis
      by (auto dest: set_dropWhileD)
  qed
qed

lemma lower_bound_le: "lower_bound h es edge i \<le> i + length es"
proof (induction es arbitrary: i)
  case Nil
  show ?case by simp
next
  case (Cons e es)
  from Cons [of "Suc i"] show ?case by simp
qed

lemma lower_bound_ge: "i \<le> lower_bound h es edge i"
  by (induction es arbitrary: i) (auto simp: Suc_leD)

lemma find_edge_less: "find_edge h n edge = Some k \<Longrightarrow> k < length (m_edges n)"
  using lower_bound_le [of h "m_edges n" edge 0]
  by (auto simp: find_edge_def Let_def split: if_splits)

lemma collect_while_count_subset:
  "set (collect_while_count run c) \<subseteq> (\<lambda>e. fst (snd e)) ` set run"
  by (induction run) auto

lemma collect_other_nodes_subset:
  "set (collect_other_nodes h nother e) \<subseteq> (\<lambda>e. fst (snd e)) ` set (m_edges nother)"
proof (cases "find_edge h nother (fst e)")
  case None
  then show ?thesis by (simp add: collect_other_nodes_def)
next
  case (Some k)
  let ?eo = "m_edges nother ! k"
  let ?run = "?eo # takeWhile (\<lambda>ee. transitions_equal h (fst ee) (fst ?eo)) (drop (Suc k) (m_edges nother))"
  have "k < length (m_edges nother)"
    using Some by (rule find_edge_less)
  then have "set ?run \<subseteq> set (m_edges nother)"
    by (auto dest!: set_takeWhileD in_set_dropD)
  moreover have "set (collect_other_nodes h nother e) \<subseteq> (\<lambda>e. fst (snd e)) ` set ?run"
    using Some collect_while_count_subset [of ?run 0]
    by (simp add: collect_other_nodes_def Let_def)
  ultimately show ?thesis
    by blast
qed

lemma skip_leading_subset:
  "skip_leading st xs ys = (r1, r2) \<Longrightarrow> set r1 \<subseteq> set xs \<and> set r2 \<subseteq> set ys"
  by (induction st xs ys rule: skip_leading.induct) (auto split: if_splits)

lemma extend_range_subset:
  "extend_range h st a b xs ys num r1 r2 = (num', r1', xs', r2', ys') \<Longrightarrow>
   set r1' \<subseteq> set r1 \<union> set xs \<and> set r2' \<subseteq> set r2 \<union> set ys \<and>
   set xs' \<subseteq> set xs \<and> set ys' \<subseteq> set ys"
  by (induction h st a b xs ys num r1 r2 rule: extend_range.induct)
    (auto split: if_splits)

lemma collect_ranges_subset:
  "collect_ranges h st t w xs ys = Some nrs \<Longrightarrow> nr \<in> set nrs \<Longrightarrow>
   set (fst (snd nr)) \<subseteq> set xs \<and> set (snd (snd nr)) \<subseteq> set ys"
proof (induction h st t w xs ys arbitrary: nrs rule: collect_ranges.induct)
  case (1 h st t w ys)
  then show ?case by simp
next
  case (2 h st t w x xs)
  then show ?case by simp
next
  case (3 h st t w x xs y ys)
  show ?case
  proof (cases "has_other (node (st_this st) x)")
    case True
    with 3 show ?thesis by auto
  next
    case nx: False
    show ?thesis
    proof (cases "has_other (node (st_other st) y)")
      case True
      with nx 3 show ?thesis by auto
    next
      case ny: False
      show ?thesis
      proof (cases "node_less h (node (st_this st) x) (node (st_other st) y)")
        case True
        with nx ny 3 show ?thesis by auto
      next
        case l1: False
        show ?thesis
        proof (cases "node_less h (node (st_other st) y) (node (st_this st) x)")
          case True
          with nx ny l1 3 show ?thesis by auto
        next
          case l2: False
          obtain num r1 xs' r2 ys' where
            er: "extend_range h st x y xs ys 1 [x] [y] = (num, r1, xs', r2, ys')"
            by (cases "extend_range h st x y xs ys 1 [x] [y]") auto
          from extend_range_subset [OF er]
          have sub: "set r1 \<subseteq> insert x (set xs)" "set r2 \<subseteq> insert y (set ys)"
            "set xs' \<subseteq> set xs" "set ys' \<subseteq> set ys"
            by auto
          from "3.prems" nx ny l1 l2 er obtain nrs' where
            rec: "collect_ranges h st t w xs' ys' = Some nrs'" and
            nrs: "nrs = (if num = 1 \<or> w then [(num, r1, r2)] else []) @ nrs'"
            by (auto split: if_splits option.splits)
          show ?thesis
          proof (cases "nr \<in> set nrs'")
            case True
            have "set (fst (snd nr)) \<subseteq> set xs' \<and> set (snd (snd nr)) \<subseteq> set ys'"
              using "3.IH"(5) [OF nx ny l1 l2 er [symmetric] refl refl refl _ rec True]
                "3.prems" nx ny l1 l2 er
              by (auto split: if_splits)
            with sub show ?thesis by auto
          next
            case False
            with nrs "3.prems"(2) have "nr = (num, r1, r2)"
              by (auto split: if_splits)
            with sub show ?thesis by auto
          qed
        qed
      qed
    qed
  qed
qed

subsection \<open>Calls in tentative mode\<close>

lemma derive_runs_rolls_back:
  assumes fs: "from_set_rolls_back from_set"
  shows "graphs_consistent st \<Longrightarrow>
    \<forall>r \<in> set runs. r \<noteq> [] \<and> (\<forall>e \<in> set r. fst (snd e) < length (m_nodes (st_this st))) \<Longrightarrow>
    \<forall>e \<in> set (m_edges nother). fst (snd e) < length (m_nodes (st_other st)) \<Longrightarrow>
    rolled_back (snd (derive_runs from_set h nother nb wa runs nn (Some tn) st)) tn st"
proof (induction runs arbitrary: nn tn st)
  case Nil
  show ?case by (simp add: rolled_back_refl)
next
  case (Cons r rs)
  let ?nodes = "sort_nodes h (st_this st) (map (\<lambda>i. fst (snd i)) r)"
  let ?others = "sort_nodes h (st_other st) (collect_other_nodes h nother (hd r))"
  show ?case
  proof (cases "exact_match h st ?nodes ?others")
    case False
    then show ?thesis by (simp add: rolled_back_refl)
  next
    case True
    obtain res tn1 st1 where call: "from_set ?nodes ?others nb (Some tn) wa st = (res, tn1, st1)"
      by (cases "from_set ?nodes ?others nb (Some tn) wa st") auto
    have n1: "set ?nodes \<subseteq> {..< length (m_nodes (st_this st))}"
      using Cons.prems(2) by auto
    have n2: "set ?others \<subseteq> {..< length (m_nodes (st_other st))}"
      using Cons.prems(3) collect_other_nodes_subset [of h nother "hd r"] by auto
    have "rolled_back (snd (from_set ?nodes ?others nb (Some tn) wa st)) tn st"
      using fs Cons.prems(1) n1 n2 unfolding from_set_rolls_back_def by blast
    then have rb1: "rolled_back (tn1, st1) tn st"
      by (simp add: call)
    then obtain t1 where t1: "tn1 = Some t1"
      by (auto simp: rolled_back_def)
    have same: "graphs_consistent st1"
      "length (m_nodes (st_this st1)) = length (m_nodes (st_this st))"
      "length (m_nodes (st_other st1)) = length (m_nodes (st_other st))"
      using rolled_back_consistent [OF rb1] Cons.prems(1) by simp_all
    have next_rb: "rolled_back (snd (derive_runs from_set h nother nb wa rs nn' (Some t1) st1)) tn st"
      for nn'
    proof -
      have "rolled_back (snd (derive_runs from_set h nother nb wa rs nn' (Some t1) st1)) t1 st1"
        using Cons.IH [of st1 nn' t1] same Cons.prems(2,3) by simp
      with rolled_back_trans [OF rb1, of t1] t1 show ?thesis by simp
    qed
    show ?thesis
    proof (cases res)
      case (Inl e)
      with True call rb1 show ?thesis by simp
    next
      case (Inr bt)
      with True call rb1 next_rb t1 show ?thesis by simp
    qed
  qed
qed

lemma derive_body_rolls_back:
  assumes fs: "from_set_rolls_back from_set"
  shows "derive_rolls_back (derive_body from_set h)"
  unfolding derive_rolls_back_def
proof (intro allI impI)
  fix ni nb tn wa st
  assume gc: "graphs_consistent st" and ni: "ni < length (m_nodes (st_this st))"
    and other: "m_other_net_index (node (st_this st) ni) < length (m_nodes (st_other st))"
  let ?n = "node (st_this st) ni"
  let ?nother = "node (st_other st) (m_other_net_index ?n)"
  have runs: "\<forall>r \<in> set (edge_runs h (m_edges ?n)).
      r \<noteq> [] \<and> (\<forall>e \<in> set r. fst (snd e) < length (m_nodes (st_this st)))"
    using edge_runs_subset [of _ h "m_edges ?n"] edge_index_consistent [of "st_this st" ni] gc ni
    unfolding graphs_consistent_def by blast
  have far: "\<forall>e \<in> set (m_edges ?nother). fst (snd e) < length (m_nodes (st_other st))"
    using edge_index_consistent [of "st_other st" "m_other_net_index ?n"] gc other
    by (auto simp: graphs_consistent_def)
  show "rolled_back (snd (derive_body from_set h ni nb (Some tn) wa st)) tn st"
    using derive_runs_rolls_back [OF fs gc runs far]
    by (simp add: derive_body_def Let_def)
qed

lemma pair_and_derive_rolls_back:
  assumes d: "derive_rolls_back derive"
    and gc: "graphs_consistent st"
    and a: "a < length (m_nodes (st_this st))" "\<not> has_other (node (st_this st) a)"
    and b: "b < length (m_nodes (st_other st))" "\<not> has_other (node (st_other st) b)"
  shows "rolled_back (snd (pair_and_derive derive h logger nb wa a b (Some tn) st)) tn st"
proof -
  let ?st1 = "st\<lparr> st_this := identify a b (st_this st), st_other := identify b a (st_other st) \<rparr>"
  have ia: "node_index_for_net (st_this st) (mp_net (node (st_this st) a)) = Inr a"
    and ib: "node_index_for_net (st_other st) (mp_net (node (st_other st) b)) = Inr b"
    using gc a b by (simp_all add: graphs_consistent_def node_index_consistent)
  have mp: "map_pair (Some tn) a b st = (Some (tn @ [(a, b)]), ?st1)"
    by (simp add: map_pair_def keep_def)
  have rb1: "rolled_back (Some (tn @ [(a, b)]), ?st1) tn st"
    using undo_map_pair [of a st b "Some tn"] a b
    by (auto simp: rolled_back_def map_pair_state)
  have gc1: "graphs_consistent ?st1"
    using gc by (simp add: graphs_consistent_def)
  have "m_other_net_index (node (st_this ?st1) a) = b"
    using a by (simp add: node_identify)
  then have "rolled_back (snd (derive a nb (Some (tn @ [(a, b)])) wa ?st1)) (tn @ [(a, b)]) ?st1"
    using d gc1 a b unfolding derive_rolls_back_def
    by simp
  with rolled_back_trans [OF rb1, of "tn @ [(a, b)]"]
  have "rolled_back (snd (derive a nb (Some (tn @ [(a, b)])) wa ?st1)) tn st"
    by simp
  then show ?thesis
    by (simp add: pair_and_derive_def ia ib mp)
qed

lemma try_pair_restores:
  assumes d: "derive_rolls_back derive"
    and gc: "graphs_consistent st"
    and a: "a < length (m_nodes (st_this st))" "\<not> has_other (node (st_this st) a)"
    and b: "b < length (m_nodes (st_other st))" "\<not> has_other (node (st_other st) b)"
  shows "snd (try_pair derive nb wa a b st) = st"
proof -
  let ?st1 = "st\<lparr> st_this := identify a b (st_this st), st_other := identify b a (st_other st) \<rparr>"
  have mp: "map_pair (Some []) a b st = (Some [(a, b)], ?st1)"
    by (simp add: map_pair_def keep_def)
  have rb1: "rolled_back (Some ([] @ [(a, b)]), ?st1) [] st"
    using undo_map_pair [of a st b "Some []"] a b
    by (auto simp: rolled_back_def map_pair_state)
  have gc1: "graphs_consistent ?st1"
    using gc by (simp add: graphs_consistent_def)
  have "m_other_net_index (node (st_this ?st1) a) = b"
    using a by (simp add: node_identify)
  then have "rolled_back (snd (derive a nb (Some [(a, b)]) wa ?st1)) [(a, b)] ?st1"
    using d gc1 a b unfolding derive_rolls_back_def
    by simp
  with rolled_back_trans [OF rb1, of "[(a, b)]"]
  have "rolled_back (snd (derive a nb (Some [(a, b)]) wa ?st1)) [] st"
    by simp
  then show ?thesis
    by (auto simp: try_pair_def mp rolled_back_def split: prod.splits)
qed

lemma try_candidates_restores:
  assumes d: "derive_rolls_back derive"
    and gc: "graphs_consistent st"
    and i1: "i1 < length (m_nodes (st_this st))" "\<not> has_other (node (st_this st) i1)"
  shows "set r2 \<subseteq> {..< length (m_nodes (st_other st))} \<Longrightarrow>
    \<forall>p \<in> set (fst (snd (snd acc))). free_pair st p \<Longrightarrow>
    snd (try_candidates derive nb wa i1 r2 acc st) = st \<and>
    (\<forall>acc'. fst (try_candidates derive nb wa i1 r2 acc st) = Inr acc' \<longrightarrow>
       (\<forall>p \<in> set (fst (snd (snd acc'))). free_pair st p))"
proof (induction r2 arbitrary: acc)
  case Nil
  then show ?case by simp
next
  case (Cons i2 rest)
  obtain any new_nodes pairs eq seen where acc: "acc = (any, new_nodes, pairs, eq, seen)"
    by (cases acc) auto
  have rest: "set rest \<subseteq> {..< length (m_nodes (st_other st))}"
    and i2: "i2 < length (m_nodes (st_other st))"
    using Cons.prems(1) by auto
  have ia: "node_index_for_net (st_this st) (mp_net (node (st_this st) i1)) = Inr i1"
    and ib: "node_index_for_net (st_other st) (mp_net (node (st_other st) i2)) = Inr i2"
    using gc i1 i2 by (simp_all add: graphs_consistent_def node_index_consistent)
  note IH = Cons.IH [OF rest]
  show ?case
  proof (cases "has_other (node (st_other st) i2) \<or> i2 \<in> set seen")
    case True
    with IH [of acc] Cons.prems(2) acc show ?thesis by auto
  next
    case False
    then have free: "free_pair st (i1, i2)"
      using i1 i2 by (simp add: free_pair_def)
    obtain r where tp: "try_pair derive nb wa i1 i2 st = (r, st)"
      using try_pair_restores [OF d gc i1 i2, of nb wa] False
      by (cases "try_pair derive nb wa i1 i2 st") auto
    show ?thesis
    proof (cases r)
      case (Inl e)
      with False acc ia ib tp show ?thesis by simp
    next
      case (Inr bt)
      have a1: "\<forall>p \<in> set (fst (snd (snd (any, new_nodes, pairs,
                    same i2 (snd (last pairs)) eq, seen)))). free_pair st p"
        using Cons.prems(2) acc by simp
      have a2: "\<forall>p \<in> set (fst (snd (snd (True, size_add new_nodes (size_add bt 1),
                    pairs @ [(i1, i2)], eq, i2 # seen)))). free_pair st p"
        using Cons.prems(2) acc free by simp
      from IH [OF a1] IH [OF a2] IH [OF Cons.prems(2)] Inr False acc ia ib tp
      show ?thesis by (cases any) simp_all
    qed
  qed
qed

lemma scan_group_restores:
  assumes d: "derive_rolls_back derive"
    and gc: "graphs_consistent st"
    and r2: "set r2 \<subseteq> {..< length (m_nodes (st_other st))}"
  shows "set r1 \<subseteq> {..< length (m_nodes (st_this st))} \<Longrightarrow>
    \<forall>p \<in> set (fst (snd (snd acc))). free_pair st p \<Longrightarrow>
    snd (scan_group derive nb wa t r1 r2 acc st) = st \<and>
    (\<forall>acc'. fst (scan_group derive nb wa t r1 r2 acc st) = Inr (Some acc') \<longrightarrow>
       (\<forall>p \<in> set (fst (snd (snd acc'))). free_pair st p))"
proof (induction r1 arbitrary: acc)
  case Nil
  then show ?case by simp
next
  case (Cons i1 rest)
  have rest: "set rest \<subseteq> {..< length (m_nodes (st_this st))}"
    and i1: "i1 < length (m_nodes (st_this st))"
    using Cons.prems(1) by auto
  note IH = Cons.IH [OF rest]
  show ?case
  proof (cases "has_other (node (st_this st) i1)")
    case True
    with IH [OF Cons.prems(2)] show ?thesis by simp
  next
    case False
    obtain any0 new_nodes pairs eq seen where acc: "acc = (any0, new_nodes, pairs, eq, seen)"
      by (cases acc) auto
    let ?acc0 = "(False, new_nodes, pairs, eq, seen)"
    have a0: "\<forall>p \<in> set (fst (snd (snd ?acc0))). free_pair st p"
      using Cons.prems(2) acc by simp
    obtain r where tc: "try_candidates derive nb wa i1 r2 ?acc0 st = (r, st)"
      using try_candidates_restores [OF d gc i1 False r2 a0, of nb wa]
      by (cases "try_candidates derive nb wa i1 r2 ?acc0 st") auto
    show ?thesis
    proof (cases r)
      case (Inl e)
      with False acc tc show ?thesis by simp
    next
      case (Inr acc')
      have "\<forall>p \<in> set (fst (snd (snd acc'))). free_pair st p"
        using try_candidates_restores [OF d gc i1 False r2 a0, of nb wa] tc Inr by simp
      from IH [OF this] Inr False acc tc show ?thesis by simp
    qed
  qed
qed

lemma undo_free: "\<forall>p \<in> set tn. free_pair st p \<Longrightarrow> undo tn st = st"
  by (induction tn) (simp_all add: undo_Cons free_pair_def unidentify_id)

lemma undo_step: "undo (p # tn) st = undo tn (undo [p] st)"
  by (simp add: undo_Cons)

lemma record_pairs_undo:
  "graphs_consistent st \<Longrightarrow>
   \<forall>p \<in> set ps. fst p < length (m_nodes (st_this st)) \<and> snd p < length (m_nodes (st_other st)) \<Longrightarrow>
   \<exists>added. fst (snd (record_pairs ps (Some tn) st)) = Some (tn @ added) \<and> set added \<subseteq> set ps \<and>
     undo added (snd (snd (record_pairs ps (Some tn) st))) = undo added st"
proof (induction ps arbitrary: tn st)
  case Nil
  show ?case by simp
next
  case (Cons p ps)
  let ?st1 = "st\<lparr> st_this := identify (fst p) (snd p) (st_this st),
                    st_other := identify (snd p) (fst p) (st_other st) \<rparr>"
  have ia: "node_index_for_net (st_this st) (mp_net (node (st_this st) (fst p))) = Inr (fst p)"
    and ib: "node_index_for_net (st_other st) (mp_net (node (st_other st) (snd p))) = Inr (snd p)"
    using Cons.prems by (simp_all add: graphs_consistent_def node_index_consistent)
  have step: "record_pairs (p # ps) (Some tn) st = record_pairs ps (Some (tn @ [p])) ?st1"
    by (simp add: ia ib map_pair_def keep_def)
  have gc1: "graphs_consistent ?st1"
    using Cons.prems(1) by (simp add: graphs_consistent_def)
  have "\<forall>q \<in> set ps. fst q < length (m_nodes (st_this ?st1)) \<and>
          snd q < length (m_nodes (st_other ?st1))"
    using Cons.prems(2) by simp
  from Cons.IH [OF gc1 this, of "tn @ [p]"] obtain added where
    added: "fst (snd (record_pairs ps (Some (tn @ [p])) ?st1)) = Some ((tn @ [p]) @ added)"
      "set added \<subseteq> set ps"
      "undo added (snd (snd (record_pairs ps (Some (tn @ [p])) ?st1))) = undo added ?st1"
    by blast
  let ?st' = "snd (snd (record_pairs ps (Some (tn @ [p])) ?st1))"
  have p1: "undo [p] ?st1 = undo [p] st"
    by (simp add: undo_Cons unidentify_identify)
  have "undo (p # added) ?st' = undo [p] (undo added ?st')"
    by (simp only: undo_step [of p added] undo_commute [of added "[p]"])
  also have "\<dots> = undo added (undo [p] ?st1)"
    by (simp only: added(3) undo_commute [of "[p]" added])
  also have "\<dots> = undo (p # added) st"
    by (simp only: p1 undo_step [of p added])
  finally have "undo (p # added) ?st' = undo (p # added) st" .
  with added(1,2) show ?case
    unfolding step by (auto intro!: exI [of _ "p # added"])
qed

lemma record_pairs_rolls_back:
  assumes "graphs_consistent st" and "\<forall>p \<in> set ps. free_pair st p"
  shows "rolled_back (snd (record_pairs ps (Some tn) st)) tn st"
proof -
  have "\<forall>p \<in> set ps. fst p < length (m_nodes (st_this st)) \<and>
          snd p < length (m_nodes (st_other st))"
    using assms(2) by (simp add: free_pair_def)
  from record_pairs_undo [OF assms(1) this, of tn] obtain added where
    added: "fst (snd (record_pairs ps (Some tn) st)) = Some (tn @ added)" "set added \<subseteq> set ps"
      "undo added (snd (snd (record_pairs ps (Some tn) st))) = undo added st"
    by blast
  have "undo added st = st"
    using added(2) assms(2) by (intro undo_free) auto
  with added show ?thesis
    by (auto simp: rolled_back_def)
qed

lemma ambiguity_group_rolls_back:
  assumes d: "derive_rolls_back derive"
    and gc: "graphs_consistent st"
    and r1: "set r1 \<subseteq> {..< length (m_nodes (st_this st))}"
    and r2: "set r2 \<subseteq> {..< length (m_nodes (st_other st))}"
  shows "rolled_back (snd (ambiguity_group derive logger nb wa r1 r2 nn (Some tn) st)) tn st"
proof -
  let ?acc = "(False, nn, [], [], []) :: group_acc"
  have a0: "\<forall>p \<in> set (fst (snd (snd ?acc))). free_pair st p"
    by simp
  note sg = scan_group_restores [OF d gc r2 r1 a0, of nb wa True]
  obtain r where r: "scan_group derive nb wa True r1 r2 ?acc st = (r, st)"
    using sg by (cases "scan_group derive nb wa True r1 r2 ?acc st") auto
  show ?thesis
  proof (cases r)
    case (Inl e)
    with r show ?thesis by (simp add: ambiguity_group_def rolled_back_refl)
  next
    case (Inr opt)
    show ?thesis
    proof (cases opt)
      case None
      with Inr r show ?thesis by (simp add: ambiguity_group_def rolled_back_refl)
    next
      case (Some acc')
      obtain any new_nodes pairs eq seen where acc': "acc' = (any, new_nodes, pairs, eq, seen)"
        by (cases acc') auto
      have "\<forall>p \<in> set pairs. free_pair st p"
        using sg r Inr Some acc' by simp
      from record_pairs_rolls_back [OF gc this, of tn] Inr Some acc' r show ?thesis
        by (auto simp: ambiguity_group_def split: prod.splits sum.splits)
    qed
  qed
qed

lemma ranges_loop_rolls_back:
  assumes d: "derive_rolls_back derive"
  shows "graphs_consistent st \<Longrightarrow>
    \<forall>nr \<in> set nrs. set (fst (snd nr)) \<subseteq> {..< length (m_nodes (st_this st))} \<and>
                    set (snd (snd nr)) \<subseteq> {..< length (m_nodes (st_other st))} \<Longrightarrow>
    rolled_back (snd (ranges_loop derive h logger mnb nb wa nrs nn (Some tn) st)) tn st"
proof (induction nrs arbitrary: nn tn st)
  case Nil
  show ?case by (simp add: rolled_back_refl)
next
  case (Cons nr nrs)
  obtain r1 r2 where sl: "skip_leading st (fst (snd nr)) (snd (snd nr)) = (r1, r2)"
    by (cases "skip_leading st (fst (snd nr)) (snd (snd nr))") auto
  have r1: "set r1 \<subseteq> {..< length (m_nodes (st_this st))}"
    and r2: "set r2 \<subseteq> {..< length (m_nodes (st_other st))}"
    using skip_leading_subset [OF sl] Cons.prems(2) by auto
  have rest: "\<forall>nr \<in> set nrs. set (fst (snd nr)) \<subseteq> {..< length (m_nodes (st_this st))} \<and>
                    set (snd (snd nr)) \<subseteq> {..< length (m_nodes (st_other st))}"
    using Cons.prems(2) by simp
  have same: "rolled_back (snd (ranges_loop derive h logger mnb nb wa nrs nn' (Some tn) st)) tn st"
    for nn'
    using Cons.IH [OF Cons.prems(1) rest] .
  have cont: "rolled_back (snd (ranges_loop derive h logger mnb nb wa nrs nn' (Some tn1) st1)) tn st"
    if rb: "rolled_back (Some tn1, st1) tn st" for nn' tn1 st1
  proof -
    have "graphs_consistent st1"
      "length (m_nodes (st_this st1)) = length (m_nodes (st_this st))"
      "length (m_nodes (st_other st1)) = length (m_nodes (st_other st))"
      using rolled_back_consistent [OF rb] Cons.prems(1) by simp_all
    then have "rolled_back (snd (ranges_loop derive h logger mnb nb wa nrs nn' (Some tn1) st1)) tn1 st1"
      using Cons.IH [of st1 nn' tn1] rest by simp
    with rolled_back_trans [OF rb, of tn1] show ?thesis by simp
  qed
  let ?num = "count_pairs st r1 r2 0"
  consider (none) "?num < 1" | (one) "?num = 1" | (many) "1 < ?num"
    by linarith
  then show ?case
  proof cases
    case none
    with sl same show ?thesis by simp
  next
    case one
    show ?thesis
    proof (cases "\<exists>a r1' b r2'. r1 = a # r1' \<and> r2 = b # r2'")
      case False
      with one sl same show ?thesis
        by (cases r1; cases r2) simp_all
    next
      case True
      then obtain a r1' b r2' where ab: "r1 = a # r1'" "r2 = b # r2'"
        by blast
      have a: "a < length (m_nodes (st_this st))" and b: "b < length (m_nodes (st_other st))"
        using r1 r2 ab by simp_all
      show ?thesis
      proof (cases "\<not> has_other (node (st_this st) a) \<and> \<not> has_other (node (st_other st) b)")
        case free: True
        obtain res tn1 st1 where
          pd: "pair_and_derive derive h logger nb wa a b (Some tn) st = (res, tn1, st1)"
          by (cases "pair_and_derive derive h logger nb wa a b (Some tn) st") auto
        have rb: "rolled_back (tn1, st1) tn st"
          using pair_and_derive_rolls_back [OF d Cons.prems(1) a _ b, of h logger nb wa tn] free pd
          by simp
        then obtain t1 where t1: "tn1 = Some t1"
          by (auto simp: rolled_back_def)
        from rb t1 cont [of t1 st1] one sl ab free pd show ?thesis
          by (cases res) simp_all
      next
        case False
        with one sl ab same show ?thesis
          by (auto simp: rolled_back_refl split: sum.splits)
      qed
    qed
  next
    case many
    show ?thesis
    proof (cases "size_mul ?num nb > mnb")
      case True
      with many sl show ?thesis by (simp add: rolled_back_refl)
    next
      case False
      obtain res tn1 st1 where
        ag: "ambiguity_group derive logger (size_mul ?num nb) wa r1 r2 nn (Some tn) st =
               (res, tn1, st1)"
        by (cases "ambiguity_group derive logger (size_mul ?num nb) wa r1 r2 nn (Some tn) st") auto
      have rb: "rolled_back (tn1, st1) tn st"
        using ambiguity_group_rolls_back [OF d Cons.prems(1) r1 r2, of logger "size_mul ?num nb" wa nn tn]
          ag by simp
      then obtain t1 where t1: "tn1 = Some t1"
        by (auto simp: rolled_back_def)
      from rb t1 cont [of t1 st1] many False sl ag show ?thesis
        by (auto split: sum.splits option.splits)
    qed
  qed
qed

lemma from_set_body_rolls_back:
  assumes d: "derive_rolls_back derive"
  shows "from_set_rolls_back (from_set_body derive h logger mnb)"
  unfolding from_set_rolls_back_def
proof (intro allI impI)
  fix nodes others nb tn wa st
  assume gc: "graphs_consistent st"
    and n1: "set nodes \<subseteq> {..< length (m_nodes (st_this st))}"
    and n2: "set others \<subseteq> {..< length (m_nodes (st_other st))}"
  show "rolled_back (snd (from_set_body derive h logger mnb nodes others nb (Some tn) wa st)) tn st"
  proof (cases "length nodes = 1 \<and> length others = 1")
    case True
    then obtain a b where ab: "nodes = [a]" "others = [b]"
      by (cases nodes; cases others) auto
    have a: "a < length (m_nodes (st_this st))" and b: "b < length (m_nodes (st_other st))"
      using n1 n2 ab by simp_all
    show ?thesis
    proof (cases "\<not> has_other (node (st_this st) a) \<and> \<not> has_other (node (st_other st) b)")
      case free: True
      have rb: "rolled_back (snd (pair_and_derive derive h logger nb wa a b (Some tn) st)) tn st"
        using pair_and_derive_rolls_back [OF d gc a _ b, of h logger nb wa tn] free by simp
      with ab free show ?thesis
        by (auto simp: from_set_body_def split: prod.splits sum.splits)
    next
      case False
      with ab show ?thesis
        by (auto simp: from_set_body_def rolled_back_refl split: sum.splits)
    qed
  next
    case False
    show ?thesis
    proof (cases "collect_ranges h st True wa nodes others")
      case None
      with False show ?thesis by (auto simp: from_set_body_def rolled_back_refl)
    next
      case (Some nrs)
      let ?nrs = "if wa then sort_by (\<lambda>a b. fst a < fst b) nrs else nrs"
      have "\<forall>nr \<in> set ?nrs. set (fst (snd nr)) \<subseteq> {..< length (m_nodes (st_this st))} \<and>
                    set (snd (snd nr)) \<subseteq> {..< length (m_nodes (st_other st))}"
        using collect_ranges_subset [OF Some] n1 n2 by (simp split: if_splits) blast
      from ranges_loop_rolls_back [OF d gc this, of h logger mnb nb wa 0 tn] False Some
      show ?thesis by (auto simp: from_set_body_def)
    qed
  qed
qed

lemma from_set_at_rolls_back: "from_set_rolls_back (from_set_at h logger mnb k)"
proof (induction k)
  case 0
  show ?case by (simp add: from_set_rolls_back_def rolled_back_refl)
next
  case (Suc k)
  then show ?case
    by (simp add: from_set_body_rolls_back derive_body_rolls_back)
qed

lemma derive_node_identities_rolls_back:
  "derive_rolls_back (\<lambda>ni nb tn wa st.
     derive_node_identities h logger ni depth max_depth nb mnb tn wa st)"
  using derive_body_rolls_back [OF from_set_at_rolls_back, of h logger mnb "Suc max_depth - depth" h]
  by (simp add: derive_rolls_back_def derive_node_identities_def)

lemma undo_unsets:
  "p \<in> set tn \<Longrightarrow>
   (fst p < length (m_nodes (st_this st)) \<longrightarrow> \<not> has_other (node (st_this (undo tn st)) (fst p))) \<and>
   (snd p < length (m_nodes (st_other st)) \<longrightarrow> \<not> has_other (node (st_other (undo tn st)) (snd p)))"
proof -
  assume "p \<in> set tn"
  then obtain xs ys where "tn = xs @ p # ys"
    by (auto simp: in_set_conv_decomp)
  then have "undo tn st = undo [p] (undo (xs @ ys) st)"
    by (simp add: undo_append undo_step [of p ys] undo_commute [of "[p]"])
  then show ?thesis
    by (simp add: undo_Cons node_unidentify has_other_def)
qed

subsection \<open>Rollback\<close>

text \<open>
  C3. The destructor of a \<open>TentativeNodeMapping\<close> (\<open>undo\<close>) leaves every node it recorded
  without a partner, in both graphs. And a speculative branch leaves the two graphs and the
  log exactly as they were: the scope of an audit object (\<open>try_pair\<close>, entered for two nodes
  without partners) gives back the state it was entered with, whatever the search from the
  pair returns, a count, the failure value or an error; and so does the analysis of an
  ambiguity group (\<open>scan_group\<close>), which is where the engine enters these scopes. The
  graphs are well-formed and the nodes are nodes of the graphs.
\<close>

theorem tentative_pairings_are_rolled_back:
  assumes "graph_consistent (st_this st)" and "graph_consistent (st_other st)"
    and "set r1 \<subseteq> {..< length (m_nodes (st_this st))}"
    and "set r2 \<subseteq> {..< length (m_nodes (st_other st))}"
    and "ni < length (m_nodes (st_this st))" and "\<not> has_other (node (st_this st) ni)"
    and "other_ni < length (m_nodes (st_other st))" and "\<not> has_other (node (st_other st) other_ni)"
  shows "(\<forall>p \<in> set tn.
            (fst p < length (m_nodes (st_this st)) \<longrightarrow>
               \<not> has_other (node (st_this (undo tn st)) (fst p))) \<and>
            (snd p < length (m_nodes (st_other st)) \<longrightarrow>
               \<not> has_other (node (st_other (undo tn st)) (snd p)))) \<and>
         snd (try_pair
                (\<lambda>i nb tn wa s. derive_node_identities h logger i depth max_depth nb max_n_branch tn wa s)
                n_branch with_ambiguous ni other_ni st) = st \<and>
         snd (scan_group
                (\<lambda>i nb tn wa s. derive_node_identities h logger i depth max_depth nb max_n_branch tn wa s)
                n_branch with_ambiguous tentative r1 r2 (False, new_nodes, [], [], []) st) = st"
proof -
  let ?derive = "\<lambda>i nb tn wa s.
    derive_node_identities h logger i depth max_depth nb max_n_branch tn wa s"
  have d: "derive_rolls_back ?derive"
    by (rule derive_node_identities_rolls_back)
  have gc: "graphs_consistent st"
    using assms(1,2) by (simp add: graphs_consistent_def)
  have "\<forall>p \<in> set (fst (snd (snd ((False, new_nodes, [], [], []) :: group_acc)))). free_pair st p"
    by simp
  from scan_group_restores [OF d gc assms(4,3) this]
  have "snd (scan_group ?derive n_branch with_ambiguous tentative r1 r2
               (False, new_nodes, [], [], []) st) = st"
    by blast
  moreover have "snd (try_pair ?derive n_branch with_ambiguous ni other_ni st) = st"
    using d gc assms(5-8) by (rule try_pair_restores)
  ultimately show ?thesis
    using undo_unsets [of _ tn st] by blast
qed

text \<open>The example graph is well-formed, and the theorem applies to it.\<close>

lemma rollback_example_consistent: "graph_consistent rollback_example_graph"
proof -
  have "(3 :: nat) \<le> size_max"
    by (simp add: size_max_def)
  moreover have "length (m_nodes rollback_example_graph) = 3"
    by (simp add: rollback_example_graph_def)
  moreover have "[0 ..< 3] = [0, 1, 2]"
    by (simp add: upt_rec numeral_3_eq_3)
  ultimately show ?thesis
    by (simp add: graph_consistent_def) (simp add: rollback_example_graph_def node_def)
qed

theorem tentative_pairings_are_rolled_back_witness:
  "graph_consistent (st_this rollback_example) \<and>
   graph_consistent (st_other rollback_example) \<and>
   set [1, 2] \<subseteq> {..< length (m_nodes (st_this rollback_example))} \<and>
   set [1, 2] \<subseteq> {..< length (m_nodes (st_other rollback_example))} \<and>
   (1 :: nat) < length (m_nodes (st_this rollback_example)) \<and>
   \<not> has_other (node (st_this rollback_example) 1) \<and>
   (1 :: nat) < length (m_nodes (st_other rollback_example)) \<and>
   \<not> has_other (node (st_other rollback_example) 1) \<and>
   \<not> has_other (node (st_this (undo [(1, 1), (2, 2)] rollback_example)) 1) \<and>
   \<not> has_other (node (st_this (undo [(1, 1), (2, 2)] rollback_example)) 2) \<and>
   \<not> has_other (node (st_other (undo [(1, 1), (2, 2)] rollback_example)) 1) \<and>
   \<not> has_other (node (st_other (undo [(1, 1), (2, 2)] rollback_example)) 2) \<and>
   snd (try_pair
          (\<lambda>i nb tn wa s. derive_node_identities skip_example_heap False i 0 8 nb 100 tn wa s)
          1 False 1 1 rollback_example) = rollback_example \<and>
   snd (scan_group
          (\<lambda>i nb tn wa s. derive_node_identities skip_example_heap False i 0 8 nb 100 tn wa s)
          1 False True [1, 2] [1, 2] (False, 0, [], [], []) rollback_example) = rollback_example"
proof -
  have gc: "graph_consistent (st_this rollback_example)"
    "graph_consistent (st_other rollback_example)"
    by (simp_all add: rollback_example_def rollback_example_consistent)
  have len: "length (m_nodes (st_this rollback_example)) = 3"
    "length (m_nodes (st_other rollback_example)) = 3"
    by (simp_all add: rollback_example_def rollback_example_graph_def)
  have r: "set [1, 2] \<subseteq> {..< length (m_nodes (st_this rollback_example))}"
    "set [1, 2] \<subseteq> {..< length (m_nodes (st_other rollback_example))}"
    by (simp_all add: len)
  have one: "(1 :: nat) < length (m_nodes (st_this rollback_example))"
    "(1 :: nat) < length (m_nodes (st_other rollback_example))"
    by (simp_all add: len)
  have free: "\<not> has_other (node (st_this rollback_example) 1)"
    "\<not> has_other (node (st_other rollback_example) 1)"
    by (simp_all add: rollback_example_def rollback_example_graph_def node_def has_other_def)
  from tentative_pairings_are_rolled_back
    [OF gc r one(1) free(1) one(2) free(2), where tn = "[(1, 1), (2, 2)]" and
       h = skip_example_heap and logger = False and depth = 0 and max_depth = 8 and
       max_n_branch = 100 and n_branch = 1 and with_ambiguous = False and tentative = True and
       new_nodes = 0]
    gc r one free len
  show ?thesis by simp
qed

end
